(* ===== verification/Kit_Prelude.thy ===== *)
theory Kit_Prelude
  imports
    Main
    "HOL-Library.Word"
    "HOL-Library.Char_ord"
    "HOL-Library.List_Lexorder"
    "HOL-Library.Sublist"
begin

text \<open>
  The shared layer of the development: Rust results and the \<open>?\<close> operator, the string and
  integer functions of the Rust standard library that the crates use, and the interface every
  closed enum with a wire spelling satisfies.

  A Rust \<open>str\<close> is its UTF-8 byte sequence, a HOL \<^typ>\<open>string\<close> whose characters are the
  bytes.  Searching for, splitting at and stripping an ASCII delimiter is the same operation on
  bytes as on scalar values; the two operations that look at scalar values (\<open>trim\<close> and
  \<open>chars().count()\<close>) are written out on the encoded bytes.
\<close>

section \<open>Collections\<close>

named_theorems result_simps \<open>rewriting of results and of the question-mark operator\<close>
named_theorems str_simps \<open>evaluation of the string functions\<close>

section \<open>Results\<close>

type_synonym ('e, 'a) result = "'e + 'a"
type_synonym uuid = "128 word"

text \<open>\<open>r?\<close> followed by the rest of the function.\<close>

definition try_bind :: "('e, 'a) result \<Rightarrow> ('a \<Rightarrow> ('e, 'b) result) \<Rightarrow> ('e, 'b) result" where
  "try_bind r f = (case r of Inl e \<Rightarrow> Inl e | Inr a \<Rightarrow> f a)"

text \<open>\<open>collect()\<close> of an iterator of results into a result of a list.\<close>

fun collect_results :: "('e, 'a) result list \<Rightarrow> ('e, 'a list) result" where
  "collect_results [] = Inr []"
| "collect_results (r # rs) = try_bind r (\<lambda>a. try_bind (collect_results rs) (\<lambda>as. Inr (a # as)))"

text \<open>\<open>Option::unwrap_or\<close>.\<close>

definition unwrap_or :: "'a \<Rightarrow> 'a option \<Rightarrow> 'a" where
  "unwrap_or d x = (case x of Some y \<Rightarrow> y | None \<Rightarrow> d)"

text \<open>\<open>Option::ok_or\<close>, \<open>Result::map_err\<close> and \<open>Result::ok\<close>.\<close>

definition ok_or :: "'e \<Rightarrow> 'a option \<Rightarrow> ('e, 'a) result" where
  "ok_or e x = (case x of None \<Rightarrow> Inl e | Some a \<Rightarrow> Inr a)"

definition map_err :: "('e \<Rightarrow> 'f) \<Rightarrow> ('e, 'a) result \<Rightarrow> ('f, 'a) result" where
  "map_err f r = (case r of Inl e \<Rightarrow> Inl (f e) | Inr a \<Rightarrow> Inr a)"

definition res_ok :: "('e, 'a) result \<Rightarrow> 'a option" where
  "res_ok r = (case r of Inl _ \<Rightarrow> None | Inr a \<Rightarrow> Some a)"

definition is_ok :: "('e, 'a) result \<Rightarrow> bool" where
  "is_ok r = (case r of Inl _ \<Rightarrow> False | Inr _ \<Rightarrow> True)"

lemma try_bind_simps [simp, result_simps]:
  "try_bind (Inl e) f = Inl e"
  "try_bind (Inr a) f = f a"
  by (simp_all add: try_bind_def)

lemma try_bind_Inr_iff [result_simps]:
  "try_bind r f = Inr b \<longleftrightarrow> (\<exists>a. r = Inr a \<and> f a = Inr b)"
  by (cases r) auto

lemma try_bind_Inl_iff [result_simps]:
  "try_bind r f = Inl e \<longleftrightarrow> r = Inl e \<or> (\<exists>a. r = Inr a \<and> f a = Inl e)"
  by (cases r) auto

lemma ok_or_simps [simp, result_simps]:
  "ok_or e None = Inl e"
  "ok_or e (Some a) = Inr a"
  by (simp_all add: ok_or_def)

lemma ok_or_Inr_iff [simp, result_simps]: "ok_or e x = Inr a \<longleftrightarrow> x = Some a"
  by (cases x) auto

lemma ok_or_Inl_iff [simp, result_simps]: "ok_or e x = Inl e' \<longleftrightarrow> x = None \<and> e' = e"
  by (cases x) auto

lemma map_err_simps [simp, result_simps]:
  "map_err f (Inl e) = Inl (f e)"
  "map_err f (Inr a) = Inr a"
  by (simp_all add: map_err_def)

lemma map_err_Inr_iff [simp, result_simps]: "map_err f r = Inr a \<longleftrightarrow> r = Inr a"
  by (cases r) auto

lemma map_err_Inl_iff [simp, result_simps]:
  "map_err f r = Inl e \<longleftrightarrow> (\<exists>e'. r = Inl e' \<and> e = f e')"
  by (cases r) auto

lemma res_ok_simps [simp, result_simps]:
  "res_ok (Inl e) = None"
  "res_ok (Inr a) = Some a"
  by (simp_all add: res_ok_def)

lemma is_ok_simps [simp, result_simps]:
  "\<not> is_ok (Inl e)"
  "is_ok (Inr a)"
  by (simp_all add: is_ok_def)

lemma is_ok_iff: "is_ok r \<longleftrightarrow> (\<exists>a. r = Inr a)"
  by (cases r) auto

lemma not_is_ok_iff: "\<not> is_ok r \<longleftrightarrow> (\<exists>e. r = Inl e)"
  by (cases r) auto

section \<open>Strings of the Rust standard library\<close>

abbreviation byte :: "char \<Rightarrow> nat" where
  "byte c \<equiv> of_char c"

subsection \<open>Searching and splitting at one delimiter\<close>

fun split_on :: "'a \<Rightarrow> 'a list \<Rightarrow> 'a list list" where
  "split_on d [] = [[]]"
| "split_on d (x # xs) =
     (if x = d then [] # split_on d xs
      else (case split_on d xs of [] \<Rightarrow> [[x]] | y # ys \<Rightarrow> (x # y) # ys))"

fun join_with :: "'a list \<Rightarrow> 'a list list \<Rightarrow> 'a list" where
  "join_with d [] = []"
| "join_with d [x] = x"
| "join_with d (x # y # ys) = x @ d @ join_with d (y # ys)"

text \<open>\<open>str::split_once\<close> and \<open>str::rsplit_once\<close> with a one-byte delimiter.\<close>

definition split_once :: "'a \<Rightarrow> 'a list \<Rightarrow> ('a list \<times> 'a list) option" where
  "split_once d s =
     (if d \<in> set s then Some (takeWhile (\<lambda>c. c \<noteq> d) s, tl (dropWhile (\<lambda>c. c \<noteq> d) s)) else None)"

definition rsplit_once :: "'a \<Rightarrow> 'a list \<Rightarrow> ('a list \<times> 'a list) option" where
  "rsplit_once d s =
     (case split_once d (rev s) of None \<Rightarrow> None | Some (b, a) \<Rightarrow> Some (rev a, rev b))"

definition strip_prefix :: "'a list \<Rightarrow> 'a list \<Rightarrow> 'a list option" where
  "strip_prefix p s = (if take (length p) s = p then Some (drop (length p) s) else None)"

definition starts_with :: "'a list \<Rightarrow> 'a list \<Rightarrow> bool" where
  "starts_with p s \<longleftrightarrow> take (length p) s = p"

text \<open>\<open>str::find\<close> of a set of bytes, as an index.\<close>

definition find_byte :: "('a \<Rightarrow> bool) \<Rightarrow> 'a list \<Rightarrow> nat option" where
  "find_byte P s = (if list_ex P s then Some (length (takeWhile (\<lambda>c. \<not> P c) s)) else None)"

text \<open>\<open>str::find\<close> of a substring, as an index.\<close>

fun find_str :: "'a list \<Rightarrow> 'a list \<Rightarrow> nat option" where
  "find_str p [] = (if p = [] then Some 0 else None)"
| "find_str p (x # xs) =
     (if take (length p) (x # xs) = p then Some 0 else map_option Suc (find_str p xs))"

text \<open>\<open>str::rfind\<close> of one byte, as an index.\<close>

definition rfind_byte :: "'a \<Rightarrow> 'a list \<Rightarrow> nat option" where
  "rfind_byte d s =
     (if d \<in> set s then Some (length s - Suc (length (takeWhile (\<lambda>c. c \<noteq> d) (rev s)))) else None)"

subsection \<open>Trimming\<close>

text \<open>
  The UTF-8 encodings of the scalar values with the Unicode property \<open>White_Space\<close>, which is
  what \<open>char::is_whitespace\<close> and \<open>str::trim\<close> use.
\<close>

definition ws_chars :: "string list" where
  "ws_chars =
     [[CHR 0x20], [CHR 0x09], [CHR 0x0A], [CHR 0x0B], [CHR 0x0C], [CHR 0x0D],
      [CHR 0xC2, CHR 0x85], [CHR 0xC2, CHR 0xA0], [CHR 0xE1, CHR 0x9A, CHR 0x80],
      [CHR 0xE2, CHR 0x80, CHR 0x80], [CHR 0xE2, CHR 0x80, CHR 0x81],
      [CHR 0xE2, CHR 0x80, CHR 0x82], [CHR 0xE2, CHR 0x80, CHR 0x83],
      [CHR 0xE2, CHR 0x80, CHR 0x84], [CHR 0xE2, CHR 0x80, CHR 0x85],
      [CHR 0xE2, CHR 0x80, CHR 0x86], [CHR 0xE2, CHR 0x80, CHR 0x87],
      [CHR 0xE2, CHR 0x80, CHR 0x88], [CHR 0xE2, CHR 0x80, CHR 0x89],
      [CHR 0xE2, CHR 0x80, CHR 0x8A], [CHR 0xE2, CHR 0x80, CHR 0xA8],
      [CHR 0xE2, CHR 0x80, CHR 0xA9], [CHR 0xE2, CHR 0x80, CHR 0xAF],
      [CHR 0xE2, CHR 0x81, CHR 0x9F], [CHR 0xE3, CHR 0x80, CHR 0x80]]"

fun strip_any :: "'a list list \<Rightarrow> 'a list \<Rightarrow> 'a list" where
  "strip_any ws [] = []"
| "strip_any ws (x # xs) =
     (case find (\<lambda>w. w \<noteq> [] \<and> take (length w) (x # xs) = w) ws of
        None \<Rightarrow> x # xs
      | Some w \<Rightarrow> strip_any ws (drop (length w - 1) xs))"

definition trim_start :: "string \<Rightarrow> string" where
  "trim_start s = strip_any ws_chars s"

definition trim_end :: "string \<Rightarrow> string" where
  "trim_end s = rev (strip_any (map rev ws_chars) (rev s))"

definition trim :: "string \<Rightarrow> string" where
  "trim s = trim_end (trim_start s)"

text \<open>\<open>trim_end_matches\<close> and \<open>trim_matches\<close> of one byte.\<close>

definition trim_end_byte :: "'a \<Rightarrow> 'a list \<Rightarrow> 'a list" where
  "trim_end_byte d s = rev (dropWhile (\<lambda>c. c = d) (rev s))"

definition trim_matches_byte :: "'a \<Rightarrow> 'a list \<Rightarrow> 'a list" where
  "trim_matches_byte d s = trim_end_byte d (dropWhile (\<lambda>c. c = d) s)"

text \<open>\<open>chars().any(char::is_whitespace)\<close>.\<close>

definition has_whitespace :: "string \<Rightarrow> bool" where
  "has_whitespace s \<longleftrightarrow> list_ex (\<lambda>w. sublist w s) ws_chars"

text \<open>The bytes of the em dash, which some messages contain.\<close>

definition em_dash :: string where
  "em_dash = [CHR 0xE2, CHR 0x80, CHR 0x94]"

text \<open>\<open>chars().count()\<close>: the bytes that do not continue a scalar value.\<close>

definition is_cont_byte :: "char \<Rightarrow> bool" where
  "is_cont_byte c \<longleftrightarrow> 128 \<le> byte c \<and> byte c < 192"

definition char_count :: "string \<Rightarrow> nat" where
  "char_count s = length (filter (\<lambda>c. \<not> is_cont_byte c) s)"

definition to_ascii_lower :: "char \<Rightarrow> char" where
  "to_ascii_lower c = (if 65 \<le> byte c \<and> byte c \<le> 90 then char_of (byte c + 32) else c)"

definition is_ascii_digit :: "char \<Rightarrow> bool" where
  "is_ascii_digit c \<longleftrightarrow> 48 \<le> byte c \<and> byte c \<le> 57"

definition is_ascii_alphanumeric :: "char \<Rightarrow> bool" where
  "is_ascii_alphanumeric c \<longleftrightarrow>
     is_ascii_digit c \<or> 65 \<le> byte c \<and> byte c \<le> 90 \<or> 97 \<le> byte c \<and> byte c \<le> 122"

subsection \<open>Decimal integers\<close>

definition digit_val :: "char \<Rightarrow> nat" where
  "digit_val c = byte c - 48"

definition digit_char :: "nat \<Rightarrow> char" where
  "digit_char d = char_of (48 + d)"

text \<open>\<open>Display\<close> of an unsigned and of a signed integer.\<close>

fun show_nat :: "nat \<Rightarrow> string" where
  "show_nat n = (if n < 10 then [digit_char n] else show_nat (n div 10) @ [digit_char (n mod 10)])"

declare show_nat.simps [simp del]

definition show_int :: "int \<Rightarrow> string" where
  "show_int i = (if i < 0 then CHR ''-'' # show_nat (nat (- i)) else show_nat (nat i))"

definition dec_val :: "string \<Rightarrow> nat" where
  "dec_val s = foldl (\<lambda>v c. 10 * v + digit_val c) 0 s"

text \<open>\<open>str::parse::<i64>\<close>: an optional sign, at least one digit, and a value in range.\<close>

definition i64_min :: int where "i64_min = - (2 ^ 63)"
definition i64_max :: int where "i64_max = 2 ^ 63 - 1"

definition parse_i64 :: "string \<Rightarrow> int option" where
  "parse_i64 s =
     (let neg = starts_with ''-'' s;
          ds = (if starts_with ''-'' s \<or> starts_with ''+'' s then tl s else s);
          v = (if neg then - int (dec_val ds) else int (dec_val ds))
      in if ds = [] \<or> \<not> list_all is_ascii_digit ds then None
         else if i64_min \<le> v \<and> v \<le> i64_max then Some v else None)"


text \<open>\<open>str::parse\<close> of an unsigned integer of \<open>w\<close> bits: an optional plus sign, digits, and a value in range.\<close>

definition parse_unsigned :: "nat \<Rightarrow> string \<Rightarrow> nat option" where
  "parse_unsigned w s =
     (let ds = (if starts_with ''+'' s then tl s else s)
      in if ds = [] \<or> \<not> list_all is_ascii_digit ds \<or> dec_val ds \<ge> 2 ^ w then None else Some (dec_val ds))"

subsection \<open>Checked arithmetic and padded decimals\<close>

text \<open>\<open>checked_mul\<close>, \<open>checked_add\<close> and a narrowing \<open>try_from\<close>.\<close>

definition checked_mul :: "'a::len word \<Rightarrow> 'a word \<Rightarrow> 'a word option" where
  "checked_mul x y = (if unat x * unat y < 2 ^ LENGTH('a) then Some (x * y) else None)"

definition checked_add :: "'a::len word \<Rightarrow> 'a word \<Rightarrow> 'a word option" where
  "checked_add x y = (if unat x + unat y < 2 ^ LENGTH('a) then Some (x + y) else None)"

definition try_narrow :: "'a::len word \<Rightarrow> 'b::len word option" where
  "try_narrow x = (if unat x < 2 ^ LENGTH('b) then Some (of_nat (unat x)) else None)"

text \<open>The format \<open>{:0w}\<close> of an unsigned integer.\<close>

definition show_padded :: "nat \<Rightarrow> nat \<Rightarrow> string" where
  "show_padded w n = replicate (w - length (show_nat n)) CHR ''0'' @ show_nat n"

section \<open>The wire spelling of a closed enum\<close>

text \<open>
  Scopes, job states, identity providers, products: each is a closed enum with a total
  rendering to a stable string, a partial parser and the list of its variants.
\<close>

locale wire_enum =
  fixes as_str :: "'a \<Rightarrow> string"
    and parse :: "string \<Rightarrow> 'a option"
    and all_variants :: "'a list"
  assumes parse_as_str: "parse (as_str x) = Some x"
    and parse_sound: "parse s = Some x \<Longrightarrow> s = as_str x"
    and all_complete: "x \<in> set all_variants"
begin

lemma parse_iff: "parse s = Some x \<longleftrightarrow> s = as_str x"
  using parse_as_str parse_sound by blast

lemma as_str_inj: "as_str x = as_str y \<longleftrightarrow> x = y"
  by (metis parse_as_str option.inject)

lemma inj_as_str: "inj as_str"
  by (simp add: inj_on_def as_str_inj)

lemma parse_None_iff: "parse s = None \<longleftrightarrow> s \<notin> set (map as_str all_variants)"
proof -
  have "parse s \<noteq> None \<longleftrightarrow> (\<exists>x. s = as_str x)"
    by (auto simp: parse_iff)
  then show ?thesis
    using all_complete by auto
qed

lemma filter_parse_map: "List.map_filter parse (map as_str xs) = xs"
  by (induction xs) (simp_all add: parse_as_str)

lemma mem_filter_parse: "x \<in> set (List.map_filter parse ss) \<longleftrightarrow> as_str x \<in> set ss"
proof (induction ss)
  case (Cons s ss)
  show ?case
  proof (cases "parse s")
    case None
    then have "as_str x \<noteq> s"
      using parse_as_str by force
    with None Cons show ?thesis by simp
  next
    case (Some y)
    then have "s = as_str y" by (rule parse_sound)
    with Some Cons show ?thesis by (simp add: as_str_inj)
  qed
qed simp

lemma set_filter_parse: "set (List.map_filter parse ss) = {x. as_str x \<in> set ss}"
  by (auto simp: mem_filter_parse)

lemma finite_variants: "finite (A :: 'a set)"
  by (rule finite_subset [of _ "set all_variants"]) (auto intro: all_complete)

end

section \<open>Facts about the string functions\<close>

lemma split_on_ne [simp]: "split_on d s \<noteq> []"
  by (induction s) (auto split: list.splits)

lemma join_with_Cons:
  "ys \<noteq> [] \<Longrightarrow> join_with d (y # ys) = y @ d @ join_with d ys"
  by (cases ys) auto

lemma join_split: "join_with [d] (split_on d s) = s"
proof (induction s)
  case (Cons x xs)
  obtain y ys where y: "split_on d xs = y # ys"
    by (cases "split_on d xs") auto
  with Cons show ?case
    by (cases ys) auto
qed simp

lemma split_on_no_delim: "d \<notin> set s \<Longrightarrow> split_on d s = [s]"
  by (induction s) auto

lemma split_on_append: "d \<notin> set a \<Longrightarrow> split_on d (a @ d # b) = a # split_on d b"
  by (induction a) auto

lemma split_on_append_gen: "split_on d (a @ d # b) = split_on d a @ split_on d b"
  by (induction a) (auto split: list.splits)

lemma split_join:
  "xs \<noteq> [] \<Longrightarrow> \<forall>x\<in>set xs. d \<notin> set x \<Longrightarrow> split_on d (join_with [d] xs) = xs"
proof (induction xs)
  case (Cons x xs)
  then show ?case
    by (cases xs) (auto simp: split_on_no_delim split_on_append)
qed simp

lemma split_on_pieces: "p \<in> set (split_on d s) \<Longrightarrow> d \<notin> set p"
  by (induction s arbitrary: p) (auto split: list.splits if_splits)

lemma set_split_on: "p \<in> set (split_on d s) \<Longrightarrow> set p \<subseteq> set s"
  by (induction s arbitrary: p) (fastforce split: list.splits if_splits)+

lemma split_once_Some_iff:
  "split_once d s = Some (a, b) \<longleftrightarrow> s = a @ d # b \<and> d \<notin> set a"
proof
  assume "split_once d s = Some (a, b)"
  then have d: "d \<in> set s" and a: "a = takeWhile (\<lambda>c. c \<noteq> d) s"
    and b: "b = tl (dropWhile (\<lambda>c. c \<noteq> d) s)"
    by (auto simp: split_once_def split: if_splits)
  have "dropWhile (\<lambda>c. c \<noteq> d) s \<noteq> []"
    using d by auto
  then have "dropWhile (\<lambda>c. c \<noteq> d) s = d # b"
    using hd_dropWhile [of "\<lambda>c. c \<noteq> d" s] b by (cases "dropWhile (\<lambda>c. c \<noteq> d) s") auto
  then show "s = a @ d # b \<and> d \<notin> set a"
    by (metis a set_takeWhileD takeWhile_dropWhile_id)
next
  assume s: "s = a @ d # b \<and> d \<notin> set a"
  then have "\<forall>c\<in>set a. c \<noteq> d" by auto
  then have "takeWhile (\<lambda>c. c \<noteq> d) (a @ d # b) = a"
    and "dropWhile (\<lambda>c. c \<noteq> d) (a @ d # b) = d # b"
    by (induction a) auto
  with s show "split_once d s = Some (a, b)"
    by (simp add: split_once_def)
qed

lemma split_once_None_iff [simp]: "split_once d s = None \<longleftrightarrow> d \<notin> set s"
  by (simp add: split_once_def)

lemma rsplit_once_eq:
  "rsplit_once d s = map_option (\<lambda>(b, a). (rev a, rev b)) (split_once d (rev s))"
  unfolding rsplit_once_def
  by (cases "split_once d (rev s)") (auto simp del: split_once_None_iff)

lemma rsplit_once_Some_iff:
  "rsplit_once d s = Some (a, b) \<longleftrightarrow> s = a @ d # b \<and> d \<notin> set b"
proof -
  have "rsplit_once d s = Some (a, b) \<longleftrightarrow> split_once d (rev s) = Some (rev b, rev a)"
    by (auto simp: rsplit_once_eq)
  also have "\<dots> \<longleftrightarrow> rev s = rev b @ d # rev a \<and> d \<notin> set b"
    by (simp add: split_once_Some_iff)
  also have "rev s = rev b @ d # rev a \<longleftrightarrow> s = a @ d # b"
    by (metis append.assoc append_Cons append_Nil rev_append rev_rev_ident rev.simps(2))
  finally show ?thesis .
qed

lemma rsplit_once_None_iff [simp]: "rsplit_once d s = None \<longleftrightarrow> d \<notin> set s"
  by (simp add: rsplit_once_eq)

lemma strip_prefix_Some_iff: "strip_prefix p s = Some t \<longleftrightarrow> s = p @ t"
  by (auto simp: strip_prefix_def) (metis append_take_drop_id)

lemma strip_prefix_append [simp]: "strip_prefix p (p @ t) = Some t"
  by (simp add: strip_prefix_Some_iff)

lemma strip_prefix_None_iff: "strip_prefix p s = None \<longleftrightarrow> \<not> starts_with p s"
  by (simp add: strip_prefix_def starts_with_def)

lemma starts_with_iff: "starts_with p s \<longleftrightarrow> (\<exists>t. s = p @ t)"
  by (auto simp: starts_with_def) (metis append_take_drop_id)

lemma starts_with_take: "starts_with p s \<longleftrightarrow> take (length p) s = p"
  unfolding starts_with_iff by (metis append_eq_conv_conj append_take_drop_id)

subsection \<open>Decimal rendering and parsing\<close>

lemma byte_digit_char [simp]: "d < 10 \<Longrightarrow> byte (digit_char d) = 48 + d"
  by (simp add: digit_char_def)

lemma digit_val_char [simp]: "d < 10 \<Longrightarrow> digit_val (digit_char d) = d"
  by (simp add: digit_val_def)

lemma is_digit_char [simp]: "d < 10 \<Longrightarrow> is_ascii_digit (digit_char d)"
  by (simp add: is_ascii_digit_def)

lemma digit_char_val: "is_ascii_digit c \<Longrightarrow> digit_char (digit_val c) = c"
  by (simp add: is_ascii_digit_def digit_val_def digit_char_def)

lemma digit_val_less: "is_ascii_digit c \<Longrightarrow> digit_val c < 10"
  unfolding is_ascii_digit_def digit_val_def by linarith

lemma show_nat_ne [simp]: "show_nat n \<noteq> []"
  by (subst show_nat.simps) simp

lemma show_nat_digits: "c \<in> set (show_nat n) \<Longrightarrow> is_ascii_digit c"
proof (induction n rule: show_nat.induct)
  case (1 n)
  then show ?case
    by (cases "n < 10") (auto simp: show_nat.simps [of n])
qed

lemma dec_val_append: "dec_val (s @ [c]) = 10 * dec_val s + digit_val c"
  by (simp add: dec_val_def)

lemma dec_val_show_nat [simp]: "dec_val (show_nat n) = n"
proof (induction n rule: show_nat.induct)
  case (1 n)
  show ?case
  proof (cases "n < 10")
    case True
    then show ?thesis
      by (simp add: show_nat.simps [of n] dec_val_def)
  next
    case False
    with 1 have "dec_val (show_nat (n div 10)) = n div 10"
      by simp
    with False show ?thesis
      by (simp add: show_nat.simps [of n] dec_val_append)
  qed
qed

lemma show_nat_inj [simp]: "show_nat m = show_nat n \<longleftrightarrow> m = n"
  by (metis dec_val_show_nat)

lemma show_nat_not_sign: "\<not> starts_with ''-'' (show_nat n)" "\<not> starts_with ''+'' (show_nat n)"
proof -
  have "is_ascii_digit (hd (show_nat n))"
    by (rule show_nat_digits [of _ n]) simp
  then have "hd (show_nat n) \<noteq> CHR ''-''" "hd (show_nat n) \<noteq> CHR ''+''"
    by (auto simp: is_ascii_digit_def)
  then show "\<not> starts_with ''-'' (show_nat n)" "\<not> starts_with ''+'' (show_nat n)"
    by (auto simp: starts_with_iff)
qed

lemma parse_i64_show_int:
  assumes "i64_min \<le> i" and "i \<le> i64_max"
  shows "parse_i64 (show_int i) = Some i"
proof -
  have digits: "list_all is_ascii_digit (show_nat n)" for n
    by (simp add: list_all_iff show_nat_digits)
  show ?thesis
  proof (cases "i < 0")
    case True
    then have "show_int i = CHR ''-'' # show_nat (nat (- i))"
      by (simp add: show_int_def)
    with True assms show ?thesis
      by (simp add: parse_i64_def starts_with_def digits)
  next
    case False
    then have "show_int i = show_nat (nat i)"
      by (simp add: show_int_def)
    with False assms show ?thesis
      by (simp add: parse_i64_def show_nat_not_sign digits)
  qed
qed

lemma parse_i64_range: "parse_i64 s = Some i \<Longrightarrow> i64_min \<le> i \<and> i \<le> i64_max"
  by (auto simp: parse_i64_def Let_def split: if_splits)

lemma unat_checked_mul: "checked_mul x y = Some z \<Longrightarrow> unat z = unat x * unat y"
  by (auto simp: checked_mul_def unat_word_ariths split: if_splits)

lemma unat_checked_add: "checked_add x y = Some z \<Longrightarrow> unat z = unat x + unat y"
  by (auto simp: checked_add_def unat_word_ariths split: if_splits)

lemma unat_inc_below: "x < y \<Longrightarrow> unat (x + 1) = Suc (unat x)" for x :: "'a::len word"
proof -
  assume "x < y"
  moreover have "unat y < 2 ^ LENGTH('a)"
    by (rule unsigned_less)
  ultimately have "Suc (unat x) < 2 ^ LENGTH('a)"
    unfolding word_less_nat_alt by linarith
  then show ?thesis
    by (simp add: unat_word_ariths)
qed

lemma div_shift_digit: "(y::nat) < m \<Longrightarrow> (x * m + y) div (m * q) = x div q"
  by (simp add: div_mult2_eq)

lemma div_eq_iff_range: "0 < m \<Longrightarrow> n div m = k \<longleftrightarrow> m * k \<le> n \<and> n < m * k + (m::nat)"
  by (metis add.commute div_nat_eqI dividend_less_times_div mult.commute mult_Suc_right times_div_less_eq_dividend)

lemma show_nat_0 [simp]: "show_nat 0 = [digit_char 0]"
  by (simp add: show_nat.simps [of 0])

lemma digit_char_0 [simp]: "digit_char 0 = CHR ''0''"
  by code_simp

lemma show_padded_Suc:
  assumes "0 < w"
  shows "show_padded (Suc w) n = show_padded w (n div 10) @ [digit_char (n mod 10)]"
proof (cases "n < 10")
  case True
  from assms obtain v where "w = Suc v"
    by (cases w) auto
  with True show ?thesis
    by (simp add: show_padded_def show_nat.simps [of n] replicate_append_same)
next
  case False
  then show ?thesis
    by (simp add: show_padded_def show_nat.simps [of n])
qed

lemma show_padded_1: "n < 10 \<Longrightarrow> show_padded 1 n = [digit_char n]"
  by (simp add: show_padded_def show_nat.simps [of n])

lemma show_padded_dec_val:
  "s \<noteq> [] \<Longrightarrow> list_all is_ascii_digit s \<Longrightarrow> show_padded (length s) (dec_val s) = s"
proof (induction s rule: rev_induct)
  case (snoc c s)
  then have c: "is_ascii_digit c" "digit_val c < 10"
    by (auto simp: digit_val_less)
  show ?case
  proof (cases "s = []")
    case True
    with c show ?thesis
      using show_padded_1 [of "digit_val c"] by (simp add: dec_val_def digit_char_val)
  next
    case False
    with snoc have "show_padded (length s) (dec_val s) = s"
      by simp
    with False c show ?thesis
      by (simp add: show_padded_Suc dec_val_append digit_char_val)
  qed
qed simp

lemma show_padded_props:
  "n < 10 ^ w \<Longrightarrow> 0 < w \<Longrightarrow>
     length (show_padded w n) = w \<and> dec_val (show_padded w n) = n
       \<and> list_all is_ascii_digit (show_padded w n)"
proof (induction w arbitrary: n)
  case (Suc w)
  show ?case
  proof (cases "w = 0")
    case True
    with Suc.prems show ?thesis
      using show_padded_1 [of n] by (simp add: dec_val_def)
  next
    case False
    have "n div 10 < 10 ^ w"
      using Suc.prems(1) by (simp add: less_mult_imp_div_less mult.commute)
    with Suc.IH False show ?thesis
      by (simp add: show_padded_Suc dec_val_append)
  qed
qed simp

lemma dec_val_bound: "list_all is_ascii_digit s \<Longrightarrow> dec_val s < 10 ^ length s"
proof (induction s rule: rev_induct)
  case (snoc c s)
  then have "digit_val c < 10" "dec_val s < 10 ^ length s"
    by (simp_all add: digit_val_less)
  then show ?case
    by (simp add: dec_val_append)
qed (simp add: dec_val_def)

subsection \<open>Trimming text without outer white space\<close>

definition printable :: "char \<Rightarrow> bool" where
  "printable c \<longleftrightarrow> 33 \<le> byte c \<and> byte c \<le> 126"

lemma strip_any_stop:
  "(\<And>w. w \<in> set ws \<Longrightarrow> w \<noteq> [] \<Longrightarrow> hd w \<noteq> x) \<Longrightarrow> strip_any ws (x # xs) = x # xs"
proof -
  assume h: "\<And>w. w \<in> set ws \<Longrightarrow> w \<noteq> [] \<Longrightarrow> hd w \<noteq> x"
  have "take (length w) (x # xs) \<noteq> w" if "w \<in> set ws" "w \<noteq> []" for w
    using h [OF that] that by (cases w) auto
  then have "find (\<lambda>w. w \<noteq> [] \<and> take (length w) (x # xs) = w) ws = None"
    by (auto simp: find_None_iff)
  then show ?thesis by simp
qed

lemma ws_heads: "w \<in> set ws_chars \<Longrightarrow> \<not> printable (hd w) \<and> \<not> printable (last w) \<and> w \<noteq> []"
  unfolding ws_chars_def by (simp, elim disjE; simp add: printable_def)

lemma trim_start_printable: "printable x \<Longrightarrow> trim_start (x # xs) = x # xs"
  unfolding trim_start_def using ws_heads by (intro strip_any_stop) blast

lemma trim_end_printable: "printable x \<Longrightarrow> trim_end (xs @ [x]) = xs @ [x]"
proof -
  assume x: "printable x"
  have "strip_any (map rev ws_chars) (x # rev xs) = x # rev xs"
  proof (rule strip_any_stop)
    fix w assume "w \<in> set (map rev ws_chars)" and "w \<noteq> []"
    then obtain v where v: "v \<in> set ws_chars" "w = rev v" by auto
    then have "hd w = last v" using ws_heads [of v] by (simp add: hd_rev)
    with ws_heads [OF v(1)] x show "hd w \<noteq> x" by auto
  qed
  then show ?thesis
    by (simp add: trim_end_def)
qed

lemma trim_Nil [simp]: "trim [] = []"
  by (simp add: trim_def trim_start_def trim_end_def)

lemma trim_printable: "printable (hd s) \<Longrightarrow> printable (last s) \<Longrightarrow> trim s = s"
proof (cases "s = []")
  case False
  assume h: "printable (hd s)" "printable (last s)"
  from False h(1) have "trim_start s = s"
    by (cases s) (auto intro: trim_start_printable)
  moreover from False h(2) have "trim_end s = s"
    by (metis append_butlast_last_id trim_end_printable)
  ultimately show ?thesis
    by (simp add: trim_def)
qed simp

lemma trim_all_printable: "list_all printable s \<Longrightarrow> trim s = s"
  by (cases "s = []") (simp_all add: list_all_iff trim_printable)

lemma ws_not_printable: "w \<in> set ws_chars \<Longrightarrow> c \<in> set w \<Longrightarrow> \<not> printable c"
  unfolding ws_chars_def by (simp, elim disjE; auto simp: printable_def)

lemma strip_any_keeps:
  "\<forall>w\<in>set ws. c \<notin> set w \<Longrightarrow> c \<in> set s \<Longrightarrow> c \<in> set (strip_any ws s)"
proof (induction ws s rule: strip_any.induct)
  case (2 ws x xs)
  show ?case
  proof (cases "find (\<lambda>w. w \<noteq> [] \<and> take (length w) (x # xs) = w) ws")
    case (Some w)
    then have w: "w \<in> set ws" "w \<noteq> []" "take (length w) (x # xs) = w"
      by (auto simp: find_Some_iff)
    have "x # xs = w @ drop (length w) (x # xs)"
      using append_take_drop_id [of "length w" "x # xs"] w(3) by simp
    moreover have "c \<notin> set w"
      using 2(2) w(1) by blast
    moreover have "drop (length w) (x # xs) = drop (length w - 1) xs"
      using w(2) by (cases w) auto
    ultimately have "c \<in> set (drop (length w - 1) xs)"
      using 2(3) by (metis UnE set_append)
    with 2(1) [OF Some 2(2)] Some show ?thesis
      by simp
  qed (use 2 in simp)
qed simp

lemma trim_keeps: "printable c \<Longrightarrow> c \<in> set s \<Longrightarrow> c \<in> set (trim s)"
proof -
  assume c: "printable c" "c \<in> set s"
  then have "c \<in> set (trim_start s)"
    unfolding trim_start_def using ws_not_printable by (intro strip_any_keeps) blast+
  with c(1) show ?thesis
    unfolding trim_def trim_end_def using ws_not_printable
    by (simp, intro strip_any_keeps) auto
qed

lemma digit_printable: "is_ascii_digit c \<Longrightarrow> printable c"
  by (simp add: is_ascii_digit_def printable_def)

lemma trim_show_int [simp]: "trim (show_int i) = show_int i"
proof (rule trim_all_printable)
  have "list_all printable (show_nat n)" for n
    by (simp add: list_all_iff digit_printable show_nat_digits)
  moreover have "printable CHR ''-''"
    by (simp add: printable_def)
  ultimately show "list_all printable (show_int i)"
    by (simp add: show_int_def)
qed

end
