(* ===== verification/Permissions.thy ===== *)
theory Permissions
  imports Kit_Prelude "HOL-Library.Multiset"
begin

text \<open>
  The crate \<open>permissions\<close>: the closed enum of scopes with its wire spelling, the implication
  relation between scopes, and scope sets with the checks a handler calls.  A \<open>HashSet\<close> of
  scopes is a HOL set; where the code enumerates one, the enumeration order is irrelevant because
  the result is sorted (\<open>scope_iter_any_enumeration\<close>).
\<close>

section \<open>Scopes\<close>

datatype Scope =
    StaffAccess
  | OrgOwner | OrgAdmin | OrgMember | OrgBilling | OrgAuditor
  | SecretsRead | SecretsWrite | SecretsAdmin
  | IssuesRead | IssuesWrite | IssuesAdmin
  | SitesRead | SitesWrite | SitesAdmin
  | AgentsRead | AgentsRun | AgentsAdmin
  | TokensManage

fun scope_as_str :: "Scope \<Rightarrow> string" where
  "scope_as_str StaffAccess = ''staff:access''"
| "scope_as_str OrgOwner = ''org:owner''"
| "scope_as_str OrgAdmin = ''org:admin''"
| "scope_as_str OrgMember = ''org:member''"
| "scope_as_str OrgBilling = ''org:billing''"
| "scope_as_str OrgAuditor = ''org:auditor''"
| "scope_as_str SecretsRead = ''secrets:read''"
| "scope_as_str SecretsWrite = ''secrets:write''"
| "scope_as_str SecretsAdmin = ''secrets:admin''"
| "scope_as_str IssuesRead = ''issues:read''"
| "scope_as_str IssuesWrite = ''issues:write''"
| "scope_as_str IssuesAdmin = ''issues:admin''"
| "scope_as_str SitesRead = ''sites:read''"
| "scope_as_str SitesWrite = ''sites:write''"
| "scope_as_str SitesAdmin = ''sites:admin''"
| "scope_as_str AgentsRead = ''agents:read''"
| "scope_as_str AgentsRun = ''agents:run''"
| "scope_as_str AgentsAdmin = ''agents:admin''"
| "scope_as_str TokensManage = ''tokens:manage''"

definition scope_parse :: "string \<Rightarrow> Scope option" where
  "scope_parse s =
     (if s = ''staff:access'' then Some StaffAccess
      else if s = ''org:owner'' then Some OrgOwner
      else if s = ''org:admin'' then Some OrgAdmin
      else if s = ''org:member'' then Some OrgMember
      else if s = ''org:billing'' then Some OrgBilling
      else if s = ''org:auditor'' then Some OrgAuditor
      else if s = ''secrets:read'' then Some SecretsRead
      else if s = ''secrets:write'' then Some SecretsWrite
      else if s = ''secrets:admin'' then Some SecretsAdmin
      else if s = ''issues:read'' then Some IssuesRead
      else if s = ''issues:write'' then Some IssuesWrite
      else if s = ''issues:admin'' then Some IssuesAdmin
      else if s = ''sites:read'' then Some SitesRead
      else if s = ''sites:write'' then Some SitesWrite
      else if s = ''sites:admin'' then Some SitesAdmin
      else if s = ''agents:read'' then Some AgentsRead
      else if s = ''agents:run'' then Some AgentsRun
      else if s = ''agents:admin'' then Some AgentsAdmin
      else if s = ''tokens:manage'' then Some TokensManage
      else None)"

definition scope_all :: "Scope list" where
  "scope_all =
     [StaffAccess, OrgOwner, OrgAdmin, OrgMember, OrgBilling, OrgAuditor,
      SecretsRead, SecretsWrite, SecretsAdmin, IssuesRead, IssuesWrite, IssuesAdmin,
      SitesRead, SitesWrite, SitesAdmin, AgentsRead, AgentsRun, AgentsAdmin, TokensManage]"

definition scope_implies :: "Scope \<Rightarrow> Scope \<Rightarrow> bool" where
  "scope_implies self other =
     (if self = other then True
      else (case self of
              SecretsAdmin \<Rightarrow> other \<in> {SecretsWrite, SecretsRead}
            | SecretsWrite \<Rightarrow> other = SecretsRead
            | IssuesAdmin \<Rightarrow> other \<in> {IssuesWrite, IssuesRead}
            | IssuesWrite \<Rightarrow> other = IssuesRead
            | SitesAdmin \<Rightarrow> other \<in> {SitesWrite, SitesRead}
            | SitesWrite \<Rightarrow> other = SitesRead
            | AgentsAdmin \<Rightarrow> other \<in> {AgentsRun, AgentsRead}
            | AgentsRun \<Rightarrow> other = AgentsRead
            | OrgOwner \<Rightarrow> other \<in> {OrgAdmin, OrgMember, OrgBilling, OrgAuditor}
            | OrgAdmin \<Rightarrow> other \<in> {OrgMember, OrgAuditor}
            | _ \<Rightarrow> False))"

text \<open>Serialisation goes through the wire spelling in both directions.\<close>

datatype scope_de_error = UnknownVariant string

definition scope_serialize :: "Scope \<Rightarrow> string" where
  "scope_serialize s = scope_as_str s"

definition scope_deserialize :: "string \<Rightarrow> (scope_de_error, Scope) result" where
  "scope_deserialize s = ok_or (UnknownVariant s) (scope_parse s)"

section \<open>Resources bound to a verified parent\<close>

record ('p, 'i) scoped_resource =
  sr_parent_id :: 'p
  sr_id :: 'i

definition scoped_resource_new :: "'p \<Rightarrow> 'i \<Rightarrow> ('p, 'i) scoped_resource" where
  "scoped_resource_new parent_id i = \<lparr>sr_parent_id = parent_id, sr_id = i\<rparr>"

section \<open>Scope sets\<close>

record ScopeSet =
  inner :: "Scope set"

record AccessDenied =
  missing :: Scope

definition ss_empty :: ScopeSet where
  "ss_empty = \<lparr>inner = {}\<rparr>"

definition ss_full_session :: ScopeSet where
  "ss_full_session = \<lparr>inner = set (filter (\<lambda>s. s \<noteq> StaffAccess) scope_all)\<rparr>"

definition ss_from_strings :: "string list \<Rightarrow> ScopeSet" where
  "ss_from_strings scopes = \<lparr>inner = set (List.map_filter scope_parse scopes)\<rparr>"

definition ss_from_strings_with_wildcard :: "string list \<Rightarrow> ScopeSet" where
  "ss_from_strings_with_wildcard scopes =
     (let wildcard = list_ex (\<lambda>s. s = ''*'') scopes;
          parsed = set (List.map_filter (\<lambda>s. if s = ''*'' then None else scope_parse s) scopes)
      in \<lparr>inner = (if wildcard then parsed \<union> inner ss_full_session else parsed)\<rparr>)"

definition ss_has :: "ScopeSet \<Rightarrow> Scope \<Rightarrow> bool" where
  "ss_has self scope \<longleftrightarrow> (\<exists>granted\<in>inner self. scope_implies granted scope)"

definition ss_require :: "ScopeSet \<Rightarrow> Scope \<Rightarrow> (AccessDenied, unit) result" where
  "ss_require self scope = (if ss_has self scope then Inr () else Inl \<lparr>missing = scope\<rparr>)"

text \<open>The new set and whether the scope was newly inserted.\<close>

definition ss_insert :: "ScopeSet \<Rightarrow> Scope \<Rightarrow> ScopeSet \<times> bool" where
  "ss_insert self scope = (\<lparr>inner = insert scope (inner self)\<rparr>, scope \<notin> inner self)"

definition ss_intersection :: "ScopeSet \<Rightarrow> ScopeSet \<Rightarrow> ScopeSet" where
  "ss_intersection self other =
     \<lparr>inner = set (filter (\<lambda>scope. ss_has self scope \<and> ss_has other scope) scope_all)\<rparr>"

definition ss_enumerate :: "ScopeSet \<Rightarrow> Scope list" where
  "ss_enumerate self = filter (\<lambda>s. s \<in> inner self) scope_all"

definition ss_iter :: "ScopeSet \<Rightarrow> Scope list" where
  "ss_iter self = sort_key scope_as_str (ss_enumerate self)"

definition ss_to_oidc_scope_string :: "ScopeSet \<Rightarrow> string" where
  "ss_to_oidc_scope_string self = join_with '' '' (sort (map scope_as_str (ss_enumerate self)))"

section \<open>The wire spelling\<close>

interpretation scope_wire: wire_enum scope_as_str scope_parse scope_all
proof
  show "scope_parse (scope_as_str x) = Some x" for x
    by (cases x) (simp_all add: scope_parse_def)
  show "s = scope_as_str x" if "scope_parse s = Some x" for s x
    using that by (simp add: scope_parse_def split: if_splits)
  show "x \<in> set scope_all" for x
    by (cases x) (simp_all add: scope_all_def)
qed

lemma scope_all_distinct: "distinct scope_all"
  by (simp add: scope_all_def)

lemma scope_as_str_no_blank: "CHR '' '' \<notin> set (scope_as_str s)"
  by (cases s) simp_all

lemma scope_as_str_not_star: "scope_as_str s \<noteq> ''*''"
  by (cases s) simp_all

lemma set_ss_enumerate [simp]: "set (ss_enumerate S) = inner S"
  using scope_wire.all_complete by (auto simp: ss_enumerate_def)

lemma distinct_ss_enumerate [simp]: "distinct (ss_enumerate S)"
  by (simp add: ss_enumerate_def scope_all_distinct)

section \<open>Implication-aware grants\<close>

text \<open>
  What a checker needs of an implication relation so that sets of grants behave as the sets of
  everything they imply: it is a preorder, and the listed universe is complete.
\<close>

locale grant_order =
  fixes implies :: "'a \<Rightarrow> 'a \<Rightarrow> bool"
    and all_grants :: "'a list"
  assumes implies_refl: "implies x x"
    and implies_trans: "implies x y \<Longrightarrow> implies y z \<Longrightarrow> implies x z"
    and grants_complete: "x \<in> set all_grants"
begin

lemma granted_self: "x \<in> A \<Longrightarrow> \<exists>g\<in>A. implies g x"
  using implies_refl by blast

lemma granted_mono: "A \<subseteq> B \<Longrightarrow> \<exists>g\<in>A. implies g x \<Longrightarrow> \<exists>g\<in>B. implies g x"
  by blast

lemma granted_down: "\<exists>g\<in>A. implies g x \<Longrightarrow> implies x y \<Longrightarrow> \<exists>g\<in>A. implies g y"
  using implies_trans by blast

lemma granted_intersection:
  "(\<exists>g\<in>set (filter (\<lambda>u. (\<exists>a\<in>A. implies a u) \<and> (\<exists>b\<in>B. implies b u)) all_grants). implies g x)
     \<longleftrightarrow> (\<exists>a\<in>A. implies a x) \<and> (\<exists>b\<in>B. implies b x)"
  using grants_complete implies_refl implies_trans by (auto, blast+)

end

lemma scope_implies_antisym: "scope_implies x y \<Longrightarrow> scope_implies y x \<Longrightarrow> x = y"
  by (cases x) (auto simp: scope_implies_def split: if_splits)

lemma scope_implies_trans: "scope_implies x y \<Longrightarrow> scope_implies y z \<Longrightarrow> scope_implies x z"
  by (cases x; cases y) (auto simp: scope_implies_def split: if_splits)

interpretation scope_grants: grant_order scope_implies scope_all
proof
  show "scope_implies x x" for x
    by (simp add: scope_implies_def)
  show "scope_implies x z" if "scope_implies x y" "scope_implies y z" for x y z
    using that by (rule scope_implies_trans)
  show "x \<in> set scope_all" for x
    by (rule scope_wire.all_complete)
qed

lemma staff_only_by_staff: "scope_implies g StaffAccess \<longleftrightarrow> g = StaffAccess"
  by (cases g) (simp_all add: scope_implies_def)

section \<open>Correctness of the scope checks\<close>

lemma ss_has_mono: "inner A \<subseteq> inner B \<Longrightarrow> ss_has A s \<Longrightarrow> ss_has B s"
  unfolding ss_has_def by (rule scope_grants.granted_mono)

lemma ss_has_full_session: "ss_has ss_full_session s \<longleftrightarrow> s \<noteq> StaffAccess"
proof
  show "s \<noteq> StaffAccess" if "ss_has ss_full_session s"
    using that by (auto simp: ss_has_def ss_full_session_def staff_only_by_staff)
  show "ss_has ss_full_session s" if "s \<noteq> StaffAccess"
    using that scope_wire.all_complete scope_grants.implies_refl
    by (auto simp: ss_has_def ss_full_session_def)
qed

lemma inner_from_strings: "inner (ss_from_strings ss) = {x. scope_as_str x \<in> set ss}"
  by (simp add: ss_from_strings_def scope_wire.set_filter_parse)

lemma map_filter_skip_star:
  "List.map_filter (\<lambda>s. if s = ''*'' then None else scope_parse s) ss = List.map_filter scope_parse ss"
  by (induction ss) (simp_all add: scope_parse_def)

lemma inner_from_strings_with_wildcard:
  "inner (ss_from_strings_with_wildcard ss) =
     {x. scope_as_str x \<in> set ss} \<union> (if ''*'' \<in> set ss then inner ss_full_session else {})"
proof -
  have "list_ex (\<lambda>s. s = ''*'') ss \<longleftrightarrow> ''*'' \<in> set ss"
    by (induction ss) auto
  then show ?thesis
    by (simp add: ss_from_strings_with_wildcard_def Let_def map_filter_skip_star
        scope_wire.set_filter_parse)
qed

text \<open>
  C5: the intersection of two scope sets grants a scope exactly when both sets grant it.  Both the
  membership and the implications count: a token with an admin scope intersected with a role that
  has the write scope grants write and read, and not admin.
\<close>

theorem intersection_grants_exactly_the_common:
  "ss_has (ss_intersection a b) s \<longleftrightarrow> ss_has a s \<and> ss_has b s"
  unfolding ss_has_def ss_intersection_def ScopeSet.simps
  by (rule scope_grants.granted_intersection)

text \<open>
  Staff access cannot be obtained by implication or by the wildcard.  A token grants it exactly
  when its list of strings holds the literal \<open>staff:access\<close>; every other scope is granted exactly
  when the list holds the wildcard or the spelling of a scope that implies it.
\<close>

theorem token_grants:
  "ss_has (ss_from_strings_with_wildcard ss) s \<longleftrightarrow>
     (s \<noteq> StaffAccess \<and> ''*'' \<in> set ss) \<or> (\<exists>g. scope_as_str g \<in> set ss \<and> scope_implies g s)"
proof (cases "''*'' \<in> set ss")
  case True
  then have "ss_has (ss_from_strings_with_wildcard ss) s \<longleftrightarrow>
      ss_has ss_full_session s \<or> (\<exists>g. scope_as_str g \<in> set ss \<and> scope_implies g s)"
    by (auto simp: ss_has_def inner_from_strings_with_wildcard)
  with True show ?thesis
    by (simp add: ss_has_full_session)
next
  case False
  then show ?thesis
    by (auto simp: ss_has_def inner_from_strings_with_wildcard)
qed

corollary staff_needs_literal:
  "ss_has (ss_from_strings_with_wildcard ss) StaffAccess \<longleftrightarrow> ''staff:access'' \<in> set ss"
proof -
  have "ss_has S StaffAccess \<longleftrightarrow> StaffAccess \<in> inner S" for S
    by (auto simp: ss_has_def staff_only_by_staff)
  then show ?thesis
    by (simp add: inner_from_strings_with_wildcard ss_full_session_def)
qed

lemma split_oidc_scope_string:
  assumes "inner S \<noteq> {}"
  shows "split_on CHR '' '' (ss_to_oidc_scope_string S) = sort (map scope_as_str (ss_enumerate S))"
  unfolding ss_to_oidc_scope_string_def
proof (rule split_join)
  show "sort (map scope_as_str (ss_enumerate S)) \<noteq> []"
    using assms set_ss_enumerate [of S] by (metis list.map_disc_iff set_empty set_sort)
  show "\<forall>p\<in>set (sort (map scope_as_str (ss_enumerate S))). CHR '' '' \<notin> set p"
    by (auto simp: scope_as_str_no_blank)
qed

text \<open>
  The OIDC scope claim round trips.  Splitting the rendered claim at blanks and parsing the
  pieces gives back the same scope set, the empty set included, and the rendered pieces are sorted
  and free of duplicates.
\<close>

theorem oidc_scope_string_roundtrip:
  "ss_from_strings (split_on CHR '' '' (ss_to_oidc_scope_string S)) = S
     \<and> sorted_wrt (<) (split_on CHR '' '' (ss_to_oidc_scope_string S))"
proof (cases "inner S = {}")
  case True
  then have "ss_enumerate S = []"
    using set_ss_enumerate [of S] by (metis set_empty)
  then have "split_on CHR '' '' (ss_to_oidc_scope_string S) = [[]]"
    by (simp add: ss_to_oidc_scope_string_def)
  moreover have "scope_as_str x \<noteq> []" for x
    by (cases x) simp_all
  ultimately show ?thesis
    using True by (intro conjI ScopeSet.equality) (simp_all add: inner_from_strings)
next
  case False
  let ?parts = "sort (map scope_as_str (ss_enumerate S))"
  from False have split: "split_on CHR '' '' (ss_to_oidc_scope_string S) = ?parts"
    by (rule split_oidc_scope_string)
  have "inner (ss_from_strings ?parts) = inner S"
    by (auto simp: inner_from_strings scope_wire.as_str_inj)
  moreover have "distinct ?parts"
    by (simp add: distinct_map inj_on_def scope_wire.as_str_inj)
  ultimately show ?thesis
    unfolding split by (intro conjI ScopeSet.equality) (simp_all add: strict_sorted_iff)
qed

lemma scope_iter_any_enumeration:
  assumes "distinct xs" and "set xs = inner S"
  shows "sort_key scope_as_str xs = ss_iter S"
proof -
  have inj: "inj_on scope_as_str A" for A
    by (simp add: inj_on_def scope_wire.as_str_inj)
  have "mset xs = mset (ss_enumerate S)"
    using assms by (subst set_eq_iff_mset_eq_distinct [symmetric]) simp_all
  then show ?thesis
    unfolding ss_iter_def by (intro sort_key_inj_key_eq inj) simp_all
qed

end
