(* ===== verification/Api_Version.thy ===== *)
theory Api_Version
  imports Kit_Prelude
begin

text \<open>
  The file \<open>version.rs\<close> of the crate \<open>api-version\<close>: a contract version is a calendar date kept
  at the widths of the source (\<open>u16\<close>, \<open>u8\<close>, \<open>u8\<close>), ordered field by field, parsed strictly and
  rendered zero-padded.
\<close>

section \<open>The contract version\<close>

datatype ApiVersion = ApiVersion (year: "16 word") (month: "8 word") (day: "8 word")

definition is_leap :: "16 word \<Rightarrow> bool" where
  "is_leap y \<longleftrightarrow> y mod 4 = 0 \<and> (y mod 100 \<noteq> 0 \<or> y mod 400 = 0)"

definition days_in_month :: "16 word \<Rightarrow> 8 word \<Rightarrow> 8 word" where
  "days_in_month y m =
     (if m = 1 \<or> m = 3 \<or> m = 5 \<or> m = 7 \<or> m = 8 \<or> m = 10 \<or> m = 12 then 31
      else if m = 4 \<or> m = 6 \<or> m = 9 \<or> m = 11 then 30
      else if m = 2 \<and> is_leap y then 29
      else if m = 2 then 28
      else 0)"

definition from_ymd :: "16 word \<Rightarrow> 8 word \<Rightarrow> 8 word \<Rightarrow> ApiVersion option" where
  "from_ymd y m d =
     (if m = 0 \<or> m > 12 \<or> d = 0 then None
      else if d > days_in_month y m then None
      else Some (ApiVersion y m d))"

datatype ParseApiVersionError = Malformed | NotACalendarDate

definition parse_error_display :: "ParseApiVersionError \<Rightarrow> string" where
  "parse_error_display e =
     (case e of
        Malformed \<Rightarrow> ''expected a version of the form YYYY-MM-DD''
      | NotACalendarDate \<Rightarrow> ''not a real calendar date'')"

fun parse_digits_from :: "16 word \<Rightarrow> string \<Rightarrow> 16 word option" where
  "parse_digits_from v [] = Some v"
| "parse_digits_from v (b # bs) =
     (if \<not> is_ascii_digit b then None
      else Option.bind (checked_mul v 10)
             (\<lambda>m. Option.bind (checked_add m (of_nat (byte b - 48)))
               (\<lambda>v'. parse_digits_from v' bs)))"

definition parse_digits :: "string \<Rightarrow> 16 word option" where
  "parse_digits bs = parse_digits_from 0 bs"

definition version_from_str :: "string \<Rightarrow> (ParseApiVersionError, ApiVersion) result" where
  "version_from_str raw =
     (if length raw \<noteq> 10 \<or> raw ! 4 \<noteq> CHR ''-'' \<or> raw ! 7 \<noteq> CHR ''-'' then Inl Malformed
      else try_bind (ok_or Malformed (parse_digits (take 4 raw))) (\<lambda>y.
           try_bind (ok_or Malformed (parse_digits (take 2 (drop 5 raw)))) (\<lambda>m.
           try_bind (ok_or Malformed (parse_digits (take 2 (drop 8 raw)))) (\<lambda>d.
           try_bind (ok_or NotACalendarDate (try_narrow m)) (\<lambda>m'.
           try_bind (ok_or NotACalendarDate (try_narrow d)) (\<lambda>d'.
           ok_or NotACalendarDate (from_ymd y m' d')))))))"

definition version_to_string :: "ApiVersion \<Rightarrow> string" where
  "version_to_string v =
     show_padded 4 (unat (year v)) @ ''-'' @ show_padded 2 (unat (month v)) @ ''-''
       @ show_padded 2 (unat (day v))"

definition version_serialize :: "ApiVersion \<Rightarrow> string" where
  "version_serialize v = version_to_string v"

definition version_deserialize :: "string \<Rightarrow> (string, ApiVersion) result" where
  "version_deserialize raw = map_err parse_error_display (version_from_str raw)"

text \<open>The derived order: year, then month, then day.\<close>

instantiation ApiVersion :: linorder
begin

definition less_eq_ApiVersion :: "ApiVersion \<Rightarrow> ApiVersion \<Rightarrow> bool" where
  "v \<le> w \<longleftrightarrow>
     year v < year w \<or> year v = year w \<and>
       (month v < month w \<or> month v = month w \<and> day v \<le> day w)"

definition less_ApiVersion :: "ApiVersion \<Rightarrow> ApiVersion \<Rightarrow> bool" where
  "v < w \<longleftrightarrow>
     year v < year w \<or> year v = year w \<and>
       (month v < month w \<or> month v = month w \<and> day v < day w)"

instance
proof
  fix x y z :: ApiVersion
  show "(x < y) = (x \<le> y \<and> \<not> y \<le> x)"
    by (auto simp: less_eq_ApiVersion_def less_ApiVersion_def)
  show "x \<le> x"
    by (simp add: less_eq_ApiVersion_def)
  show "x \<le> y \<Longrightarrow> y \<le> z \<Longrightarrow> x \<le> z"
    by (auto simp: less_eq_ApiVersion_def)
  show "x \<le> y \<Longrightarrow> y \<le> x \<Longrightarrow> x = y"
    by (cases x; cases y) (auto simp: less_eq_ApiVersion_def)
  show "x \<le> y \<or> y \<le> x"
    by (auto simp: less_eq_ApiVersion_def)
qed

end

section \<open>Well-formed versions\<close>

definition valid_version :: "ApiVersion \<Rightarrow> bool" where
  "valid_version v \<longleftrightarrow>
     1 \<le> month v \<and> month v \<le> 12 \<and> 1 \<le> day v \<and> day v \<le> days_in_month (year v) (month v)"

lemma word_pos_iff: "(1 :: 'a::len word) \<le> x \<longleftrightarrow> x \<noteq> 0"
  by (auto simp: word_le_nat_alt Suc_le_eq unat_gt_0)

lemma from_ymd_Some_iff: "from_ymd y m d = Some v \<longleftrightarrow> v = ApiVersion y m d \<and> valid_version v"
  by (auto simp: from_ymd_def valid_version_def word_pos_iff not_less)

lemma days_in_month_le: "days_in_month y m \<le> 31"
  by (simp add: days_in_month_def)

lemma valid_version_bounds:
  "valid_version v \<Longrightarrow> unat (month v) < 10 ^ 2 \<and> unat (day v) < 10 ^ 2"
  using days_in_month_le [of "year v" "month v"]
  by (auto simp: valid_version_def word_le_nat_alt)

section \<open>Digits\<close>

lemma unat_digit: "is_ascii_digit b \<Longrightarrow> unat (of_nat (byte b - 48) :: 16 word) = digit_val b"
  using digit_val_less [of b] by (simp add: digit_val_def unat_of_nat)

lemma parse_digits_from_Some:
  "parse_digits_from v s = Some w \<Longrightarrow>
     list_all is_ascii_digit s \<and> unat w = foldl (\<lambda>a c. 10 * a + digit_val c) (unat v) s"
proof (induction s arbitrary: v)
  case (Cons b bs)
  then obtain m v' where b: "is_ascii_digit b" and m: "checked_mul v 10 = Some m"
    and v': "checked_add m (of_nat (byte b - 48)) = Some v'"
    and rec: "parse_digits_from v' bs = Some w"
    by (auto simp: bind_eq_Some_conv split: if_splits)
  have "unat v' = 10 * unat v + digit_val b"
    using unat_checked_mul [OF m] unat_checked_add [OF v'] unat_digit [OF b] by simp
  with Cons.IH [OF rec] b show ?case
    by simp
qed simp

lemma foldl_digits_ge: "a \<le> foldl (\<lambda>a c. 10 * a + digit_val c) a s"
proof (induction s arbitrary: a)
  case (Cons c s)
  have "a \<le> 10 * a + digit_val c"
    by simp
  also have "\<dots> \<le> foldl (\<lambda>a c. 10 * a + digit_val c) (10 * a + digit_val c) s"
    by (rule Cons.IH)
  finally show ?case by simp
qed simp

lemma parse_digits_from_total:
  "list_all is_ascii_digit s \<Longrightarrow> foldl (\<lambda>a c. 10 * a + digit_val c) (unat v) s < 2 ^ 16 \<Longrightarrow>
     \<exists>w. parse_digits_from v s = Some w"
proof (induction s arbitrary: v)
  case (Cons b bs)
  let ?f = "\<lambda>a c. 10 * a + digit_val c"
  have b: "is_ascii_digit b"
    using Cons.prems by simp
  have "?f (unat v) b \<le> foldl ?f (?f (unat v) b) bs"
    by (rule foldl_digits_ge)
  with Cons.prems(2) have small: "10 * unat v + digit_val b < 2 ^ 16"
    by simp
  then obtain m where m: "checked_mul v 10 = Some m"
    by (simp add: checked_mul_def)
  then obtain v' where v': "checked_add m (of_nat (byte b - 48)) = Some v'"
    using small unat_digit [OF b] unat_checked_mul [OF m] by (simp add: checked_add_def)
  have "unat v' = ?f (unat v) b"
    using unat_checked_mul [OF m] unat_checked_add [OF v'] unat_digit [OF b] by simp
  with Cons.IH [of v'] Cons.prems m v' b show ?case
    by simp
qed simp

lemma parse_digits_Some_iff:
  assumes "dec_val s < 2 ^ 16"
  shows "parse_digits s = Some w \<longleftrightarrow> list_all is_ascii_digit s \<and> unat w = dec_val s"
proof
  show "list_all is_ascii_digit s \<and> unat w = dec_val s" if "parse_digits s = Some w"
    using that parse_digits_from_Some [of 0 s w] by (simp add: parse_digits_def dec_val_def)
  show "parse_digits s = Some w" if r: "list_all is_ascii_digit s \<and> unat w = dec_val s"
  proof -
    from r assms obtain w' where w': "parse_digits s = Some w'"
      using parse_digits_from_total [of s 0] by (auto simp: parse_digits_def dec_val_def)
    then have "unat w' = dec_val s"
      using parse_digits_from_Some [of 0 s w'] by (simp add: parse_digits_def dec_val_def)
    with r have "w' = w"
      by (simp add: word_unat_eq_iff)
    with w' show ?thesis by simp
  qed
qed

lemma parse_digits_digits: "parse_digits s = Some w \<Longrightarrow> list_all is_ascii_digit s \<and> unat w = dec_val s"
  using parse_digits_from_Some [of 0 s w] by (simp add: parse_digits_def dec_val_def)

lemma parse_digits_padded:
  assumes "n < 10 ^ w" and "0 < w" and "n < 2 ^ 16"
  shows "parse_digits (show_padded w n) = Some (of_nat n)"
  using show_padded_props [OF assms(1,2)] assms(3)
  by (subst parse_digits_Some_iff) (simp_all add: unat_of_nat)

lemma padded_parse_digits:
  "parse_digits s = Some w \<Longrightarrow> s \<noteq> [] \<Longrightarrow> show_padded (length s) (unat w) = s"
  using parse_digits_digits [of s w] show_padded_dec_val [of s] by simp

lemma try_narrow_Some_iff: "try_narrow x = Some y \<longleftrightarrow> unat y = unat x"
proof
  show "unat y = unat x" if "try_narrow x = Some y"
    using that
    by (auto simp: try_narrow_def unsigned_ucast_eq take_bit_nat_eq_self split: if_splits)
  show "try_narrow x = Some y" if "unat y = unat x"
    using unsigned_less [of y] unfolding try_narrow_def that [symmetric] by simp
qed

section \<open>Parsing and rendering are inverse\<close>

lemma version_length: "version_from_str raw = Inr v \<Longrightarrow> length raw = 10"
  by (auto simp: version_from_str_def Let_def split: if_splits)

lemma version_from_str_sound:
  assumes "version_from_str raw = Inr v"
  shows "raw = version_to_string v \<and> valid_version v \<and> unat (year v) < 10 ^ 4"
proof -
  from assms obtain y m d m' d' where len: "length raw = 10"
    and dash: "raw ! 4 = CHR ''-''" "raw ! 7 = CHR ''-''"
    and y: "parse_digits (take 4 raw) = Some y"
    and m: "parse_digits (take 2 (drop 5 raw)) = Some m"
    and d: "parse_digits (take 2 (drop 8 raw)) = Some d"
    and narrow: "try_narrow m = Some m'" "try_narrow d = Some d'"
    and v: "from_ymd y m' d' = Some v"
    by (auto simp: version_from_str_def try_bind_Inr_iff split: if_splits)
  have "show_padded 4 (unat y) = take 4 raw" "show_padded 2 (unat m') = take 2 (drop 5 raw)"
    "show_padded 2 (unat d') = take 2 (drop 8 raw)"
    using padded_parse_digits [OF y] padded_parse_digits [OF m] padded_parse_digits [OF d]
      len narrow by (cases "raw = []"; auto simp: try_narrow_Some_iff)+
  moreover have "raw = take 4 raw @ [raw ! 4] @ take 2 (drop 5 raw) @ [raw ! 7] @ take 2 (drop 8 raw)"
    using len by (auto simp: list_eq_iff_nth_eq nth_append less_Suc_eq numeral_eq_Suc)
  moreover have "unat y < 10 ^ 4"
    using parse_digits_digits [OF y] dec_val_bound [of "take 4 raw"] len by simp
  ultimately show ?thesis
    using v dash by (auto simp: from_ymd_Some_iff version_to_string_def)
qed

lemma version_from_str_complete:
  assumes "valid_version v" and "unat (year v) < 10 ^ 4"
  shows "version_from_str (version_to_string v) = Inr v"
proof -
  have small: "unat (month v) < 10 ^ 2" "unat (day v) < 10 ^ 2"
    using valid_version_bounds [OF assms(1)] by auto
  let ?y = "show_padded 4 (unat (year v))" and ?m = "show_padded 2 (unat (month v))"
    and ?d = "show_padded 2 (unat (day v))"
  have len: "length ?y = 4" "length ?m = 2" "length ?d = 2"
    using show_padded_props assms(2) small by simp_all
  have digits: "parse_digits ?y = Some (of_nat (unat (year v)))"
    "parse_digits ?m = Some (of_nat (unat (month v)))"
    "parse_digits ?d = Some (of_nat (unat (day v)))"
    using parse_digits_padded assms(2) small by simp_all
  have narrow: "try_narrow (of_nat (unat x) :: 16 word) = Some x" for x :: "8 word"
    using unsigned_less [of x, where ?'a = nat]
    by (simp add: try_narrow_Some_iff unsigned_ucast_eq take_bit_nat_eq_self)
  have "from_ymd (year v) (month v) (day v) = Some v"
    using assms(1) by (simp add: from_ymd_Some_iff)
  with len digits narrow show ?thesis
    by (simp add: version_from_str_def version_to_string_def nth_append)
qed

text \<open>
  C28: the parser and the renderer of a contract version are inverse to each other.  A string is
  accepted exactly when it is the rendering of a real calendar date whose year has four digits, and
  then it parses to that date: one contract has one spelling.
\<close>

theorem version_roundtrip:
  "version_from_str raw = Inr v \<longleftrightarrow>
     raw = version_to_string v \<and> valid_version v \<and> unat (year v) < 10 ^ 4"
  using version_from_str_sound version_from_str_complete by blast

section \<open>The order is chronological\<close>

definition month_length :: "nat \<Rightarrow> nat \<Rightarrow> nat" where
  "month_length y m = unat (days_in_month (of_nat y) (of_nat m))"

definition year_length :: "nat \<Rightarrow> nat" where
  "year_length y = (\<Sum>m = 1..<13. month_length y m)"

text \<open>The number of days from the start of year zero to the end of the date.\<close>

definition day_number :: "ApiVersion \<Rightarrow> nat" where
  "day_number v =
     (\<Sum>y < unat (year v). year_length y)
       + (\<Sum>m = 1..<unat (month v). month_length (unat (year v)) m) + unat (day v)"

lemma year_length_eq: "year_length y = (if is_leap (of_nat y) then 366 else 365)"
proof -
  have "{1..<13} = {1, 2, 3, 4, 5, 6, 7, 8, 9, 10, 11, 12 :: nat}"
    by code_simp
  then show ?thesis
    by (simp add: year_length_def month_length_def days_in_month_def)
qed

lemma month_length_version:
  "month_length (unat (year v)) (unat (month v)) = unat (days_in_month (year v) (month v))"
  by (simp add: month_length_def)

lemma day_bounds:
  assumes "valid_version v"
  shows "0 < unat (day v)" and "unat (day v) \<le> month_length (unat (year v)) (unat (month v))"
    and "1 \<le> unat (month v)" and "unat (month v) < 13"
  using assms
  by (auto simp: valid_version_def word_le_nat_alt month_length_version)

lemma day_of_year_le:
  assumes "valid_version v"
  shows "(\<Sum>m = 1..<unat (month v). month_length (unat (year v)) m) + unat (day v)
           \<le> (\<Sum>m = 1..<Suc (unat (month v)). month_length (unat (year v)) m)"
  using day_bounds [OF assms] by simp

lemma months_mono: "a \<le> b \<Longrightarrow> (\<Sum>m = 1..<a. month_length y m) \<le> (\<Sum>m = 1..<b. month_length y m)"
  by (rule sum_mono2) auto

lemma day_number_less:
  assumes v: "valid_version v" and w: "valid_version w" and "v < w"
  shows "day_number v < day_number w"
proof -
  let ?yv = "unat (year v)" and ?yw = "unat (year w)"
  consider (year) "?yv < ?yw" | (month) "year v = year w" "unat (month v) < unat (month w)"
    | (day) "year v = year w" "month v = month w" "unat (day v) < unat (day w)"
    using \<open>v < w\<close> by (auto simp: less_ApiVersion_def word_less_nat_alt)
  then show ?thesis
  proof cases
    case year
    have "(\<Sum>m = 1..<unat (month v). month_length ?yv m) + unat (day v) \<le> year_length ?yv"
      unfolding year_length_def
      using day_of_year_le [OF v] months_mono [of "Suc (unat (month v))" 13 ?yv] day_bounds [OF v]
      by linarith
    then have "day_number v \<le> (\<Sum>y < Suc ?yv. year_length y)"
      by (simp add: day_number_def)
    also have "\<dots> \<le> (\<Sum>y < ?yw. year_length y)"
      using year by (intro sum_mono2) auto
    also have "\<dots> < day_number w"
      using day_bounds [OF w] by (simp add: day_number_def)
    finally show ?thesis .
  next
    case month
    then show ?thesis
      using day_of_year_le [OF v] months_mono [of "Suc (unat (month v))" "unat (month w)" ?yv]
        day_bounds(1) [OF w]
      by (simp add: day_number_def)
  next
    case day
    then show ?thesis by (simp add: day_number_def)
  qed
qed

text \<open>
  The derived field-by-field order of contract versions is the chronological order of the
  calendar: of two real dates the smaller one has the smaller day number.
\<close>

theorem version_order_chronological:
  assumes "valid_version v" and "valid_version w"
  shows "v < w \<longleftrightarrow> day_number v < day_number w"
proof
  show "v < w" if "day_number v < day_number w"
  proof (rule ccontr)
    assume "\<not> v < w"
    then have "w < v \<or> w = v" by auto
    with that day_number_less [OF assms(2,1)] show False by auto
  qed
qed (rule day_number_less [OF assms])

theorem version_order_chronological_witness:
  "valid_version (ApiVersion 2026 8 3) \<and> valid_version (ApiVersion 2026 9 1)
     \<and> (ApiVersion 2026 8 3 < ApiVersion 2026 9 1
          \<longleftrightarrow> day_number (ApiVersion 2026 8 3) < day_number (ApiVersion 2026 9 1))"
proof -
  have v: "valid_version (ApiVersion 2026 8 3)" and w: "valid_version (ApiVersion 2026 9 1)"
    by (simp_all add: valid_version_def days_in_month_def)
  show ?thesis
    using v w version_order_chronological [OF v w] by blast
qed

end
