(* ===== verification/Api_Negotiate.thy ===== *)
theory Api_Negotiate
  imports Api_Version "HOL-Library.Multiset"
begin

text \<open>
  The files \<open>transform.rs\<close>, \<open>policy.rs\<close> and \<open>layer.rs\<close> of the crate \<open>api-version\<close>: the registry
  of contract changes, the decision which contract a request speaks, and the middleware that
  rewrites bodies between contracts.

  Headers, bodies and JSON documents belong to the crates \<open>http\<close>, \<open>axum\<close> and \<open>serde_json\<close>; the
  calls the code makes to them are the fields of the record \<open>http_env\<close>, an argument of the
  definitions that use them.
\<close>

section \<open>Transforms\<close>

record 'v transform =
  t_version :: ApiVersion
  t_applies_to :: "string \<Rightarrow> string \<Rightarrow> bool"
  t_downgrade_response :: "'v \<Rightarrow> 'v"
  t_upgrade_request :: "'v \<Rightarrow> 'v"

record 'v registry =
  transforms :: "'v transform list"

definition registry_new :: "'v registry" where
  "registry_new = \<lparr>transforms = []\<rparr>"

definition registry_with :: "'v registry \<Rightarrow> 'v transform \<Rightarrow> 'v registry" where
  "registry_with self t = \<lparr>transforms = sort_key t_version (transforms self @ [t])\<rparr>"

definition registry_len :: "'v registry \<Rightarrow> nat" where
  "registry_len self = length (transforms self)"

definition registry_is_empty :: "'v registry \<Rightarrow> bool" where
  "registry_is_empty self \<longleftrightarrow> transforms self = []"

definition registry_oldest_change :: "'v registry \<Rightarrow> ApiVersion option" where
  "registry_oldest_change self =
     (case transforms self of [] \<Rightarrow> None | t # _ \<Rightarrow> Some (t_version t))"

text \<open>The test both directions of the chain make of one transform.\<close>

definition t_relevant :: "ApiVersion \<Rightarrow> string \<Rightarrow> string \<Rightarrow> 'v transform \<Rightarrow> bool" where
  "t_relevant pinned route method t \<longleftrightarrow> t_version t > pinned \<and> t_applies_to t route method"

definition downgrade_step ::
  "ApiVersion \<Rightarrow> string \<Rightarrow> string \<Rightarrow> 'v \<Rightarrow> 'v transform \<Rightarrow> 'v" where
  "downgrade_step pinned route method body t =
     (if t_relevant pinned route method t then t_downgrade_response t body else body)"

definition registry_downgrade_response ::
  "'v registry \<Rightarrow> ApiVersion \<Rightarrow> string \<Rightarrow> string \<Rightarrow> 'v \<Rightarrow> 'v" where
  "registry_downgrade_response self pinned route method body =
     foldl (downgrade_step pinned route method) body (rev (transforms self))"

definition upgrade_step ::
  "ApiVersion \<Rightarrow> string \<Rightarrow> string \<Rightarrow> 'v \<Rightarrow> 'v transform \<Rightarrow> 'v" where
  "upgrade_step pinned route method body t =
     (if t_relevant pinned route method t then t_upgrade_request t body else body)"

definition registry_upgrade_request ::
  "'v registry \<Rightarrow> ApiVersion \<Rightarrow> string \<Rightarrow> string \<Rightarrow> 'v \<Rightarrow> 'v" where
  "registry_upgrade_request self pinned route method body =
     foldl (upgrade_step pinned route method) body (transforms self)"

definition registry_touches :: "'v registry \<Rightarrow> ApiVersion \<Rightarrow> string \<Rightarrow> string \<Rightarrow> bool" where
  "registry_touches self pinned route method \<longleftrightarrow>
     list_ex (t_relevant pinned route method) (transforms self)"

section \<open>Deciding the contract of a request\<close>

record 'v ApiVersionContext =
  ctx_header :: string
  ctx_current :: ApiVersion
  ctx_oldest_supported :: ApiVersion
  ctx_default :: ApiVersion
  ctx_max_body_bytes :: nat
  ctx_registry :: "'v registry"

definition DEFAULT_MAX_BODY_BYTES :: nat where
  "DEFAULT_MAX_BODY_BYTES = 4 * 1024 * 1024"

datatype InvalidHeaderName = NotAHeaderName | SunsetAfterCurrent

definition invalid_header_display :: "InvalidHeaderName \<Rightarrow> string" where
  "invalid_header_display e =
     (case e of
        NotAHeaderName \<Rightarrow> ''not a valid HTTP header name''
      | SunsetAfterCurrent \<Rightarrow> ''oldest supported version is newer than the current one'')"

text \<open>\<open>header_name\<close> is \<open>HeaderName::from_bytes\<close>.\<close>

definition context_new ::
  "(string \<Rightarrow> string option) \<Rightarrow> string \<Rightarrow> ApiVersion \<Rightarrow> ApiVersion
     \<Rightarrow> (InvalidHeaderName, 'v ApiVersionContext) result" where
  "context_new header_name header current oldest_supported =
     (if oldest_supported > current then Inl SunsetAfterCurrent
      else try_bind (ok_or NotAHeaderName (header_name header)) (\<lambda>h.
        Inr \<lparr>ctx_header = h, ctx_current = current, ctx_oldest_supported = oldest_supported,
             ctx_default = oldest_supported, ctx_max_body_bytes = DEFAULT_MAX_BODY_BYTES,
             ctx_registry = registry_new\<rparr>))"

definition context_with_registry ::
  "'v ApiVersionContext \<Rightarrow> 'v registry \<Rightarrow> 'v ApiVersionContext" where
  "context_with_registry self r = self\<lparr>ctx_registry := r\<rparr>"

text \<open>In a debug build the assertion panics (\<open>None\<close>); in a release build the default is clamped.\<close>

definition context_with_default ::
  "bool \<Rightarrow> 'v ApiVersionContext \<Rightarrow> ApiVersion \<Rightarrow> 'v ApiVersionContext option" where
  "context_with_default debug_assertions self dflt =
     (if debug_assertions \<and> \<not> dflt \<le> ctx_current self then None
      else Some (self\<lparr>ctx_default := min dflt (ctx_current self)\<rparr>))"

definition context_with_max_body_bytes ::
  "'v ApiVersionContext \<Rightarrow> nat \<Rightarrow> 'v ApiVersionContext" where
  "context_with_max_body_bytes self n = self\<lparr>ctx_max_body_bytes := n\<rparr>"

datatype VersionRejection =
    RejMalformed string
  | FromTheFuture ApiVersion ApiVersion
  | Sunset ApiVersion ApiVersion
  | NotTransformable

text \<open>\<open>to_str\<close> is \<open>HeaderValue::to_str\<close>; the headers are the map the request carries.\<close>

definition context_resolve ::
  "('hv \<Rightarrow> string option) \<Rightarrow> 'v ApiVersionContext \<Rightarrow> (string \<rightharpoonup> 'hv) \<Rightarrow> ApiVersion option
     \<Rightarrow> (VersionRejection, ApiVersion) result" where
  "context_resolve to_str self headers pinned =
     (case headers (ctx_header self) of
        None \<Rightarrow> Inr (case pinned of None \<Rightarrow> ctx_default self | Some v \<Rightarrow> v)
      | Some hv \<Rightarrow>
          try_bind (ok_or (RejMalformed []) (to_str hv)) (\<lambda>raw.
          try_bind (map_err (\<lambda>_. RejMalformed raw) (version_from_str raw)) (\<lambda>version.
            if version > ctx_current self then Inl (FromTheFuture version (ctx_current self))
            else if version < ctx_oldest_supported self
              then Inl (Sunset version (ctx_oldest_supported self))
            else Inr version)))"

definition rejection_parts :: "VersionRejection \<Rightarrow> nat \<times> string \<times> string" where
  "rejection_parts r =
     (case r of
        RejMalformed raw \<Rightarrow>
          (400, ''invalid_api_version'',
           ''`'' @ raw @ ''` is not an API version; expected a date of the form YYYY-MM-DD'')
      | FromTheFuture requested current \<Rightarrow>
          (400, ''unknown_api_version'',
           ''API version '' @ version_to_string requested @ '' is newer than ''
             @ version_to_string current @ '', the latest served here'')
      | Sunset requested oldest \<Rightarrow>
          (410, ''sunset_api_version'',
           ''API version '' @ version_to_string requested
             @ '' is no longer served; the oldest still supported is '' @ version_to_string oldest)
      | NotTransformable \<Rightarrow>
          (500, ''api_version_not_applicable'',
           ''the response could not be rendered in the requested API version''))"

section \<open>The middleware\<close>

record ('hv, 'b) http_request =
  rq_headers :: "string \<rightharpoonup> 'hv"
  rq_pinned :: "ApiVersion option"
  rq_matched_path :: "string option"
  rq_path :: string
  rq_method :: string
  rq_version :: "ApiVersion option"
  rq_body :: 'b

record ('hv, 'b) http_response =
  rs_status :: nat
  rs_headers :: "string \<rightharpoonup> 'hv"
  rs_body :: 'b

text \<open>
  The calls to \<open>http\<close>, \<open>axum\<close> and \<open>serde_json\<close>: reading and building header values, reading a
  body up to a limit, building a body from bytes, parsing and printing JSON, and the JSON answer
  \<open>(status, Json({error, message}))\<close>.
\<close>

record ('hv, 'b, 'v) http_env =
  e_to_str :: "'hv \<Rightarrow> string option"
  e_header_value :: "string \<Rightarrow> 'hv option"
  e_header_static :: "string \<Rightarrow> 'hv"
  e_to_bytes :: "'b \<Rightarrow> nat \<Rightarrow> string option"
  e_body_from :: "string \<Rightarrow> 'b"
  e_json_parse :: "string \<Rightarrow> 'v option"
  e_json_print :: "'v \<Rightarrow> string option"
  e_json_error :: "nat \<Rightarrow> string \<Rightarrow> string \<Rightarrow> ('hv, 'b) http_response"

definition SERVED_HEADER :: string where
  "SERVED_HEADER = ''x-api-version-served''"

definition rejection_into_response ::
  "('hv, 'b, 'v) http_env \<Rightarrow> VersionRejection \<Rightarrow> ('hv, 'b) http_response" where
  "rejection_into_response env r =
     (case rejection_parts r of (status, code, message) \<Rightarrow> e_json_error env status code message)"

definition response_header :: "('hv, 'b, 'v) http_env \<Rightarrow> ApiVersion \<Rightarrow> 'hv" where
  "response_header env version =
     (case e_header_value env (version_to_string version) of
        Some v \<Rightarrow> v
      | None \<Rightarrow> e_header_static env ''unknown'')"

definition is_json :: "('hv, 'b, 'v) http_env \<Rightarrow> (string \<rightharpoonup> 'hv) \<Rightarrow> bool" where
  "is_json env headers =
     (case Option.bind (headers ''content-type'') (e_to_str env) of
        None \<Rightarrow> False
      | Some value \<Rightarrow>
          (let v = map to_ascii_lower (trim value)
           in starts_with ''application/json'' v \<or> starts_with ''application/problem+json'' v))"

definition set_content_length ::
  "('hv, 'b, 'v) http_env \<Rightarrow> (string \<rightharpoonup> 'hv) \<Rightarrow> nat \<Rightarrow> (string \<rightharpoonup> 'hv)" where
  "set_content_length env headers len =
     (case e_header_value env (show_nat len) of
        Some v \<Rightarrow> headers(''content-length'' \<mapsto> v)
      | None \<Rightarrow> headers(''content-length'' := None))"

definition rewrite_request ::
  "('hv, 'b, 'v) http_env \<Rightarrow> 'v ApiVersionContext \<Rightarrow> ApiVersion \<Rightarrow> string \<Rightarrow> string
     \<Rightarrow> ('hv, 'b) http_request \<Rightarrow> (VersionRejection, ('hv, 'b) http_request) result" where
  "rewrite_request env ctx version route method req =
     (if \<not> is_json env (rq_headers req) then Inr req
      else try_bind (ok_or NotTransformable (e_to_bytes env (rq_body req) (ctx_max_body_bytes ctx))) (\<lambda>bytes.
        if bytes = [] then Inr (req\<lparr>rq_body := e_body_from env bytes\<rparr>)
        else (case e_json_parse env bytes of
                None \<Rightarrow> Inr (req\<lparr>rq_body := e_body_from env bytes\<rparr>)
              | Some value \<Rightarrow>
                  (let value' = registry_upgrade_request (ctx_registry ctx) version route method value
                   in try_bind (ok_or NotTransformable (e_json_print env value')) (\<lambda>out.
                        Inr (req\<lparr>rq_headers := set_content_length env (rq_headers req) (length out),
                                 rq_body := e_body_from env out\<rparr>))))))"

definition rewrite_response ::
  "('hv, 'b, 'v) http_env \<Rightarrow> 'v ApiVersionContext \<Rightarrow> ApiVersion \<Rightarrow> string \<Rightarrow> string
     \<Rightarrow> ('hv, 'b) http_response \<Rightarrow> (VersionRejection, ('hv, 'b) http_response) result" where
  "rewrite_response env ctx version route method res =
     (if \<not> is_json env (rs_headers res) then Inr res
      else try_bind (ok_or NotTransformable (e_to_bytes env (rs_body res) (ctx_max_body_bytes ctx))) (\<lambda>bytes.
        if bytes = [] then Inr (res\<lparr>rs_body := e_body_from env bytes\<rparr>)
        else (case e_json_parse env bytes of
                None \<Rightarrow> Inr (res\<lparr>rs_body := e_body_from env bytes\<rparr>)
              | Some value \<Rightarrow>
                  (let value' = registry_downgrade_response (ctx_registry ctx) version route method value
                   in try_bind (ok_or NotTransformable (e_json_print env value')) (\<lambda>out.
                        Inr (res\<lparr>rs_headers := set_content_length env (rs_headers res) (length out),
                                 rs_body := e_body_from env out\<rparr>))))))"

definition stamp_served ::
  "('hv, 'b, 'v) http_env \<Rightarrow> ApiVersion \<Rightarrow> ('hv, 'b) http_response \<Rightarrow> ('hv, 'b) http_response" where
  "stamp_served env version res =
     res\<lparr>rs_headers := (rs_headers res)(SERVED_HEADER \<mapsto> response_header env version)\<rparr>"

text \<open>The route that transforms see: the matched template, or the raw path.\<close>

definition request_route :: "('hv, 'b) http_request \<Rightarrow> string" where
  "request_route req = (case rq_matched_path req of Some p \<Rightarrow> p | None \<Rightarrow> rq_path req)"

definition negotiate ::
  "('hv, 'b, 'v) http_env \<Rightarrow> 'v ApiVersionContext \<Rightarrow> ('hv, 'b) http_request
     \<Rightarrow> (('hv, 'b) http_request \<Rightarrow> ('hv, 'b) http_response) \<Rightarrow> ('hv, 'b) http_response" where
  "negotiate env ctx req nxt =
     (case context_resolve (e_to_str env) ctx (rq_headers req) (rq_pinned req) of
        Inl rejection \<Rightarrow> rejection_into_response env rejection
      | Inr version \<Rightarrow>
          (let route = request_route req;
               method = rq_method req;
               req' = req\<lparr>rq_version := Some version\<rparr>
           in if \<not> registry_touches (ctx_registry ctx) version route method
              then stamp_served env version (nxt req')
              else (case rewrite_request env ctx version route method req' of
                      Inl rejection \<Rightarrow> rejection_into_response env rejection
                    | Inr req'' \<Rightarrow>
                        (case rewrite_response env ctx version route method (nxt req'') of
                           Inl rejection \<Rightarrow> rejection_into_response env rejection
                         | Inr res \<Rightarrow> stamp_served env version res))))"

section \<open>The registry\<close>

text \<open>The registry after registering a list of transforms one by one.\<close>

definition registry_of :: "'v transform list \<Rightarrow> 'v registry" where
  "registry_of ts = foldl registry_with registry_new ts"

definition registry_sorted :: "'v registry \<Rightarrow> bool" where
  "registry_sorted r \<longleftrightarrow> sorted (map t_version (transforms r))"

lemma registry_new_sorted [simp]: "registry_sorted registry_new"
  by (simp add: registry_sorted_def registry_new_def)

lemma registry_with_sorted [simp]: "registry_sorted (registry_with r t)"
  by (simp add: registry_sorted_def registry_with_def)

lemma registry_of_Nil [simp]: "registry_of [] = registry_new"
  by (simp add: registry_of_def)

lemma registry_of_snoc [simp]: "registry_of (ts @ [t]) = registry_with (registry_of ts) t"
  by (simp add: registry_of_def)

lemma registry_of_sorted: "registry_sorted (registry_of ts)"
  by (cases ts rule: rev_cases) simp_all

lemma registry_of_mset: "mset (transforms (registry_of ts)) = mset ts"
  by (induction ts rule: rev_induct) (simp_all add: registry_new_def registry_with_def)

lemma sort_key_stable_flip: "filter (\<lambda>y. k = f y) (sort_key f xs) = filter (\<lambda>y. k = f y) xs"
proof -
  have "(\<lambda>y. k = f y) = (\<lambda>y. f y = k)"
    by auto
  then show ?thesis
    by (simp add: sort_key_stable)
qed

lemma sort_key_snoc_sorted: "sort_key f (sort_key f xs @ [x]) = sort_key f (xs @ [x])"
  by (rule properties_for_sort_key) (simp_all add: sort_key_stable_flip)

lemma registry_of_transforms: "transforms (registry_of ts) = sort_key t_version ts"
  by (induction ts rule: rev_induct)
    (simp_all add: registry_new_def registry_with_def sort_key_snoc_sorted)

text \<open>
  The order in which changes are registered does not matter.  Two registries built from the
  same changes, no two of them at the same version, are equal, whatever the order of registration,
  and the chain they hold is sorted by version.
\<close>

theorem registration_order_irrelevant:
  assumes "mset ts = mset us" and "distinct (map t_version ts)"
  shows "registry_of ts = registry_of us \<and> sorted (map t_version (transforms (registry_of us)))"
proof -
  have "inj_on t_version (set us)"
    using assms by (metis distinct_map mset_eq_setD)
  then have "sort_key t_version ts = sort_key t_version us"
    using assms by (intro sort_key_eq_sort_key) (simp_all add: mset_eq_setD [OF assms(1)])
  then have "registry_of ts = registry_of us"
    by (intro registry.equality) (simp_all add: registry_of_transforms)
  then show ?thesis
    using registry_of_sorted [of us] by (simp add: registry_sorted_def)
qed


theorem registration_order_irrelevant_witness:
  "registry_of [\<lparr>t_version = ApiVersion 2026 1 1, t_applies_to = \<lambda>_ _. True,
                 t_downgrade_response = \<lambda>n. n - 1, t_upgrade_request = Suc\<rparr>,
                \<lparr>t_version = ApiVersion 2025 1 1, t_applies_to = \<lambda>_ _. True,
                 t_downgrade_response = \<lambda>n. n - 2, t_upgrade_request = Suc\<rparr>]
   = registry_of [\<lparr>t_version = ApiVersion 2025 1 1, t_applies_to = \<lambda>_ _. True,
                   t_downgrade_response = \<lambda>n. n - 2, t_upgrade_request = Suc\<rparr>,
                  \<lparr>t_version = ApiVersion 2026 1 1, t_applies_to = \<lambda>_ _. True,
                   t_downgrade_response = \<lambda>n. n - 1, t_upgrade_request = Suc\<rparr>]"
  by (rule registration_order_irrelevant [THEN conjunct1]) simp_all

section \<open>The chain\<close>

lemma untouched_step:
  assumes "\<not> list_ex (t_relevant pinned route method) ts"
  shows "foldl (downgrade_step pinned route method) body ts = body"
    and "foldl (upgrade_step pinned route method) body ts = body"
  using assms by (induction ts) (simp_all add: downgrade_step_def upgrade_step_def)

lemma untouched_identity:
  assumes "\<not> registry_touches r pinned route method"
  shows "registry_downgrade_response r pinned route method body = body"
    and "registry_upgrade_request r pinned route method body = body"
  using assms
  by (simp_all add: registry_touches_def registry_downgrade_response_def
      registry_upgrade_request_def untouched_step)

text \<open>A sorted chain is its part up to a version followed by its part after it.\<close>

lemma sorted_split_at:
  assumes "sorted (map f xs)"
  shows "xs = filter (\<lambda>x. f x \<le> c) xs @ filter (\<lambda>x. f x > c) xs"
  using assms
proof (induction xs)
  case (Cons x xs)
  show ?case
  proof (cases "f x \<le> c")
    case True
    with Cons show ?thesis by simp
  next
    case False
    then have "\<forall>y\<in>set xs. \<not> f y \<le> c"
      using Cons.prems by auto
    then show ?thesis
      using False by (auto simp: filter_empty_conv not_le intro: filter_True [symmetric])
  qed
qed simp

lemma filter_sort_key: "filter P (sort_key f xs) = sort_key f (filter P xs)"
  by (simp add: filter_sort)

lemma irrelevant_newer_prefix:
  assumes "\<And>t. t \<in> set ts \<Longrightarrow> t_version t \<le> pinned"
  shows "foldl (downgrade_step pinned route method) body ts = body"
  using assms by (intro untouched_step) (auto simp: list_ex_iff t_relevant_def not_less)

lemma downgrade_step_newer:
  assumes "\<And>t. t \<in> set ts \<Longrightarrow> t_version t > newer" and "older \<le> newer"
  shows "foldl (downgrade_step older route method) body ts
         = foldl (downgrade_step newer route method) body ts"
  using assms
  by (intro foldl_cong) (auto simp: downgrade_step_def t_relevant_def dest: le_less_trans)

text \<open>
  Downgrading composes along the timeline.  Taking a response back to an old contract is
  taking it back to any contract in between, and then taking that across the remaining, older
  changes.  No change is undone out of order and none is undone twice.
\<close>

theorem downgrade_composes:
  assumes "older \<le> newer"
  shows "registry_downgrade_response (registry_of ts) older route method body
         = registry_downgrade_response (registry_of (filter (\<lambda>t. t_version t \<le> newer) ts))
             older route method
             (registry_downgrade_response (registry_of ts) newer route method body)"
proof -
  let ?c = "sort_key t_version ts"
  let ?old = "filter (\<lambda>t. t_version t \<le> newer) ?c"
  let ?new = "filter (\<lambda>t. t_version t > newer) ?c"
  have split: "?c = ?old @ ?new"
    by (rule sorted_split_at) simp
  have rsplit: "rev ?c = rev ?new @ rev ?old"
    by (subst split) simp
  have at_newer: "foldl (downgrade_step newer route method) body (rev ?c)
      = foldl (downgrade_step newer route method) body (rev ?new)"
    unfolding rsplit foldl_append by (rule irrelevant_newer_prefix) simp
  have "foldl (downgrade_step older route method) body (rev ?c)
      = foldl (downgrade_step older route method)
          (foldl (downgrade_step older route method) body (rev ?new)) (rev ?old)"
    unfolding rsplit foldl_append ..
  also have "foldl (downgrade_step older route method) body (rev ?new)
      = foldl (downgrade_step newer route method) body (rev ?new)"
    using assms by (intro downgrade_step_newer) simp_all
  finally show ?thesis
    by (simp add: registry_downgrade_response_def registry_of_transforms at_newer filter_sort_key)
qed

theorem downgrade_composes_witness:
  "registry_downgrade_response
     (registry_of [\<lparr>t_version = ApiVersion 2026 1 1, t_applies_to = \<lambda>_ _. True,
                     t_downgrade_response = \<lambda>s. ''a'' @ s, t_upgrade_request = tl\<rparr>,
                    \<lparr>t_version = ApiVersion 2025 1 1, t_applies_to = \<lambda>_ _. True,
                     t_downgrade_response = \<lambda>s. ''b'' @ s, t_upgrade_request = tl\<rparr>])
     (ApiVersion 2024 1 1) ''/agents'' ''GET'' ''body'' = ''babody''"
  using downgrade_composes
    [of "ApiVersion 2024 1 1" "ApiVersion 2025 6 1"
        "[\<lparr>t_version = ApiVersion 2026 1 1, t_applies_to = \<lambda>_ _. True,
           t_downgrade_response = \<lambda>s. ''a'' @ s, t_upgrade_request = tl\<rparr>,
          \<lparr>t_version = ApiVersion 2025 1 1, t_applies_to = \<lambda>_ _. True,
           t_downgrade_response = \<lambda>s. ''b'' @ s, t_upgrade_request = tl\<rparr>]"
        "''/agents''" "''GET''" "''body''"]
  by (simp add: registry_of_transforms registry_downgrade_response_def downgrade_step_def
      t_relevant_def less_eq_ApiVersion_def less_ApiVersion_def)

lemma upgrade_downgrade_chain:
  assumes "\<And>t v. t \<in> set ts \<Longrightarrow> t_upgrade_request t (t_downgrade_response t v) = v"
  shows "foldl (upgrade_step pinned route method)
           (foldl (downgrade_step pinned route method) body (rev ts)) ts = body"
  using assms by (induction ts) (simp_all add: upgrade_step_def downgrade_step_def)

text \<open>
  A body an old client read and sends back is understood.  When every registered change can
  undo its own downgrade, upgrading a downgraded body gives the body back, for every pin, route
  and method.
\<close>

theorem upgrade_undoes_downgrade:
  assumes "\<And>t v. t \<in> set ts \<Longrightarrow> t_upgrade_request t (t_downgrade_response t v) = v"
  shows "registry_upgrade_request (registry_of ts) pinned route method
           (registry_downgrade_response (registry_of ts) pinned route method body) = body"
  unfolding registry_upgrade_request_def registry_downgrade_response_def registry_of_transforms
  by (rule upgrade_downgrade_chain) (simp add: assms)

theorem upgrade_undoes_downgrade_witness:
  "registry_upgrade_request
     (registry_of [\<lparr>t_version = ApiVersion 2026 1 1, t_applies_to = \<lambda>_ _. True,
                     t_downgrade_response = \<lambda>s. CHR ''a'' # s, t_upgrade_request = tl\<rparr>])
     (ApiVersion 2024 1 1) ''/agents'' ''POST''
     (registry_downgrade_response
       (registry_of [\<lparr>t_version = ApiVersion 2026 1 1, t_applies_to = \<lambda>_ _. True,
                       t_downgrade_response = \<lambda>s. CHR ''a'' # s, t_upgrade_request = tl\<rparr>])
       (ApiVersion 2024 1 1) ''/agents'' ''POST'' ''body'') = ''body''"
  by (rule upgrade_undoes_downgrade) simp

section \<open>The decision\<close>

lemma context_new_Inr_iff:
  "context_new header_name header current oldest = Inr ctx \<longleftrightarrow>
     oldest \<le> current \<and>
     (\<exists>h. header_name header = Some h \<and>
        ctx = \<lparr>ctx_header = h, ctx_current = current, ctx_oldest_supported = oldest,
               ctx_default = oldest, ctx_max_body_bytes = DEFAULT_MAX_BODY_BYTES,
               ctx_registry = registry_new\<rparr>)"
  by (auto simp: context_new_def result_simps not_less)

lemma context_resolve_header_iff:
  assumes "headers (ctx_header ctx) = Some hv"
  shows "context_resolve to_str ctx headers pinned = Inr v \<longleftrightarrow>
    (\<exists>raw. to_str hv = Some raw \<and> version_from_str raw = Inr v \<and>
       ctx_oldest_supported ctx \<le> v \<and> v \<le> ctx_current ctx)"
  using assms by (auto simp: context_resolve_def result_simps not_less split: if_splits)



section \<open>The middleware serves the negotiated contract\<close>

lemma rewrite_response_error:
  "rewrite_response env ctx version route method res = Inl e \<Longrightarrow> e = NotTransformable"
  by (auto simp: rewrite_response_def result_simps Let_def split: if_splits option.splits)

lemma rewrite_request_error:
  "rewrite_request env ctx version route method req = Inl e \<Longrightarrow> e = NotTransformable"
  by (auto simp: rewrite_request_def result_simps Let_def split: if_splits option.splits)

lemma rewrite_response_value:
  assumes "\<And>v s. e_json_print env v = Some s \<Longrightarrow> e_json_parse env s = Some v"
    and "e_json_parse env [] = None"
    and "\<And>b n s. e_to_bytes env b n = Some s \<Longrightarrow> content b = s"
    and "\<And>s. content (e_body_from env s) = s"
    and "is_json env (rs_headers res)" and "e_json_parse env (content (rs_body res)) = Some v"
    and "rewrite_response env ctx version route method res = Inr res'"
  shows "e_json_parse env (content (rs_body res'))
         = Some (registry_downgrade_response (ctx_registry ctx) version route method v)"
proof -
  obtain bytes where bytes: "e_to_bytes env (rs_body res) (ctx_max_body_bytes ctx) = Some bytes"
    using assms(5,7) by (auto simp: rewrite_response_def result_simps)
  then have parsed: "e_json_parse env bytes = Some v"
    using assms(3,6) by blast
  with assms(2) have "bytes \<noteq> []"
    by auto
  then show ?thesis
    using assms(5,7) bytes parsed assms(1,4)
    by (auto simp: rewrite_response_def result_simps Let_def)
qed

text \<open>
  C6: the middleware never serves a JSON document in another contract than the negotiated one.
  Whatever the request is, once a version is resolved and the handler answers with the JSON
  document \<open>v\<close>, the caller receives either the 500 refusal or a response that names the version
  and whose body is \<open>v\<close> taken back to that version, also on the fast path that skips the rewriting.
  The hypotheses on \<open>serde_json\<close> and \<open>axum\<close>: what is printed parses back, the empty text is no
  document, a body that can be read gives its contents, and a body built from bytes holds them.
\<close>

theorem serves_negotiated_contract:
  assumes "\<And>v s. e_json_print env v = Some s \<Longrightarrow> e_json_parse env s = Some v"
    and "e_json_parse env [] = None"
    and "\<And>b n s. e_to_bytes env b n = Some s \<Longrightarrow> content b = s"
    and "\<And>s. content (e_body_from env s) = s"
    and resolved: "context_resolve (e_to_str env) ctx (rq_headers req) (rq_pinned req) = Inr version"
    and handler: "\<And>q. is_json env (rs_headers (nxt q)) \<and>
                       e_json_parse env (content (rs_body (nxt q))) = Some v"
  shows "negotiate env ctx req nxt = rejection_into_response env NotTransformable \<or>
    (rs_headers (negotiate env ctx req nxt) SERVED_HEADER = Some (response_header env version) \<and>
     e_json_parse env (content (rs_body (negotiate env ctx req nxt)))
       = Some (registry_downgrade_response (ctx_registry ctx) version
                 (request_route req) (rq_method req) v))"
proof (cases "registry_touches (ctx_registry ctx) version (request_route req) (rq_method req)")
  case False
  then show ?thesis
    using resolved handler by (simp add: negotiate_def stamp_served_def untouched_identity Let_def)
next
  case True
  let ?req = "req\<lparr>rq_version := Some version\<rparr>"
  let ?rewrite = "rewrite_request env ctx version (request_route req) (rq_method req) ?req"
  show ?thesis
  proof (cases ?rewrite)
    case (Inl e)
    then show ?thesis
      using resolved True rewrite_request_error [OF Inl] by (simp add: negotiate_def Let_def)
  next
    case (Inr q)
    show ?thesis
    proof (cases "rewrite_response env ctx version (request_route req) (rq_method req) (nxt q)")
      case (Inl e)
      then show ?thesis
        using resolved True Inr rewrite_response_error [OF Inl] by (simp add: negotiate_def Let_def)
    next
      case (Inr res)
      note downgraded = rewrite_response_value [OF assms(1-4) handler [THEN conjunct1]
          handler [THEN conjunct2] Inr]
      show ?thesis
        using resolved True Inr \<open>?rewrite = Inr q\<close> downgraded
        by (simp add: negotiate_def Let_def stamp_served_def)
    qed
  qed
qed

text \<open>A small JSON-like environment: a number \<open>n\<close> is printed as \<open>n + 1\<close> strokes.\<close>

definition stroke_env :: "(string, string, nat) http_env" where
  "stroke_env =
     \<lparr>e_to_str = Some, e_header_value = Some, e_header_static = \<lambda>s. s,
      e_to_bytes = \<lambda>b n. if length b \<le> n then Some b else None, e_body_from = \<lambda>s. s,
      e_json_parse = \<lambda>s. (case s of [] \<Rightarrow> None | _ # t \<Rightarrow> Some (length t)),
      e_json_print = \<lambda>v. Some (replicate (Suc v) CHR ''x''),
      e_json_error = \<lambda>s c m. \<lparr>rs_status = s, rs_headers = Map.empty, rs_body = c\<rparr>\<rparr>"

definition stroke_ctx :: "nat ApiVersionContext" where
  "stroke_ctx =
     \<lparr>ctx_header = ''x-v'', ctx_current = ApiVersion 2026 1 1,
      ctx_oldest_supported = ApiVersion 2025 1 1, ctx_default = ApiVersion 2025 1 1,
      ctx_max_body_bytes = 10,
      ctx_registry = registry_of [\<lparr>t_version = ApiVersion 2026 1 1, t_applies_to = \<lambda>_ _. True,
                                   t_downgrade_response = Suc, t_upgrade_request = \<lambda>n. n - 1\<rparr>]\<rparr>"

definition stroke_req :: "(string, string) http_request" where
  "stroke_req = \<lparr>rq_headers = Map.empty, rq_pinned = None, rq_matched_path = None, rq_path = ''/a'',
      rq_method = ''GET'', rq_version = None, rq_body = []\<rparr>"

definition stroke_handler :: "(string, string) http_request \<Rightarrow> (string, string) http_response" where
  "stroke_handler _ = \<lparr>rs_status = 200, rs_headers = [''content-type'' \<mapsto> ''application/json''],
      rs_body = ''xxx''\<rparr>"

lemma stroke_env_laws:
  "e_json_print stroke_env v = Some s \<Longrightarrow> e_json_parse stroke_env s = Some v"
  "e_json_parse stroke_env [] = None"
  "e_to_bytes stroke_env b n = Some s \<Longrightarrow> b = s"
  "e_body_from stroke_env s = s"
  by (auto simp: stroke_env_def split: if_splits)

lemma stroke_resolves:
  "context_resolve (e_to_str stroke_env) stroke_ctx (rq_headers stroke_req) (rq_pinned stroke_req)
   = Inr (ApiVersion 2025 1 1)"
  by (simp add: context_resolve_def stroke_ctx_def stroke_req_def)

lemma stroke_json:
  "is_json stroke_env (rs_headers (stroke_handler q)) \<and>
   e_json_parse stroke_env (rs_body (stroke_handler q)) = Some 2"
proof -
  have "trim ''application/json'' = ''application/json''"
    by (simp add: trim_all_printable printable_def)
  moreover have "map to_ascii_lower ''application/json'' = ''application/json''"
    by (simp add: to_ascii_lower_def)
  ultimately have "is_json stroke_env [''content-type'' \<mapsto> ''application/json'']"
    by (simp add: is_json_def stroke_env_def Let_def starts_with_iff)
  then show ?thesis
    by (simp add: stroke_handler_def) (simp add: stroke_env_def)
qed

theorem serves_negotiated_contract_witness:
  "negotiate stroke_env stroke_ctx stroke_req stroke_handler
        = rejection_into_response stroke_env NotTransformable \<or>
    (rs_headers (negotiate stroke_env stroke_ctx stroke_req stroke_handler) SERVED_HEADER
       = Some (response_header stroke_env (ApiVersion 2025 1 1)) \<and>
     e_json_parse stroke_env (rs_body (negotiate stroke_env stroke_ctx stroke_req stroke_handler))
       = Some (registry_downgrade_response (ctx_registry stroke_ctx) (ApiVersion 2025 1 1)
                 (request_route stroke_req) (rq_method stroke_req) 2))"
  by (rule serves_negotiated_contract [of stroke_env "\<lambda>b. b", OF stroke_env_laws stroke_resolves stroke_json])

end
