(* ===== verification/Golden_Fixtures.thy ===== *)
theory Golden_Fixtures
  imports Api_Negotiate
begin

text \<open>
  The golden harness of \<open>crates/testkit/src/api_version_golden.rs\<close>: the downgraded shape of each route
  at each version, compared with a stored fixture.  The files are a map from paths to contents, \<open>deny\<close>
  tells which writes the system refuses, and JSON and paths are the fields of \<open>golden_lib\<close>.
\<close>

section \<open>The harness\<close>

record 'v GoldenCase =
  gc_name :: string
  gc_route :: string
  gc_method :: string
  gc_current :: 'v

datatype FixtureError = FixtureMissing | FixtureInvalid string

record 'v golden_lib =
  gl_join :: "string \<Rightarrow> string \<Rightarrow> string"
  gl_parse :: "string \<Rightarrow> (string, 'v) result"
  gl_pretty :: "'v \<Rightarrow> string"

definition fixture_path :: "'v golden_lib \<Rightarrow> string \<Rightarrow> string \<Rightarrow> ApiVersion \<Rightarrow> string" where
  "fixture_path lib dir name v = gl_join lib dir (name @ ''__'' @ version_to_string v @ ''.json'')"

definition read_fixture :: "'v golden_lib \<Rightarrow> (string \<rightharpoonup> string) \<Rightarrow> string \<Rightarrow> (FixtureError, 'v) result" where
  "read_fixture lib files path =
     try_bind (ok_or FixtureMissing (files path)) (\<lambda>contents. map_err FixtureInvalid (gl_parse lib contents))"

definition write_fixture ::
  "'v golden_lib \<Rightarrow> (string \<rightharpoonup> string) \<Rightarrow> string \<Rightarrow> 'v \<Rightarrow> (string \<rightharpoonup> string) \<Rightarrow> (string, unit) result \<times> (string \<rightharpoonup> string)" where
  "write_fixture lib deny path v files =
     (case deny path of
        Some e \<Rightarrow> (Inl e, files)
      | None \<Rightarrow> (Inr (), files(path \<mapsto> gl_pretty lib v @ ''\<newline>'')))"

text \<open>One route at one version: the failure it adds, and the files afterwards.\<close>

definition check_fixture ::
  "'v golden_lib \<Rightarrow> (string \<rightharpoonup> string) \<Rightarrow> 'v registry \<Rightarrow> string \<Rightarrow> bool \<Rightarrow> 'v GoldenCase \<Rightarrow> ApiVersion
     \<Rightarrow> (string \<rightharpoonup> string) \<Rightarrow> string list \<times> (string \<rightharpoonup> string)" where
  "check_fixture lib deny registry dir update c v files =
     (let rendered = registry_downgrade_response registry v (gc_route c) (gc_method c) (gc_current c);
          path = fixture_path lib dir (gc_name c) v
      in if update then
           (case write_fixture lib deny path rendered files of
              (Inl err, files') \<Rightarrow> ([path @ '': could not write fixture: '' @ err], files')
            | (Inr _, files') \<Rightarrow> ([], files'))
         else
           (case read_fixture lib files path of
              Inr expected \<Rightarrow>
                if expected = rendered then ([], files)
                else ([gc_name c @ '' at '' @ version_to_string v @ '' does not match '' @ path @ ''\<newline>expected:\<newline>'' @
                       gl_pretty lib expected @ ''\<newline>actual:\<newline>'' @ gl_pretty lib rendered], files)
            | Inl FixtureMissing \<Rightarrow>
                ([gc_name c @ '' at '' @ version_to_string v @ '': no fixture at '' @ path @
                  ''; rerun with UPDATE_GOLDEN=1 to create it, then review the diff''], files)
            | Inl (FixtureInvalid err) \<Rightarrow> ([path @ '': not valid JSON: '' @ err], files)))"

fun check_all ::
  "('c \<Rightarrow> 'f \<Rightarrow> string list \<times> 'f) \<Rightarrow> 'c list \<Rightarrow> 'f \<Rightarrow> string list \<times> 'f" where
  "check_all check [] files = ([], files)"
| "check_all check (c # cs) files =
     (let (failures, files') = check c files; (failures', files'') = check_all check cs files'
      in (failures @ failures', files''))"

text \<open>The assertion at the end panics, with every failure in its message, unless there are none.\<close>

definition check_golden_responses ::
  "'v golden_lib \<Rightarrow> (string \<rightharpoonup> string) \<Rightarrow> 'v registry \<Rightarrow> ApiVersion list \<Rightarrow> 'v GoldenCase list \<Rightarrow> string \<Rightarrow> bool
     \<Rightarrow> (string \<rightharpoonup> string) \<Rightarrow> (string, unit) result \<times> (string \<rightharpoonup> string)" where
  "check_golden_responses lib deny registry versions cases dir update files =
     (let (failures, files') =
            check_all (\<lambda>(c, v). check_fixture lib deny registry dir update c v) (List.product cases versions) files
      in (if failures = [] then Inr ()
          else Inl (''golden API-version fixtures out of date:\<newline>\<newline>'' @ join_with ''\<newline>\<newline>'' failures), files'))"

definition assert_golden_responses ::
  "'v golden_lib \<Rightarrow> (string \<rightharpoonup> string) \<Rightarrow> (string \<rightharpoonup> string) \<Rightarrow> 'v registry \<Rightarrow> ApiVersion list \<Rightarrow> 'v GoldenCase list \<Rightarrow> string
     \<Rightarrow> (string \<rightharpoonup> string) \<Rightarrow> (string, unit) result \<times> (string \<rightharpoonup> string)" where
  "assert_golden_responses lib deny env registry versions cases dir files =
     check_golden_responses lib deny registry versions cases dir (env ''UPDATE_GOLDEN'' \<noteq> None) files"

section \<open>A recorded suite passes\<close>

text \<open>What is relied on: joining keeps relative names apart (an absolute one replaces the directory).\<close>

definition relative_name :: "string \<Rightarrow> bool" where
  "relative_name name \<longleftrightarrow> take 1 name \<noteq> ''/''"

definition joins_apart :: "'v golden_lib \<Rightarrow> bool" where
  "joins_apart lib \<longleftrightarrow> (\<forall>dir. inj_on (gl_join lib dir) (Collect relative_name))"

text \<open>The versions a header can name.\<close>

definition served_version :: "ApiVersion \<Rightarrow> bool" where
  "served_version v \<longleftrightarrow> valid_version v \<and> unat (year v) < 10 ^ 4"

lemma version_string_length: "served_version v \<Longrightarrow> length (version_to_string v) = 10"
  using version_from_str_complete [of v] version_length by (auto simp: served_version_def)

lemma version_string_inj: "served_version v \<Longrightarrow> served_version w \<Longrightarrow> version_to_string v = version_to_string w \<Longrightarrow> v = w"
  using version_from_str_complete by (metis Inr_inject served_version_def)

lemma fixture_path_inj:
  assumes "joins_apart lib" "served_version v" "served_version w" "fixture_path lib dir a v = fixture_path lib dir b w"
    and "relative_name a" "relative_name b"
  shows "a = b \<and> v = w"
proof -
  have "relative_name (a @ ''__'' @ version_to_string v @ ''.json'')" "relative_name (b @ ''__'' @ version_to_string w @ ''.json'')"
    using assms(5,6) by (auto simp: relative_name_def take_Cons' split: if_splits)
  with assms(1,4) have "a @ ''__'' @ version_to_string v @ ''.json'' = b @ ''__'' @ version_to_string w @ ''.json''"
    unfolding fixture_path_def joins_apart_def by (blast dest: inj_onD)
  moreover have "length (version_to_string v) = length (version_to_string w)"
    using assms(2,3) by (simp add: version_string_length)
  ultimately have "a = b" "version_to_string v = version_to_string w"
    by (simp_all add: append_eq_append_conv flip: append_assoc)
  with version_string_inj assms(2,3) show ?thesis
    by blast
qed

text \<open>What an update run leaves in the files.\<close>

definition rendered_at :: "'v registry \<Rightarrow> 'v GoldenCase \<times> ApiVersion \<Rightarrow> 'v" where
  "rendered_at registry = (\<lambda>(c, v). registry_downgrade_response registry v (gc_route c) (gc_method c) (gc_current c))"

definition path_at :: "'v golden_lib \<Rightarrow> string \<Rightarrow> 'v GoldenCase \<times> ApiVersion \<Rightarrow> string" where
  "path_at lib dir = (\<lambda>(c, v). fixture_path lib dir (gc_name c) v)"

lemma update_step:
  "deny (path_at lib dir p) = None \<Longrightarrow>
   (\<lambda>(c, v). check_fixture lib deny registry dir True c v) p files =
     ([], files(path_at lib dir p \<mapsto> gl_pretty lib (rendered_at registry p) @ ''\<newline>''))"
  by (cases p) (simp add: check_fixture_def write_fixture_def path_at_def rendered_at_def Let_def)

lemma update_run:
  assumes "\<forall>p \<in> set ps. deny (path_at lib dir p) = None" "distinct (map (path_at lib dir) ps)"
  shows "\<exists>files'. check_all (\<lambda>(c, v). check_fixture lib deny registry dir True c v) ps files = ([], files') \<and>
    (\<forall>q. q \<notin> path_at lib dir ` set ps \<longrightarrow> files' q = files q) \<and>
    (\<forall>p \<in> set ps. files' (path_at lib dir p) = Some (gl_pretty lib (rendered_at registry p) @ ''\<newline>''))"
  using assms
proof (induction ps arbitrary: files)
  case (Cons p ps)
  let ?files = "files(path_at lib dir p \<mapsto> gl_pretty lib (rendered_at registry p) @ ''\<newline>'')"
  have "\<forall>p \<in> set ps. deny (path_at lib dir p) = None" "distinct (map (path_at lib dir) ps)"
    using Cons.prems by simp_all
  from Cons.IH [OF this, of ?files] obtain files' where
    run: "check_all (\<lambda>(c, v). check_fixture lib deny registry dir True c v) ps ?files = ([], files')"
    and rest: "\<forall>q. q \<notin> path_at lib dir ` set ps \<longrightarrow> files' q = ?files q"
    and kept: "\<forall>p \<in> set ps. files' (path_at lib dir p) = Some (gl_pretty lib (rendered_at registry p) @ ''\<newline>'')"
    by blast
  have "path_at lib dir p \<notin> path_at lib dir ` set ps"
    using Cons.prems(2) by simp
  with rest have "files' (path_at lib dir p) = Some (gl_pretty lib (rendered_at registry p) @ ''\<newline>'')"
    by simp
  moreover have "check_all (\<lambda>(c, v). check_fixture lib deny registry dir True c v) (p # ps) files = ([], files')"
    using update_step [of deny lib dir p registry files] Cons.prems(1) run by (simp add: Let_def split_beta)
  ultimately show ?case
    using rest kept by (intro exI [of _ files']) auto
qed simp

lemma compare_run:
  assumes "\<forall>p \<in> set ps. gl_parse lib (gl_pretty lib (rendered_at registry p) @ ''\<newline>'') = Inr (rendered_at registry p)"
    and "\<forall>p \<in> set ps. files (path_at lib dir p) = Some (gl_pretty lib (rendered_at registry p) @ ''\<newline>'')"
  shows "check_all (\<lambda>(c, v). check_fixture lib deny registry dir False c v) ps files = ([], files)"
  using assms
proof (induction ps)
  case (Cons p ps)
  have "(\<lambda>(c, v). check_fixture lib deny registry dir False c v) p files = ([], files)"
    using Cons.prems
    by (cases p) (simp add: check_fixture_def read_fixture_def path_at_def rendered_at_def Let_def)
  with Cons show ?case
    by (simp add: Let_def)
qed simp

text \<open>
  A suite recorded with \<open>UPDATE_GOLDEN\<close> passes as long as the transforms and the samples stay: with
  case names relative and not repeated, no write refused, and JSON that reads back as it was printed (a
  document with a float need not), the comparing run finds no failure.
\<close>

theorem recorded_suite_passes:
  assumes "joins_apart lib" "distinct (map gc_name cases)" "distinct versions" "\<forall>v \<in> set versions. served_version v"
    and "\<forall>p. deny p = None" "\<forall>c \<in> set cases. relative_name (gc_name c)"
    and parse: "\<forall>p \<in> set (List.product cases versions).
      gl_parse lib (gl_pretty lib (rendered_at registry p) @ ''\<newline>'') = Inr (rendered_at registry p)"
  shows "\<exists>files'. check_golden_responses lib deny registry versions cases dir True files = (Inr (), files') \<and>
    check_golden_responses lib deny' registry versions cases dir False files' = (Inr (), files')"
proof -
  let ?ps = "List.product cases versions"
  have "inj_on (path_at lib dir) (set ?ps)"
  proof (rule inj_onI)
    fix p q
    assume p: "p \<in> set ?ps" and q: "q \<in> set ?ps" and eq: "path_at lib dir p = path_at lib dir q"
    obtain c v d w where pq: "p = (c, v)" "q = (d, w)"
      by fastforce
    with p q eq assms(1,4,6) have "gc_name c = gc_name d \<and> v = w"
      by (intro fixture_path_inj [of lib v w dir]) (auto simp: path_at_def)
    moreover have "c \<in> set cases" "d \<in> set cases"
      using p q pq by auto
    ultimately show "p = q"
      using assms(2) pq by (auto simp: distinct_map inj_on_def)
  qed
  moreover have "distinct ?ps"
    using assms(2,3) by (intro distinct_product) (auto simp: distinct_map)
  ultimately have "distinct (map (path_at lib dir) ?ps)"
    by (simp add: distinct_map)
  from update_run [OF _ this, of deny registry files] assms(5) obtain files' where
    u: "check_all (\<lambda>(c, v). check_fixture lib deny registry dir True c v) ?ps files = ([], files')"
    and k: "\<forall>p \<in> set ?ps. files' (path_at lib dir p) = Some (gl_pretty lib (rendered_at registry p) @ ''\<newline>'')"
    by blast
  from compare_run [OF parse k] u show ?thesis
    by (intro exI [of _ files']) (simp add: check_golden_responses_def)
qed

end
