(* ===== verification/Sql_Table.thy ===== *)
theory Sql_Table
  imports Kit_Prelude
begin

text \<open>
  Tables as the SQL statements of the workspace see them: a list of rows, whose order is the
  arbitrary order of the heap.  \<open>update_where\<close>, \<open>delete_where\<close> and \<open>select_where\<close> are the statements;
  \<open>rows_affected\<close> is what the driver reports.  The theory also holds the interface of a transition
  system with an invariant, which the components with a table instantiate.
\<close>

section \<open>Statements\<close>

definition update_where :: "('r \<Rightarrow> bool) \<Rightarrow> ('r \<Rightarrow> 'r) \<Rightarrow> 'r list \<Rightarrow> 'r list" where
  "update_where P f t = map (\<lambda>r. if P r then f r else r) t"

text \<open>
  The same statement under \<open>READ COMMITTED\<close> when it began on \<open>snapshot\<close> and waited for transactions that
  left the table \<open>t\<close>: it considers the rows its snapshot selected, by their key, checks the condition
  again on what they have become, and does not see rows added since.
\<close>

definition update_overlapped :: "('r \<Rightarrow> 'k) \<Rightarrow> ('r \<Rightarrow> bool) \<Rightarrow> ('r \<Rightarrow> 'r) \<Rightarrow> 'r list \<Rightarrow> 'r list \<Rightarrow> 'r list" where
  "update_overlapped k P f snapshot t =
     update_where (\<lambda>r. P r \<and> list_ex (\<lambda>q. k q = k r \<and> P q) snapshot) f t"

definition rows_affected :: "('r \<Rightarrow> bool) \<Rightarrow> 'r list \<Rightarrow> nat" where
  "rows_affected P t = length (filter P t)"

definition delete_where :: "('r \<Rightarrow> bool) \<Rightarrow> 'r list \<Rightarrow> 'r list" where
  "delete_where P t = filter (\<lambda>r. \<not> P r) t"

definition select_where :: "('r \<Rightarrow> bool) \<Rightarrow> 'r list \<Rightarrow> 'r list" where
  "select_where P t = filter P t"

text \<open>\<open>fetch_optional\<close> takes the first row of the answer.\<close>

definition fetch_optional :: "'r list \<Rightarrow> 'r option" where
  "fetch_optional t = (case t of [] \<Rightarrow> None | r # _ \<Rightarrow> Some r)"

named_theorems sql_simps

lemma fetch_optional_simps [simp, sql_simps]:
  "fetch_optional [] = None"
  "fetch_optional (r # t) = Some r"
  by (simp_all add: fetch_optional_def)

lemma fetch_optional_None_iff [simp]: "fetch_optional t = None \<longleftrightarrow> t = []"
  by (cases t) simp_all

lemma fetch_optional_Some_mem: "fetch_optional t = Some r \<Longrightarrow> r \<in> set t"
  by (cases t) simp_all

lemma update_where_simps [simp, sql_simps]:
  "update_where P f [] = []"
  "update_where P f (r # t) = (if P r then f r else r) # update_where P f t"
  "update_where P f (t @ u) = update_where P f t @ update_where P f u"
  by (simp_all add: update_where_def)

lemma length_update_where [simp]: "length (update_where P f t) = length t"
  by (simp add: update_where_def)

lemma set_update_where: "set (update_where P f t) = (\<lambda>r. if P r then f r else r) ` set t"
  by (simp add: update_where_def)

lemma update_where_row: "r \<in> set t \<Longrightarrow> (if P r then f r else r) \<in> set (update_where P f t)"
  by (auto simp: set_update_where)

lemma update_where_memE:
  assumes "r \<in> set (update_where P f t)"
  obtains (new) q where "q \<in> set t" "P q" "r = f q" | (old) "r \<in> set t" "\<not> P r"
  using assms by (auto simp: set_update_where split: if_splits)

text \<open>A column the statement does not set keeps its values, in their order.\<close>

lemma map_update_where:
  "(\<And>r. k (f r) = k r) \<Longrightarrow> map k (update_where P f t) = map k t"
  by (simp add: update_where_def)

lemma update_overlapped_self: "update_overlapped k P f t t = update_where P f t"
  by (auto simp: update_overlapped_def update_where_def list_ex_iff)

lemma update_where_keeps: "r \<in> set t \<Longrightarrow> \<not> P r \<Longrightarrow> r \<in> set (update_where P f t)"
  by (induction t) (auto simp: update_where_def)

lemma update_where_changes: "r \<in> set t \<Longrightarrow> P r \<Longrightarrow> f r \<in> set (update_where P f t)"
  by (induction t) (auto simp: update_where_def)

lemma update_where_none: "(\<And>r. r \<in> set t \<Longrightarrow> \<not> P r) \<Longrightarrow> update_where P f t = t"
  by (induction t) simp_all

lemma rows_affected_0_iff [simp]: "rows_affected P t = 0 \<longleftrightarrow> (\<forall>r\<in>set t. \<not> P r)"
  by (simp add: rows_affected_def filter_empty_conv)

section \<open>Rows by key\<close>

definition find_key :: "('r \<Rightarrow> 'k) \<Rightarrow> 'r list \<Rightarrow> 'k \<Rightarrow> 'r option" where
  "find_key k t i = find (\<lambda>r. k r = i) t"

lemma find_key_simps [simp]:
  "find_key k [] i = None"
  "find_key k (r # t) i = (if k r = i then Some r else find_key k t i)"
  by (simp_all add: find_key_def)

lemma find_key_None_iff: "find_key k t i = None \<longleftrightarrow> i \<notin> k ` set t"
  by (induction t) auto

lemma find_key_SomeD: "find_key k t i = Some r \<Longrightarrow> r \<in> set t \<and> k r = i"
  by (induction t) (auto split: if_splits)

lemma find_key_Some_iff:
  "distinct (map k t) \<Longrightarrow> find_key k t i = Some r \<longleftrightarrow> r \<in> set t \<and> k r = i"
  by (induction t) (auto simp: image_iff)

lemma find_key_append:
  "find_key k (t @ u) i = (case find_key k t i of Some r \<Rightarrow> Some r | None \<Rightarrow> find_key k u i)"
  by (induction t) auto

lemma find_key_update_where:
  "(\<And>r. k (f r) = k r) \<Longrightarrow>
   find_key k (update_where P f t) i
   = map_option (\<lambda>r. if P r then f r else r) (find_key k t i)"
  by (induction t) auto

lemma filter_key_none: "(\<forall>q\<in>set t. k q \<noteq> i) \<Longrightarrow> filter (\<lambda>q. k q = i) t = []"
  by (simp add: filter_empty_conv)

lemma filter_unique_key:
  "distinct (map k t) \<Longrightarrow> r \<in> set t \<Longrightarrow> filter (\<lambda>q. k q = k r) t = [r]"
proof (induction t)
  case (Cons a t)
  show ?case
  proof (cases "a = r")
    case True
    with Cons.prems(1) show ?thesis
      by (auto simp: image_iff intro!: filter_key_none)
  next
    case False
    with Cons have "k a \<noteq> k r"
      by auto
    with Cons False show ?thesis
      by simp
  qed
qed simp

section \<open>Transition systems with an invariant\<close>

locale invariant_system =
  fixes init :: "'s \<Rightarrow> bool" and step :: "'s \<Rightarrow> 's \<Rightarrow> bool" and inv :: "'s \<Rightarrow> bool"
  assumes init_inv: "init s \<Longrightarrow> inv s"
    and step_inv: "inv s \<Longrightarrow> step s t \<Longrightarrow> inv t"
begin

lemma steps_inv: "step\<^sup>*\<^sup>* s t \<Longrightarrow> inv s \<Longrightarrow> inv t"
  by (induction rule: rtranclp_induct) (auto intro: step_inv)

lemma reach_inv: "init s \<Longrightarrow> step\<^sup>*\<^sup>* s t \<Longrightarrow> inv t"
  by (blast intro: steps_inv init_inv)

text \<open>A property that each step from a state of the invariant keeps holds from then on.\<close>

lemma stable:
  assumes "\<And>s t. inv s \<Longrightarrow> P s \<Longrightarrow> step s t \<Longrightarrow> P t"
    and "step\<^sup>*\<^sup>* s t" and "inv s" and "P s"
  shows "P t"
proof -
  from assms(2) have "inv t \<and> P t"
    by (induction rule: rtranclp_induct) (use assms in \<open>auto intro: step_inv\<close>)
  then show ?thesis ..
qed

end

text \<open>
  A system refines an abstract one when each of its steps, from a state of the invariant, is an abstract
  step on the abstracted states or leaves them alone; then so is every history.
\<close>

locale refined_system = invariant_system init step inv
  for init :: "'s \<Rightarrow> bool" and step :: "'s \<Rightarrow> 's \<Rightarrow> bool" and inv :: "'s \<Rightarrow> bool" +
  fixes abstract :: "'s \<Rightarrow> 'a" and astep :: "'a \<Rightarrow> 'a \<Rightarrow> bool"
  assumes simulates: "inv s \<Longrightarrow> step s t \<Longrightarrow> abstract t = abstract s \<or> astep (abstract s) (abstract t)"
begin

lemma history_simulated:
  assumes "step\<^sup>*\<^sup>* s t" and "init s"
  shows "astep\<^sup>*\<^sup>* (abstract s) (abstract t)"
  using assms(1)
proof (induction rule: rtranclp_induct)
  case (step y z)
  then have "abstract z = abstract y \<or> astep (abstract y) (abstract z)"
    using simulates [OF reach_inv [OF assms(2) step.hyps(1)] step.hyps(2)] by simp
  with step.IH show ?case
    by (auto intro: rtranclp.rtrancl_into_rtrancl)
qed simp

end

end
