(* ===== verification/Job_Queue.thy ===== *)
theory Job_Queue
  imports Sql_Table "HOL-Library.Multiset" "HOL-Library.Product_Lexorder"
begin

text \<open>
  The crate \<open>queue\<close>: jobs in a Postgres table, claimed by workers.

  The table is a list of rows (\<open>JobRow\<close>); each SQL statement is an operation on it, and the two
  clocks the code reads (\<open>Utc::now()\<close> in the process, \<open>NOW()\<close> in the database) are arguments, in
  microseconds.  A statement of the driver may fail; the argument \<open>db\<close> of an operation gives the error of
  its n-th statement, if that fails.  The system at the end interleaves the operations of
  producers, workers and sweepers.
\<close>

section \<open>job.rs\<close>

type_synonym JobId = uuid

datatype JobStatus = Queued | Running | Done | Failed | Cancelled | Dead

fun job_status_as_str :: "JobStatus \<Rightarrow> string" where
  "job_status_as_str Queued = ''queued''"
| "job_status_as_str Running = ''running''"
| "job_status_as_str Done = ''done''"
| "job_status_as_str Failed = ''failed''"
| "job_status_as_str Cancelled = ''cancelled''"
| "job_status_as_str Dead = ''dead''"

definition is_terminal :: "JobStatus \<Rightarrow> bool" where
  "is_terminal s \<longleftrightarrow> s \<in> {Done, Cancelled, Dead}"

datatype UnknownJobStatus = UnknownJobStatus string

definition job_status_from_str :: "string \<Rightarrow> (UnknownJobStatus, JobStatus) result" where
  "job_status_from_str s =
     (if s = ''queued'' then Inr Queued
      else if s = ''running'' then Inr Running
      else if s = ''done'' then Inr Done
      else if s = ''failed'' then Inr Failed
      else if s = ''cancelled'' then Inr Cancelled
      else if s = ''dead'' then Inr Dead
      else Inl (UnknownJobStatus s))"

record 'p Job =
  job_id :: JobId
  job_payload :: 'p
  job_attempt :: "32 word"
  job_max_attempts :: "32 word"
  job_queue :: string
  job_org_id :: "uuid option"
  job_actor_id :: "uuid option"
  job_run_at :: int
  job_created_at :: int

record 'v JobMeta =
  m_id :: JobId
  m_queue :: string
  m_status :: JobStatus
  m_priority :: int
  m_attempts :: "32 word"
  m_max_attempts :: "32 word"
  m_run_at :: int
  m_locked_at :: "int option"
  m_locked_by :: "string option"
  m_last_error :: "string option"
  m_idempotency_key :: "string option"
  m_org_id :: "uuid option"
  m_actor_id :: "uuid option"
  m_created_at :: int
  m_started_at :: "int option"
  m_completed_at :: "int option"
  m_payload :: 'v

text \<open>\<open>2_u64.saturating_pow\<close>.\<close>

definition saturating_pow2 :: "32 word \<Rightarrow> 64 word" where
  "saturating_pow2 n = (if unat n < 64 then 2 ^ unat n else -1)"

definition backoff_seconds :: "32 word \<Rightarrow> 64 word" where
  "backoff_seconds attempt = min (saturating_pow2 attempt) 3600"

section \<open>error.rs\<close>

text \<open>The errors of the driver that the code produces itself or that the schema causes.\<close>

datatype db_error = RowNotFound | Decode UnknownJobStatus | UniqueViolation | DbOther string

datatype QueueError =
    Database db_error
  | Serialize string
  | JobNotFound uuid
  | WorkerChannelClosed

datatype WorkerError = Retriable string | Permanent string

section \<open>queue.rs\<close>

record EnqueueOptions =
  o_run_at :: "int option"
  o_priority :: int
  o_max_attempts :: "32 word option"
  o_idempotency_key :: "string option"
  o_org_id :: "uuid option"
  o_actor_id :: "uuid option"

record JobFilter =
  f_status :: "JobStatus option"
  f_org_id :: "uuid option"
  f_limit :: "int option"

record 'v JobRow =
  r_id :: uuid
  r_queue :: string
  r_status :: string
  r_priority :: int
  r_attempts :: int
  r_max_attempts :: int
  r_run_at :: int
  r_locked_at :: "int option"
  r_locked_by :: "string option"
  r_last_error :: "string option"
  r_idempotency_key :: "string option"
  r_org_id :: "uuid option"
  r_actor_id :: "uuid option"
  r_created_at :: int
  r_started_at :: "int option"
  r_completed_at :: "int option"
  r_payload :: 'v

definition i32_max :: int where
  "i32_max = 2147483647"

definition i32_from_u32 :: "32 word \<Rightarrow> int option" where
  "i32_from_u32 n = (if uint n \<le> i32_max then Some (uint n) else None)"

definition u32_from_i32_or_0 :: "int \<Rightarrow> 32 word" where
  "u32_from_i32_or_0 i = (if i < 0 then 0 else word_of_int i)"

text \<open>One underscore for each scalar value that is not alphanumeric.\<close>

definition notify_channel :: "string \<Rightarrow> string" where
  "notify_channel queue =
     ''ferrlabs_queue_''
     @ map (\<lambda>c. if is_ascii_alphanumeric c then c else CHR ''_'')
         (filter (\<lambda>c. \<not> is_cont_byte c) queue)"

text \<open>
  \<open>INSERT INTO jobs ... ON CONFLICT (queue, idempotency_key) WHERE idempotency_key IS NOT NULL DO
  NOTHING RETURNING id\<close>, with the column defaults of the schema and the primary key.
\<close>

definition new_row ::
  "uuid \<Rightarrow> int \<Rightarrow> string \<Rightarrow> 'v \<Rightarrow> int \<Rightarrow> int \<Rightarrow> int \<Rightarrow> EnqueueOptions \<Rightarrow> 'v JobRow" where
  "new_row jid db_now queue payload priority max_attempts run_at opts =
     \<lparr>r_id = jid, r_queue = queue, r_status = ''queued'', r_priority = priority, r_attempts = 0,
      r_max_attempts = max_attempts, r_run_at = run_at, r_locked_at = None, r_locked_by = None,
      r_last_error = None, r_idempotency_key = o_idempotency_key opts, r_org_id = o_org_id opts,
      r_actor_id = o_actor_id opts, r_created_at = db_now, r_started_at = None,
      r_completed_at = None, r_payload = payload\<rparr>"

definition same_key :: "string \<Rightarrow> string option \<Rightarrow> 'v JobRow \<Rightarrow> bool" where
  "same_key queue key r \<longleftrightarrow> key \<noteq> None \<and> r_queue r = queue \<and> r_idempotency_key r = key"

definition insert_job ::
  "'v JobRow \<Rightarrow> 'v JobRow list \<Rightarrow> (db_error, uuid option) result \<times> 'v JobRow list" where
  "insert_job row jobs =
     (if list_ex (same_key (r_queue row) (r_idempotency_key row)) jobs then (Inr None, jobs)
      else if list_ex (\<lambda>r. r_id r = r_id row) jobs then (Inl UniqueViolation, jobs)
      else (Inr (Some (r_id row)), jobs @ [row]))"

text \<open>
  The \<open>pg_notify\<close> at the end does not touch the table and its failure is ignored; whom it wakes is the
  listener's part (theory \<open>Worker_Loop\<close>).
\<close>

definition enqueue ::
  "('p \<Rightarrow> (string, 'v) result) \<Rightarrow> string \<Rightarrow> int \<Rightarrow> int \<Rightarrow> uuid \<Rightarrow> (nat \<Rightarrow> db_error option)
     \<Rightarrow> 'p \<Rightarrow> EnqueueOptions \<Rightarrow> 'v JobRow list \<Rightarrow> (QueueError, JobId) result \<times> 'v JobRow list" where
  "enqueue to_value queue utc_now db_now fresh db payload opts jobs =
     (case to_value payload of
        Inl e \<Rightarrow> (Inl (Serialize e), jobs)
      | Inr payload_json \<Rightarrow>
          (let run_at = unwrap_or utc_now (o_run_at opts);
               max_attempts = unwrap_or 3 (i32_from_u32 (unwrap_or 3 (o_max_attempts opts)));
               row = new_row fresh db_now queue payload_json (o_priority opts) max_attempts run_at opts
           in case db 0 of
                Some e \<Rightarrow> (Inl (Database e), jobs)
              | None \<Rightarrow>
                  (case insert_job row jobs of
                     (Inl e, jobs') \<Rightarrow> (Inl (Database e), jobs')
                   | (Inr (Some i), jobs') \<Rightarrow> (Inr i, jobs')
                   | (Inr None, jobs') \<Rightarrow>
                       (case o_idempotency_key opts of
                          None \<Rightarrow> (Inl (Database RowNotFound), jobs')
                        | Some key \<Rightarrow>
                            (case db 1 of
                               Some e \<Rightarrow> (Inl (Database e), jobs')
                             | None \<Rightarrow>
                                 (case fetch_optional (select_where (same_key queue (Some key)) jobs') of
                                    None \<Rightarrow> (Inl (Database RowNotFound), jobs')
                                  | Some r \<Rightarrow> (Inr (r_id r), jobs')))))))"

definition cancellable :: "JobId \<Rightarrow> string \<Rightarrow> 'v JobRow \<Rightarrow> bool" where
  "cancellable jid queue r \<longleftrightarrow>
     r_id r = jid \<and> r_queue r = queue \<and> r_status r \<notin> {''done'', ''cancelled'', ''dead''}"

definition cancel ::
  "string \<Rightarrow> int \<Rightarrow> (nat \<Rightarrow> db_error option) \<Rightarrow> JobId \<Rightarrow> 'v JobRow list
     \<Rightarrow> (QueueError, unit) result \<times> 'v JobRow list" where
  "cancel queue db_now db jid jobs =
     (case db 0 of
        Some e \<Rightarrow> (Inl (Database e), jobs)
      | None \<Rightarrow>
          (let jobs' = update_where (cancellable jid queue)
                 (\<lambda>r. r\<lparr>r_status := ''cancelled'', r_completed_at := Some db_now\<rparr>) jobs
           in if rows_affected (cancellable jid queue) jobs = 0 then (Inl (JobNotFound jid), jobs')
              else (Inr (), jobs')))"

definition into_meta :: "'v JobRow \<Rightarrow> (QueueError, 'v JobMeta) result" where
  "into_meta r =
     try_bind (map_err (\<lambda>e. Database (Decode e)) (job_status_from_str (r_status r))) (\<lambda>status.
       Inr \<lparr>m_id = r_id r, m_queue = r_queue r, m_status = status, m_priority = r_priority r,
            m_attempts = u32_from_i32_or_0 (r_attempts r),
            m_max_attempts = u32_from_i32_or_0 (r_max_attempts r), m_run_at = r_run_at r,
            m_locked_at = r_locked_at r, m_locked_by = r_locked_by r,
            m_last_error = r_last_error r, m_idempotency_key = r_idempotency_key r,
            m_org_id = r_org_id r, m_actor_id = r_actor_id r, m_created_at = r_created_at r,
            m_started_at = r_started_at r, m_completed_at = r_completed_at r,
            m_payload = r_payload r\<rparr>)"

definition filter_matches :: "string \<Rightarrow> JobFilter \<Rightarrow> 'v JobRow \<Rightarrow> bool" where
  "filter_matches queue filt r \<longleftrightarrow>
     r_queue r = queue \<and>
     (f_status filt = None \<or> map_option job_status_as_str (f_status filt) = Some (r_status r)) \<and>
     (f_org_id filt = None \<or> r_org_id r = f_org_id filt)"

definition list_jobs ::
  "string \<Rightarrow> (nat \<Rightarrow> db_error option) \<Rightarrow> JobFilter \<Rightarrow> 'v JobRow list
     \<Rightarrow> (QueueError, 'v JobMeta list) result" where
  "list_jobs queue db filt jobs =
     (let limit = max 1 (min 1000 (unwrap_or 100 (f_limit filt)))
      in case db 0 of
           Some e \<Rightarrow> Inl (Database e)
         | None \<Rightarrow>
             collect_results (map into_meta
               (take (nat limit) (sort_key (\<lambda>r. - r_created_at r)
                  (select_where (filter_matches queue filt) jobs)))))"

definition get_job ::
  "string \<Rightarrow> (nat \<Rightarrow> db_error option) \<Rightarrow> JobId \<Rightarrow> 'v JobRow list
     \<Rightarrow> (QueueError, 'v JobMeta) result" where
  "get_job queue db jid jobs =
     (case db 0 of
        Some e \<Rightarrow> Inl (Database e)
      | None \<Rightarrow>
          try_bind (ok_or (JobNotFound jid)
            (fetch_optional (select_where (\<lambda>r. r_id r = jid \<and> r_queue r = queue) jobs))) into_meta)"

section \<open>worker.rs\<close>

record 'v Claimed =
  c_id :: uuid
  c_payload :: 'v
  c_attempts :: int
  c_max_attempts :: int
  c_org_id :: "uuid option"
  c_actor_id :: "uuid option"
  c_run_at :: int
  c_created_at :: int

text \<open>The rows the subquery of the claim may choose, and their order.\<close>

definition claimable :: "string \<Rightarrow> int \<Rightarrow> 'v JobRow \<Rightarrow> bool" where
  "claimable queue db_now r \<longleftrightarrow>
     r_queue r = queue \<and> r_status r \<in> {''queued'', ''failed''} \<and> r_run_at r \<le> db_now \<and>
     r_attempts r < r_max_attempts r"

definition claim_order :: "'v JobRow \<Rightarrow> int \<times> int" where
  "claim_order r = (- r_priority r, r_run_at r)"

definition claimed_row :: "string \<Rightarrow> int \<Rightarrow> 'v JobRow \<Rightarrow> 'v JobRow" where
  "claimed_row worker_id db_now r =
     r\<lparr>r_status := ''running'', r_locked_at := Some db_now, r_locked_by := Some worker_id,
       r_attempts := r_attempts r + 1,
       r_started_at := (case r_started_at r of Some t \<Rightarrow> Some t | None \<Rightarrow> Some db_now)\<rparr>"

definition returning_claimed :: "'v JobRow \<Rightarrow> 'v Claimed" where
  "returning_claimed r =
     \<lparr>c_id = r_id r, c_payload = r_payload r, c_attempts = r_attempts r,
      c_max_attempts = r_max_attempts r, c_org_id = r_org_id r, c_actor_id = r_actor_id r,
      c_run_at = r_run_at r, c_created_at = r_created_at r\<rparr>"

text \<open>
  \<open>locked\<close> tells which rows another transaction holds a row lock on: \<open>FOR UPDATE SKIP LOCKED\<close> passes
  them over.  Rows that tie in the order are taken in the order of the table, which is arbitrary.
\<close>

definition claim_one ::
  "string \<Rightarrow> string \<Rightarrow> int \<Rightarrow> (uuid \<Rightarrow> bool) \<Rightarrow> (nat \<Rightarrow> db_error option) \<Rightarrow> 'v JobRow list
     \<Rightarrow> 'v Claimed option \<times> 'v JobRow list" where
  "claim_one queue worker_id db_now locked db jobs =
     (case db 0 of
        Some e \<Rightarrow> (None, jobs)
      | None \<Rightarrow>
          (case fetch_optional (sort_key claim_order
                  (select_where (\<lambda>r. claimable queue db_now r \<and> \<not> locked (r_id r)) jobs)) of
             None \<Rightarrow> (None, jobs)
           | Some r \<Rightarrow>
               (Some (returning_claimed (claimed_row worker_id db_now r)),
                update_where (\<lambda>q. r_id q = r_id r) (claimed_row worker_id db_now) jobs)))"

definition mark_done ::
  "int \<Rightarrow> (nat \<Rightarrow> db_error option) \<Rightarrow> uuid \<Rightarrow> 'v JobRow list \<Rightarrow> 'v JobRow list" where
  "mark_done db_now db jid jobs =
     (if db 0 \<noteq> None then jobs
      else update_where (\<lambda>r. r_id r = jid)
             (\<lambda>r. r\<lparr>r_status := ''done'', r_completed_at := Some db_now, r_last_error := None,
                    r_locked_at := None, r_locked_by := None\<rparr>) jobs)"

definition mark_dead ::
  "int \<Rightarrow> (nat \<Rightarrow> db_error option) \<Rightarrow> uuid \<Rightarrow> string \<Rightarrow> 'v JobRow list \<Rightarrow> 'v JobRow list" where
  "mark_dead db_now db jid err_msg jobs =
     (if db 0 \<noteq> None then jobs
      else update_where (\<lambda>r. r_id r = jid)
             (\<lambda>r. r\<lparr>r_status := ''dead'', r_completed_at := Some db_now,
                    r_last_error := Some err_msg, r_locked_at := None, r_locked_by := None\<rparr>) jobs)"

definition mark_failed_for_retry ::
  "(nat \<Rightarrow> db_error option) \<Rightarrow> uuid \<Rightarrow> string \<Rightarrow> int \<Rightarrow> 'v JobRow list \<Rightarrow> 'v JobRow list" where
  "mark_failed_for_retry db jid err_msg next_run jobs =
     (if db 0 \<noteq> None then jobs
      else update_where (\<lambda>r. r_id r = jid)
             (\<lambda>r. r\<lparr>r_status := ''failed'', r_last_error := Some err_msg, r_run_at := next_run,
                    r_locked_at := None, r_locked_by := None\<rparr>) jobs)"

text \<open>Microseconds in a number of seconds.\<close>

definition seconds :: "int \<Rightarrow> int" where
  "seconds n = n * 1000000"

definition retry_or_bury ::
  "int \<Rightarrow> int \<Rightarrow> (nat \<Rightarrow> db_error option) \<Rightarrow> uuid \<Rightarrow> 32 word \<Rightarrow> int \<Rightarrow> int \<Rightarrow> string
     \<Rightarrow> 'v JobRow list \<Rightarrow> 'v JobRow list" where
  "retry_or_bury utc_now db_now db jid attempt attempts max_attempts err_msg jobs =
     (if attempts \<ge> max_attempts then mark_dead db_now db jid err_msg jobs
      else (let delay = backoff_seconds attempt;
                next_run = utc_now + seconds (uint delay)
            in mark_failed_for_retry db jid err_msg next_run jobs))"

text \<open>
  \<open>from_value\<close> decodes the payload and \<open>handle\<close> is the consumer's handler.  The only statement of the
  function is its last action, so \<open>jobs\<close> is the table at that moment.
\<close>

definition process_claimed ::
  "('v \<Rightarrow> (string, 'p) result) \<Rightarrow> ('p Job \<Rightarrow> (WorkerError, unit) result) \<Rightarrow> string \<Rightarrow> int \<Rightarrow> int
     \<Rightarrow> (nat \<Rightarrow> db_error option) \<Rightarrow> 'v Claimed \<Rightarrow> 'v JobRow list \<Rightarrow> 'v JobRow list" where
  "process_claimed from_value handle queue utc_now db_now db claimed jobs =
     (case from_value (c_payload claimed) of
        Inl err \<Rightarrow>
          mark_dead db_now db (c_id claimed) (''payload deserialization failed: '' @ err) jobs
      | Inr payload \<Rightarrow>
          (let job = \<lparr>job_id = c_id claimed, job_payload = payload,
                      job_attempt = u32_from_i32_or_0 (c_attempts claimed),
                      job_max_attempts = u32_from_i32_or_0 (c_max_attempts claimed),
                      job_queue = queue, job_org_id = c_org_id claimed,
                      job_actor_id = c_actor_id claimed, job_run_at = c_run_at claimed,
                      job_created_at = c_created_at claimed\<rparr>
           in case handle job of
                Inr _ \<Rightarrow> mark_done db_now db (c_id claimed) jobs
              | Inl (Permanent err) \<Rightarrow> mark_dead db_now db (c_id claimed) err jobs
              | Inl (Retriable err) \<Rightarrow>
                  retry_or_bury utc_now db_now db (c_id claimed) (job_attempt job)
                    (c_attempts claimed) (c_max_attempts claimed) err jobs))"

definition sweep_stale :: "int \<Rightarrow> 'v JobRow \<Rightarrow> bool" where
  "sweep_stale cutoff r \<longleftrightarrow>
     r_status r = ''running'' \<and> (case r_locked_at r of None \<Rightarrow> False | Some t \<Rightarrow> t < cutoff)"

text \<open>The dates and durations of \<open>chrono\<close> panic outside their range; these are the values within it.\<close>

definition sweeper_cutoff :: "int \<Rightarrow> nat \<Rightarrow> int" where
  "sweeper_cutoff utc_now stale_after = utc_now - seconds (min (int stale_after) i64_max)"

text \<open>One round of the sweeper's loop.\<close>

definition sweep ::
  "int \<Rightarrow> nat \<Rightarrow> (nat \<Rightarrow> db_error option) \<Rightarrow> 'v JobRow list \<Rightarrow> 'v JobRow list" where
  "sweep utc_now stale_after db jobs =
     (if db 0 \<noteq> None then jobs
      else update_where (sweep_stale (sweeper_cutoff utc_now stale_after))
             (\<lambda>r. r\<lparr>r_status := ''queued'', r_locked_at := None, r_locked_by := None\<rparr>) jobs)"

end
