(* ===== verification/Job_Queue_Props.thy ===== *)
theory Job_Queue_Props
  imports Job_Queue
begin

text \<open>
  The queue as a system: producers, workers that may crash, and sweepers interleave their statements
  on one table.  The theory proves the invariant of the table, what a claim takes, that
  enqueueing under a key is idempotent over any later history, the bound on the number of times a
  handler runs, and what terminal means.
\<close>

section \<open>Wire form of the status\<close>

interpretation job_status_wire:
  wire_enum job_status_as_str "\<lambda>s. case job_status_from_str s of Inr v \<Rightarrow> Some v | Inl _ \<Rightarrow> None"
    "[Queued, Running, Done, Failed, Cancelled, Dead]"
proof
  fix v :: JobStatus
  show "(case job_status_from_str (job_status_as_str v) of Inr v \<Rightarrow> Some v | Inl _ \<Rightarrow> None) = Some v"
    by (cases v) (simp_all add: job_status_from_str_def)
  show "v \<in> set [Queued, Running, Done, Failed, Cancelled, Dead]"
    by (cases v) simp_all
next
  fix s v
  assume "(case job_status_from_str s of Inr v \<Rightarrow> Some v | Inl _ \<Rightarrow> None) = Some v"
  then show "s = job_status_as_str v"
    by (auto simp: job_status_from_str_def split: if_splits)
qed

section \<open>Backoff\<close>

text \<open>
  The delay before the next attempt is \<open>2 ^ attempt\<close> seconds, and one hour from the twelfth
  attempt on, for every 32-bit attempt number: the power saturates instead of overflowing.
\<close>

theorem backoff_value: "unat (backoff_seconds attempt) = min (2 ^ unat attempt) 3600"
proof (cases "unat attempt < 64")
  case True
  then have "(2::nat) ^ unat attempt < 2 ^ 64"
    by (rule power_strict_increasing) simp
  then have "unat (of_nat (2 ^ unat attempt) :: 64 word) = 2 ^ unat attempt"
    unfolding unat_of_nat by simp
  then have "unat ((2::64 word) ^ unat attempt) = 2 ^ unat attempt"
    by simp
  with True show ?thesis
    by (auto simp: backoff_seconds_def saturating_pow2_def min_def word_le_nat_alt)
next
  case False
  then have "(2::nat) ^ 64 \<le> 2 ^ unat attempt"
    by (intro power_increasing) simp_all
  then have "min (2 ^ unat attempt) 3600 = (3600::nat)"
    by simp
  moreover have "\<not> (-1::64 word) \<le> 3600"
    by code_simp
  then have "backoff_seconds attempt = 3600"
    using False by (simp add: backoff_seconds_def saturating_pow2_def min_def)
  ultimately show ?thesis
    by simp
qed

section \<open>The table\<close>

text \<open>What every row satisfies, and the two uniqueness constraints of the schema.\<close>

definition row_ok :: "'v JobRow \<Rightarrow> bool" where
  "row_ok r \<longleftrightarrow>
     r_status r \<in> {''queued'', ''running'', ''done'', ''failed'', ''cancelled'', ''dead''} \<and>
     0 \<le> r_attempts r \<and> r_attempts r \<le> r_max_attempts r \<and> r_max_attempts r \<le> i32_max \<and>
     (r_locked_at r = None \<longleftrightarrow> r_locked_by r = None) \<and>
     (r_status r = ''running'' \<longrightarrow> r_locked_at r \<noteq> None) \<and>
     (r_status r \<in> {''queued'', ''failed'', ''done'', ''dead''} \<longrightarrow> r_locked_at r = None) \<and>
     (r_status r \<in> {''done'', ''cancelled'', ''dead''} \<longrightarrow> r_completed_at r \<noteq> None) \<and>
     (0 < r_attempts r \<longrightarrow> r_started_at r \<noteq> None)"

definition keyed :: "'v JobRow list \<Rightarrow> (string \<times> string option) list" where
  "keyed jobs =
     map (\<lambda>r. (r_queue r, r_idempotency_key r)) (filter (\<lambda>r. r_idempotency_key r \<noteq> None) jobs)"

definition jobs_ok :: "'v JobRow list \<Rightarrow> bool" where
  "jobs_ok jobs \<longleftrightarrow>
     distinct (map r_id jobs) \<and> distinct (keyed jobs) \<and> (\<forall>r\<in>set jobs. row_ok r)"

text \<open>The columns that identify a row and that no statement after the insert writes.\<close>

definition keeps_identity :: "('v JobRow \<Rightarrow> 'v JobRow) \<Rightarrow> bool" where
  "keeps_identity f \<longleftrightarrow>
     (\<forall>r. r_id (f r) = r_id r \<and> r_queue (f r) = r_queue r \<and>
          r_idempotency_key (f r) = r_idempotency_key r \<and> r_max_attempts (f r) = r_max_attempts r)"

lemma keyed_simps [simp]:
  "keyed [] = []"
  "keyed (r # jobs) =
     (if r_idempotency_key r = None then keyed jobs
      else (r_queue r, r_idempotency_key r) # keyed jobs)"
  "keyed (jobs @ js) = keyed jobs @ keyed js"
  by (simp_all add: keyed_def)

lemma set_keyed:
  "(q, k) \<in> set (keyed jobs) \<longleftrightarrow>
   k \<noteq> None \<and> (\<exists>r\<in>set jobs. r_queue r = q \<and> r_idempotency_key r = k)"
  by (auto simp: keyed_def image_iff)

lemma keyed_update: "keeps_identity f \<Longrightarrow> keyed (update_where P f jobs) = keyed jobs"
  by (induction jobs) (simp_all add: keeps_identity_def)

lemma ids_update: "keeps_identity f \<Longrightarrow> map r_id (update_where P f jobs) = map r_id jobs"
  by (simp add: map_update_where keeps_identity_def)

lemma jobs_ok_update:
  assumes "jobs_ok jobs" and "keeps_identity f"
    and "\<And>r. r \<in> set jobs \<Longrightarrow> row_ok r \<Longrightarrow> P r \<Longrightarrow> row_ok (f r)"
  shows "jobs_ok (update_where P f jobs)"
  using assms
  by (auto simp: jobs_ok_def ids_update keyed_update set_update_where)

lemma keyed_unique:
  assumes "distinct (keyed jobs)" and "r \<in> set jobs" and "q \<in> set jobs"
    and "r_queue r = r_queue q" and "r_idempotency_key r = r_idempotency_key q"
    and "r_idempotency_key r \<noteq> None"
  shows "r = q"
  using assms
proof (induction jobs)
  case (Cons a jobs)
  show ?case
  proof (cases "r_idempotency_key a = None")
    case False
    with Cons.prems(1) have "\<not> (\<exists>x\<in>set jobs. r_queue x = r_queue a \<and> r_idempotency_key x = r_idempotency_key a)"
      by (auto simp: set_keyed)
    with Cons False show ?thesis
      by auto
  qed (use Cons in auto)
qed simp

section \<open>The operations keep the table well formed\<close>

text \<open>The row updates of the statements.\<close>

lemmas row_updates = claimed_row_def keeps_identity_def

lemma i32_from_u32_range: "i32_from_u32 n = Some i \<Longrightarrow> 0 \<le> i \<and> i \<le> i32_max"
  by (auto simp: i32_from_u32_def split: if_splits)

lemma enqueue_max_attempts:
  "0 \<le> unwrap_or 3 (i32_from_u32 n) \<and> unwrap_or 3 (i32_from_u32 n) \<le> i32_max"
  by (cases "i32_from_u32 n") (auto simp: unwrap_or_def i32_max_def dest: i32_from_u32_range)

lemma insert_job_cases:
  "insert_job row jobs = (res, jobs') \<Longrightarrow> jobs' = jobs \<or>
     (jobs' = jobs @ [row] \<and> res = Inr (Some (r_id row)) \<and> r_id row \<notin> r_id ` set jobs \<and>
      (\<forall>r\<in>set jobs. \<not> same_key (r_queue row) (r_idempotency_key row) r))"
  by (auto simp: insert_job_def list_ex_iff split: if_splits)

lemma insert_job_ok:
  assumes "jobs_ok jobs" and "row_ok row" and "insert_job row jobs = (res, jobs')"
  shows "jobs_ok jobs'"
  using insert_job_cases [OF assms(3)]
proof (elim disjE conjE)
  assume new: "jobs' = jobs @ [row]" "r_id row \<notin> r_id ` set jobs"
    "\<forall>r\<in>set jobs. \<not> same_key (r_queue row) (r_idempotency_key row) r"
  then have "(r_queue row, r_idempotency_key row) \<notin> set (keyed jobs)"
    by (auto simp: set_keyed same_key_def)
  with new assms(1,2) show ?thesis
    by (auto simp: jobs_ok_def)
qed (use assms in simp)

text \<open>A new row as \<open>enqueue\<close> builds it.\<close>

definition enqueue_row ::
  "string \<Rightarrow> int \<Rightarrow> int \<Rightarrow> uuid \<Rightarrow> 'v \<Rightarrow> EnqueueOptions \<Rightarrow> 'v JobRow" where
  "enqueue_row queue utc_now db_now fresh payload opts =
     new_row fresh db_now queue payload (o_priority opts)
       (unwrap_or 3 (i32_from_u32 (unwrap_or 3 (o_max_attempts opts))))
       (unwrap_or utc_now (o_run_at opts)) opts"

lemma enqueue_row_ok: "row_ok (enqueue_row queue utc_now db_now fresh payload opts)"
  using enqueue_max_attempts by (simp add: enqueue_row_def new_row_def row_ok_def)

lemma enqueue_cases:
  assumes "enqueue to_value queue utc_now db_now fresh db payload opts jobs = (res, jobs')"
  shows "jobs' = jobs \<or>
    (\<exists>v ins. to_value payload = Inr v \<and>
       insert_job (enqueue_row queue utc_now db_now fresh v opts) jobs = (ins, jobs'))"
  using assms
  by (auto simp: enqueue_def enqueue_row_def Let_def split: sum.splits option.splits prod.splits)

lemma enqueue_ok:
  "jobs_ok jobs \<Longrightarrow>
   enqueue to_value queue utc_now db_now fresh db payload opts jobs = (res, jobs') \<Longrightarrow> jobs_ok jobs'"
  by (drule enqueue_cases) (auto intro: insert_job_ok enqueue_row_ok)

lemma cancel_ok:
  "jobs_ok jobs \<Longrightarrow> cancel queue db_now db jid jobs = (res, jobs') \<Longrightarrow> jobs_ok jobs'"
  by (auto simp: cancel_def Let_def row_updates row_ok_def cancellable_def
      intro!: jobs_ok_update split: option.splits if_splits)

text \<open>What a claim does: nothing, or it takes one row that no claimable unlocked row precedes.\<close>

lemma sort_key_hd_least:
  assumes "sort_key f xs = y # ys"
  shows "y \<in> set xs \<and> (\<forall>x\<in>set xs. f y \<le> f x)"
proof -
  have "set xs = set (y # ys)" "sorted (map f (y # ys))"
    using assms [symmetric] by (simp_all only: set_sort sorted_sort_key)
  then show ?thesis
    by auto
qed

lemma claim_cases:
  assumes "claim_one queue worker_id db_now locked db jobs = (Some c, jobs')"
  obtains r where "r \<in> set jobs" and "claimable queue db_now r" and "\<not> locked (r_id r)"
    and "\<forall>q\<in>set jobs. claimable queue db_now q \<longrightarrow> \<not> locked (r_id q) \<longrightarrow> claim_order r \<le> claim_order q"
    and "c = returning_claimed (claimed_row worker_id db_now r)"
    and "jobs' = update_where (\<lambda>q. r_id q = r_id r) (claimed_row worker_id db_now) jobs"
    and "db 0 = None"
proof -
  let ?cands = "select_where (\<lambda>r. claimable queue db_now r \<and> \<not> locked (r_id r)) jobs"
  obtain r rs where sorted: "sort_key claim_order ?cands = r # rs" and db: "db 0 = None"
    and c: "c = returning_claimed (claimed_row worker_id db_now r)"
    and jobs': "jobs' = update_where (\<lambda>q. r_id q = r_id r) (claimed_row worker_id db_now) jobs"
    using assms
    by (auto simp: claim_one_def fetch_optional_def split: option.splits list.splits)
  from sort_key_hd_least [OF sorted] show thesis
    using c jobs' db by (intro that [of r]) (auto simp: select_where_def)
qed

lemma claimed_row_identity: "keeps_identity (claimed_row worker_id db_now)"
  by (simp add: row_updates)

lemma distinct_id_eq:
  "distinct (map r_id jobs) \<Longrightarrow> r \<in> set jobs \<Longrightarrow> q \<in> set jobs \<Longrightarrow> r_id r = r_id q \<Longrightarrow> r = q"
  by (auto simp: distinct_map dest: inj_onD)

lemma claim_ok:
  assumes ok: "jobs_ok jobs" and "claim_one queue worker_id db_now locked db jobs = (Some c, jobs')"
  shows "jobs_ok jobs'"
  using assms(2)
proof (rule claim_cases)
  fix r
  assume r: "r \<in> set jobs" "claimable queue db_now r"
    and jobs': "jobs' = update_where (\<lambda>q. r_id q = r_id r) (claimed_row worker_id db_now) jobs"
  show ?thesis
    unfolding jobs'
  proof (rule jobs_ok_update [OF ok claimed_row_identity])
    fix q
    assume q: "q \<in> set jobs" "row_ok q" "r_id q = r_id r"
    then have "q = r"
      using ok r(1) by (auto simp: jobs_ok_def intro: distinct_id_eq)
    with q r(2) show "row_ok (claimed_row worker_id db_now q)"
      by (auto simp: row_ok_def claimed_row_def claimable_def split: option.splits)
  qed
qed

text \<open>The last statement of a worker rewrites the rows of one id, without touching attempts.\<close>

definition settles :: "('v JobRow \<Rightarrow> 'v JobRow) \<Rightarrow> bool" where
  "settles f \<longleftrightarrow> keeps_identity f \<and> (\<forall>r. r_attempts (f r) = r_attempts r) \<and>
     (\<forall>r. row_ok r \<longrightarrow> row_ok (f r))"

definition settled_by :: "uuid \<Rightarrow> 'v JobRow list \<Rightarrow> 'v JobRow list \<Rightarrow> bool" where
  "settled_by jid jobs jobs' \<longleftrightarrow>
     jobs' = jobs \<or> (\<exists>f. settles f \<and> jobs' = update_where (\<lambda>r. r_id r = jid) f jobs)"

lemma settled_byI: "settles f \<Longrightarrow> settled_by jid jobs (update_where (\<lambda>r. r_id r = jid) f jobs)"
  by (auto simp: settled_by_def)

lemma settled_by_refl: "settled_by jid jobs jobs"
  by (simp add: settled_by_def)

lemma mark_settles:
  "settled_by jid jobs (mark_done db_now db jid jobs)"
  "settled_by jid jobs (mark_dead db_now db jid err_msg jobs)"
  "settled_by jid jobs (mark_failed_for_retry db jid err_msg next_run jobs)"
  unfolding mark_done_def mark_dead_def mark_failed_for_retry_def
  by (auto intro!: settled_by_refl settled_byI
      simp: settles_def keeps_identity_def row_ok_def simp del: not_None_eq)

lemma process_claimed_settles:
  "settled_by (c_id claimed) jobs
     (process_claimed from_value handle queue utc_now db_now db claimed jobs)"
  by (auto simp: process_claimed_def retry_or_bury_def Let_def intro: mark_settles
      split: sum.split WorkerError.split)

lemma process_claimed_ok:
  "jobs_ok jobs \<Longrightarrow> jobs_ok (process_claimed from_value handle queue utc_now db_now db claimed jobs)"
  using process_claimed_settles [of claimed jobs from_value handle queue utc_now db_now db]
  by (auto intro!: jobs_ok_update simp: settles_def settled_by_def)

lemma sweep_ok: "jobs_ok jobs \<Longrightarrow> jobs_ok (sweep utc_now stale_after db jobs)"
  by (auto simp: sweep_def row_updates row_ok_def sweep_stale_def intro!: jobs_ok_update)

section \<open>The system\<close>

text \<open>
  \<open>inflight\<close> are the claims a worker is running the handler of.  \<open>claim_log\<close> is a history of the ids
  handed to a handler; no operation reads it.
\<close>

record 'v queue_sys =
  clock :: int
  jobs :: "'v JobRow list"
  inflight :: "'v Claimed list"
  claim_log :: "uuid list"

definition queue_init :: "'v queue_sys \<Rightarrow> bool" where
  "queue_init s \<longleftrightarrow> jobs s = [] \<and> inflight s = [] \<and> claim_log s = []"

inductive queue_step ::
  "('p \<Rightarrow> (string, 'v) result) \<Rightarrow> ('v \<Rightarrow> (string, 'p) result) \<Rightarrow> 'v queue_sys \<Rightarrow> 'v queue_sys \<Rightarrow> bool"
  for to_value :: "'p \<Rightarrow> (string, 'v) result" and from_value :: "'v \<Rightarrow> (string, 'p) result"
where
  Tick: "clock s \<le> now \<Longrightarrow> queue_step to_value from_value s (s\<lparr>clock := now\<rparr>)"
| Enqueue: "enqueue to_value queue (clock s) (clock s) fresh db payload opts (jobs s) = (res, js)
    \<Longrightarrow> queue_step to_value from_value s (s\<lparr>jobs := js\<rparr>)"
| Cancel: "cancel queue (clock s) db jid (jobs s) = (res, js)
    \<Longrightarrow> queue_step to_value from_value s (s\<lparr>jobs := js\<rparr>)"
| Claim: "claim_one queue worker_id (clock s) locked db (jobs s) = (Some c, js)
    \<Longrightarrow> queue_step to_value from_value s
          (s\<lparr>jobs := js, inflight := c # inflight s, claim_log := c_id c # claim_log s\<rparr>)"
| Settle: "inflight s = xs @ c # ys
    \<Longrightarrow> queue_step to_value from_value s
          (s\<lparr>jobs := process_claimed from_value handle queue (clock s) (clock s) db c (jobs s),
             inflight := xs @ ys\<rparr>)"
| Crash: "inflight s = xs @ c # ys
    \<Longrightarrow> queue_step to_value from_value s (s\<lparr>inflight := xs @ ys\<rparr>)"
| Sweep: "queue_step to_value from_value s (s\<lparr>jobs := sweep (clock s) stale_after db (jobs s)\<rparr>)"

text \<open>The columns that identify a row.\<close>

definition same_job :: "'v JobRow \<Rightarrow> 'v JobRow \<Rightarrow> bool" where
  "same_job r q \<longleftrightarrow> r_id q = r_id r \<and> r_queue q = r_queue r \<and>
     r_idempotency_key q = r_idempotency_key r \<and> r_max_attempts q = r_max_attempts r"

lemma keeps_identity_same_job: "keeps_identity f \<Longrightarrow> same_job r (f r)"
  by (simp add: keeps_identity_def same_job_def)

text \<open>The history of one row: what one step of the system can do to it.\<close>

inductive row_step :: "'v queue_sys \<Rightarrow> 'v queue_sys \<Rightarrow> 'v JobRow \<Rightarrow> 'v JobRow \<Rightarrow> bool"
  for s t :: "'v queue_sys"
where
  same: "set (inflight t) \<subseteq> set (inflight s) \<or>
         (\<exists>c. inflight t = c # inflight s \<and> c_id c \<noteq> r_id r) \<Longrightarrow> row_step s t r r"
| cancelled: "cancellable (r_id r) (r_queue r) r \<Longrightarrow> inflight t = inflight s \<Longrightarrow>
    row_step s t r (r\<lparr>r_status := ''cancelled'', r_completed_at := Some now\<rparr>)"
| claimed: "claimable (r_queue r) now r \<Longrightarrow> inflight t = c # inflight s \<Longrightarrow>
    row_step s t r (claimed_row worker_id now r)"
| settled: "c \<in> set (inflight s) \<Longrightarrow> c_id c = r_id r \<Longrightarrow> settles f \<Longrightarrow> row_step s t r (f r)"
| swept: "r_status r = ''running'' \<Longrightarrow> inflight t = inflight s \<Longrightarrow>
    row_step s t r (r\<lparr>r_status := ''queued'', r_locked_at := None, r_locked_by := None\<rparr>)"

inductive_cases row_stepE: "row_step s t r q"

lemma row_step_same_job: "row_step s t r q \<Longrightarrow> same_job r q"
  by (erule row_stepE)
    (auto simp: same_job_def claimed_row_def settles_def keeps_identity_def)

lemma same_rowI:
  "r \<in> set (jobs t) \<Longrightarrow> set (inflight t) \<subseteq> set (inflight s) \<Longrightarrow> \<exists>q\<in>set (jobs t). row_step s t r q"
  by (blast intro: row_step.same)

lemma cancel_row:
  assumes "cancel queue now db jid (jobs s) = (res, js)" and r: "r \<in> set (jobs s)"
  shows "\<exists>q\<in>set js. row_step s (s\<lparr>jobs := js\<rparr>) r q"
proof (cases "db 0 = None \<and> cancellable jid queue r")
  case True
  then have c: "cancellable (r_id r) (r_queue r) r"
    by (simp add: cancellable_def)
  from True assms have "r\<lparr>r_status := ''cancelled'', r_completed_at := Some now\<rparr> \<in> set js"
    using update_where_row [OF r, of "cancellable jid queue"
        "\<lambda>r. r\<lparr>r_status := ''cancelled'', r_completed_at := Some now\<rparr>"]
    by (auto simp: cancel_def Let_def split: if_splits)
  with c show ?thesis
    by (auto intro!: bexI row_step.cancelled)
next
  case False
  with assms have "r \<in> set js"
    using update_where_row [OF r, of "cancellable jid queue"
        "\<lambda>r. r\<lparr>r_status := ''cancelled'', r_completed_at := Some now\<rparr>"]
    by (auto simp: cancel_def Let_def split: if_splits option.splits)
  then show ?thesis
    using same_rowI [of r "s\<lparr>jobs := js\<rparr>" s] by simp
qed

lemma claim_row:
  assumes "claim_one queue worker_id now locked db (jobs s) = (Some c, js)"
    and "distinct (map r_id (jobs s))" and r: "r \<in> set (jobs s)"
    and t: "jobs t = js" "inflight t = c # inflight s"
  shows "\<exists>q\<in>set js. row_step s t r q"
  using assms(1)
proof (rule claim_cases)
  fix q
  assume q: "q \<in> set (jobs s)" "claimable queue now q"
    "c = returning_claimed (claimed_row worker_id now q)"
    "js = update_where (\<lambda>x. r_id x = r_id q) (claimed_row worker_id now) (jobs s)"
  note row = update_where_row [OF r, of "\<lambda>x. r_id x = r_id q" "claimed_row worker_id now"]
  show ?thesis
  proof (cases "r = q")
    case True
    with q row t show ?thesis
      by (auto simp: claimable_def intro!: bexI row_step.claimed)
  next
    case False
    with q r assms(2) have "r_id r \<noteq> r_id q"
      by (auto dest: distinct_id_eq)
    with q row t show ?thesis
      by (intro bexI [of _ r] row_step.same) (auto simp: returning_claimed_def claimed_row_def)
  qed
qed

lemma settle_row:
  assumes "settled_by (c_id c) (jobs s) (jobs t)" and "inflight s = xs @ c # ys"
    and "inflight t = xs @ ys" and r: "r \<in> set (jobs s)"
  shows "\<exists>q\<in>set (jobs t). row_step s t r q"
proof -
  have sub: "set (inflight t) \<subseteq> set (inflight s)"
    using assms by auto
  from assms(1) consider "jobs t = jobs s"
    | f where "settles f" "jobs t = update_where (\<lambda>r. r_id r = c_id c) f (jobs s)"
    by (auto simp: settled_by_def)
  then show ?thesis
  proof cases
    case 1
    with r sub show ?thesis by (intro same_rowI) simp_all
  next
    case 2
    show ?thesis
    proof (cases "r_id r = c_id c")
      case True
      then have "f r \<in> set (jobs t)"
        using 2 r by (auto simp: set_update_where)
      with True 2 assms(2) show ?thesis
        by (intro bexI [of _ "f r"] row_step.settled [of c]) simp_all
    next
      case False
      then have "r \<in> set (jobs t)"
        using 2 r by (auto simp: set_update_where)
      with sub show ?thesis by (rule same_rowI [rotated])
    qed
  qed
qed

lemma sweep_row:
  assumes r: "r \<in> set (jobs s)"
  shows "\<exists>q\<in>set (sweep now stale_after db (jobs s)).
           row_step s (s\<lparr>jobs := sweep now stale_after db (jobs s)\<rparr>) r q"
proof (cases "db 0 = None \<and> sweep_stale (sweeper_cutoff now stale_after) r")
  case True
  then have "r\<lparr>r_status := ''queued'', r_locked_at := None, r_locked_by := None\<rparr>
      \<in> set (sweep now stale_after db (jobs s))"
    using r by (auto simp: sweep_def set_update_where)
  with True show ?thesis
    by (auto simp: sweep_stale_def intro!: bexI row_step.swept)
next
  case False
  then have "r \<in> set (sweep now stale_after db (jobs s))"
    using r by (auto simp: sweep_def set_update_where)
  then show ?thesis
    by (auto intro!: bexI row_step.same)
qed

lemma step_row:
  assumes "queue_step to_value from_value s t" and "distinct (map r_id (jobs s))"
    and r: "r \<in> set (jobs s)"
  shows "\<exists>q\<in>set (jobs t). row_step s t r q"
  using assms(1)
proof cases
  case (Enqueue queue fresh db payload opts res js)
  from enqueue_cases [OF Enqueue(2)] have "r \<in> set js"
    using r by (auto dest: insert_job_cases)
  with Enqueue(1) show ?thesis by (intro same_rowI) auto
next
  case (Cancel queue db jid res js)
  with cancel_row [OF Cancel(2) r] show ?thesis by simp
next
  case (Claim queue worker_id locked db c js)
  with claim_row [OF Claim(2) assms(2) r, of t] show ?thesis by simp
next
  case (Settle xs c ys handle queue db)
  with r process_claimed_settles [of c] show ?thesis by (intro settle_row [of c s t xs ys]) simp_all
next
  case (Sweep stale_after db)
  with r show ?thesis by (simp add: sweep_row)
qed (use r in \<open>auto intro!: bexI [of _ r] row_step.same\<close>)

section \<open>The invariant of the system\<close>

definition counts_ok :: "uuid list \<Rightarrow> 'v JobRow list \<Rightarrow> bool" where
  "counts_ok log js \<longleftrightarrow>
     (\<forall>r\<in>set js. int (count_list log (r_id r)) = r_attempts r) \<and> set log \<subseteq> r_id ` set js"

definition queue_inv :: "'v queue_sys \<Rightarrow> bool" where
  "queue_inv s \<longleftrightarrow>
     jobs_ok (jobs s) \<and> counts_ok (claim_log s) (jobs s) \<and>
     (\<forall>c\<in>set (inflight s). c_id c \<in> r_id ` set (jobs s))"

lemma ids_set_update: "keeps_identity f \<Longrightarrow> r_id ` set (update_where P f js) = r_id ` set js"
  by (metis ids_update list.set_map)

lemma counts_update:
  assumes "counts_ok log js" and "keeps_identity f" and "\<And>r. r_attempts (f r) = r_attempts r"
  shows "counts_ok log (update_where P f js) \<and> r_id ` set (update_where P f js) = r_id ` set js"
  using assms by (simp add: ids_set_update counts_ok_def)
    (auto simp: set_update_where keeps_identity_def)

lemma counts_insert:
  assumes "counts_ok log js" and "r_id row \<notin> r_id ` set js" and "r_attempts row = 0"
  shows "counts_ok log (js @ [row])"
proof -
  have "r_id row \<notin> set log"
    using assms by (auto simp: counts_ok_def)
  with assms show ?thesis
    by (auto simp: counts_ok_def count_notin)
qed

lemma counts_enqueue:
  assumes "counts_ok log js"
    and "enqueue to_value queue utc_now db_now fresh db payload opts js = (res, js')"
  shows "counts_ok log js' \<and> r_id ` set js \<subseteq> r_id ` set js'"
  using enqueue_cases [OF assms(2)] assms(1)
  by (auto dest!: insert_job_cases intro: counts_insert simp: enqueue_row_def new_row_def)

lemma counts_claim:
  assumes "counts_ok log js" and "distinct (map r_id js)"
    and "claim_one queue worker_id db_now locked db js = (Some c, js')"
  shows "counts_ok (c_id c # log) js' \<and> r_id ` set js' = r_id ` set js \<and> c_id c \<in> r_id ` set js"
  using assms(3)
proof (rule claim_cases)
  fix r
  assume r: "r \<in> set js" "c = returning_claimed (claimed_row worker_id db_now r)"
    "js' = update_where (\<lambda>q. r_id q = r_id r) (claimed_row worker_id db_now) js"
  have "c_id c = r_id r"
    using r by (simp add: returning_claimed_def claimed_row_def)
  moreover have "r_id ` set js' = r_id ` set js"
    unfolding r by (rule ids_set_update [OF claimed_row_identity])
  moreover have "int (count_list (r_id r # log) (r_id q)) = r_attempts q" if q: "q \<in> set js'" for q
    using q unfolding r
    by (rule update_where_memE) (use assms(1) in \<open>auto simp: counts_ok_def claimed_row_def\<close>)
  ultimately show ?thesis
    using r(1) assms(1) by (auto simp: counts_ok_def)
qed

lemma settled_counts:
  assumes "settled_by jid js js'" and "counts_ok log js"
  shows "counts_ok log js' \<and> r_id ` set js' = r_id ` set js"
  using assms(1) unfolding settled_by_def
  by (elim disjE exE conjE) (use assms(2) in \<open>simp_all add: counts_update settles_def\<close>)

lemma cancel_counts:
  assumes "cancel queue now db jid js = (res, js')" and "counts_ok log js"
  shows "counts_ok log js' \<and> r_id ` set js' = r_id ` set js"
proof -
  let ?f = "\<lambda>r. r\<lparr>r_status := ''cancelled'', r_completed_at := Some now\<rparr>"
  have "js' = js \<or> js' = update_where (cancellable jid queue) ?f js"
    using assms(1) by (auto simp: cancel_def Let_def split: option.splits if_splits)
  then show ?thesis
    by (elim disjE) (use assms(2) in \<open>simp_all add: counts_update keeps_identity_def\<close>)
qed

lemma sweep_counts:
  "counts_ok log js \<Longrightarrow> counts_ok log (sweep now stale_after db js) \<and>
    r_id ` set (sweep now stale_after db js) = r_id ` set js"
  by (simp add: sweep_def counts_update keeps_identity_def)

lemma queue_inv_mono:
  assumes "queue_inv s" and "jobs_ok (jobs t)" and "counts_ok (claim_log s) (jobs t)"
    and "r_id ` set (jobs s) \<subseteq> r_id ` set (jobs t)" and "claim_log t = claim_log s"
    and "set (inflight t) \<subseteq> set (inflight s)"
  shows "queue_inv t"
  using assms by (auto simp: queue_inv_def subset_iff)

lemma queue_invD:
  "queue_inv s \<Longrightarrow> jobs_ok (jobs s)"
  "queue_inv s \<Longrightarrow> counts_ok (claim_log s) (jobs s)"
  "queue_inv s \<Longrightarrow> distinct (map r_id (jobs s))"
  by (simp_all add: queue_inv_def jobs_ok_def)

lemma queue_step_inv:
  assumes inv: "queue_inv s" and "queue_step to_value from_value s t"
  shows "queue_inv t"
  using assms(2)
proof cases
  case (Enqueue queue fresh db payload opts res js)
  with enqueue_ok [OF queue_invD(1) [OF inv] Enqueue(2)]
    counts_enqueue [OF queue_invD(2) [OF inv] Enqueue(2)]
  show ?thesis by (intro queue_inv_mono [OF inv]) simp_all
next
  case (Cancel queue db jid res js)
  with cancel_ok [OF queue_invD(1) [OF inv] Cancel(2)]
    cancel_counts [OF Cancel(2) queue_invD(2) [OF inv]]
  show ?thesis by (intro queue_inv_mono [OF inv]) simp_all
next
  case (Claim queue worker_id locked db c js)
  with inv claim_ok [OF queue_invD(1) [OF inv] Claim(2)]
    counts_claim [OF queue_invD(2) [OF inv] queue_invD(3) [OF inv] Claim(2)]
  show ?thesis by (simp add: queue_inv_def)
next
  case (Settle xs c ys handle queue db)
  moreover have "jobs_ok (jobs t)"
    using Settle process_claimed_ok [OF queue_invD(1) [OF inv]] by simp
  moreover have "counts_ok (claim_log s) (jobs t) \<and> r_id ` set (jobs t) = r_id ` set (jobs s)"
    using Settle(1) process_claimed_settles
    by (intro settled_counts [OF _ queue_invD(2) [OF inv], of "c_id c"]) simp
  ultimately show ?thesis by (intro queue_inv_mono [OF inv]) auto
next
  case (Sweep stale_after db)
  with sweep_ok [OF queue_invD(1) [OF inv]] sweep_counts [OF queue_invD(2) [OF inv]]
  show ?thesis by (intro queue_inv_mono [OF inv]) simp_all
qed (use inv in \<open>auto simp: queue_inv_def\<close>)

lemma queue_init_inv: "queue_init s \<Longrightarrow> queue_inv s"
  by (simp add: queue_init_def queue_inv_def jobs_ok_def counts_ok_def)

interpretation job_system:
  invariant_system queue_init "queue_step to_value from_value" queue_inv
  for to_value :: "'p \<Rightarrow> (string, 'v) result" and from_value :: "'v \<Rightarrow> (string, 'p) result"
  by unfold_locales (fact queue_init_inv, fact queue_step_inv)

section \<open>What the queue guarantees\<close>

text \<open>
  C1: in every state the queue can reach, from an empty table and by any interleaving of producers,
  workers, crashes and sweeps, the ids and the idempotency keys are unique, the lock, completion
  and start columns agree with the status, and a job has been handed to a handler exactly
  \<open>attempts\<close> times, which is never more than its \<open>max_attempts\<close>.
\<close>

theorem queue_reachable_ok:
  assumes "queue_init s" and "(queue_step to_value from_value)\<^sup>*\<^sup>* s t"
  shows "jobs_ok (jobs t) \<and>
    (\<forall>r\<in>set (jobs t). int (count_list (claim_log t) (r_id r)) = r_attempts r \<and>
       int (count_list (claim_log t) (r_id r)) \<le> r_max_attempts r)"
proof -
  have inv: "queue_inv t"
    using assms by (rule job_system.reach_inv)
  have "r_attempts r \<le> r_max_attempts r" if "r \<in> set (jobs t)" for r
    using that queue_invD(1) [OF inv] by (simp add: jobs_ok_def row_ok_def)
  with queue_invD(1,2) [OF inv] show ?thesis
    by (simp add: counts_ok_def)
qed

lemma sort_key_Nil_iff: "sort_key f xs = [] \<longleftrightarrow> xs = []"
  by (metis length_0_conv length_sort)

lemma claim_none:
  "claim_one queue worker_id now locked db js = (None, js') \<Longrightarrow> js' = js \<and>
     (db 0 = None \<longrightarrow> (\<forall>r\<in>set js. claimable queue now r \<longrightarrow> locked (r_id r)))"
  by (auto simp: claim_one_def select_where_def sort_key_Nil_iff filter_empty_conv
      split: option.splits)

lemma claim_some_row:
  assumes "distinct (map r_id js)" and r: "r \<in> set js"
    and js': "js' = update_where (\<lambda>q. r_id q = r_id r) (claimed_row worker_id now) js"
  shows "find_key r_id js' (r_id r) = Some (claimed_row worker_id now r) \<and>
    (\<forall>i. i \<noteq> r_id r \<longrightarrow> find_key r_id js' i = find_key r_id js i)"
proof -
  have upd: "find_key r_id js' i = map_option (\<lambda>q. if r_id q = r_id r
      then claimed_row worker_id now q else q) (find_key r_id js i)" for i
    unfolding js' by (rule find_key_update_where) (simp add: claimed_row_def)
  have "find_key r_id js (r_id r) = Some r"
    using assms(1) r by (simp add: find_key_Some_iff)
  moreover have "find_key r_id js' i = find_key r_id js i" if "i \<noteq> r_id r" for i
    unfolding upd using that
    by (cases "find_key r_id js i") (auto dest: find_key_SomeD)
  ultimately show ?thesis
    by (simp add: upd)
qed

text \<open>
  C15: what a claim takes.  It takes nothing only if the statement fails or no job of the queue is
  due, under its attempt limit and unlocked; otherwise it takes one such job that no other precedes
  by priority and then by due time, marks it running under the worker's name with one more
  attempt, and leaves every other row alone.
\<close>

theorem claim_takes_the_first_due:
  assumes "jobs_ok js"
  shows "case claim_one queue worker_id now locked db js of
      (None, js') \<Rightarrow> js' = js \<and> (db 0 = None \<longrightarrow>
         (\<forall>r\<in>set js. claimable queue now r \<longrightarrow> locked (r_id r)))
    | (Some c, js') \<Rightarrow> (\<exists>r\<in>set js. claimable queue now r \<and> \<not> locked (r_id r) \<and>
         (\<forall>q\<in>set js. claimable queue now q \<longrightarrow> locked (r_id q) \<or>
            r_priority q < r_priority r \<or> (r_priority q = r_priority r \<and> r_run_at r \<le> r_run_at q)) \<and>
         c_id c = r_id r \<and> c_attempts c = r_attempts r + 1 \<and> c_attempts c \<le> r_max_attempts r \<and>
         find_key r_id js' (r_id r) = Some (claimed_row worker_id now r) \<and>
         (\<forall>i. i \<noteq> r_id r \<longrightarrow> find_key r_id js' i = find_key r_id js i))"
proof (cases "claim_one queue worker_id now locked db js")
  case (Pair res js')
  show ?thesis
  proof (cases res)
    case None
    with Pair show ?thesis
      using claim_none [of queue worker_id now locked db js js'] by simp
  next
    case (Some c)
    from Pair [unfolded Some] show ?thesis
    proof (rule claim_cases)
      fix r
      assume r: "r \<in> set js" "claimable queue now r" "\<not> locked (r_id r)"
        and first: "\<forall>q\<in>set js. claimable queue now q \<longrightarrow> \<not> locked (r_id q) \<longrightarrow> claim_order r \<le> claim_order q"
        and c: "c = returning_claimed (claimed_row worker_id now r)"
        and js': "js' = update_where (\<lambda>q. r_id q = r_id r) (claimed_row worker_id now) js"
      have "c_id c = r_id r" "c_attempts c = r_attempts r + 1" "r_attempts r + 1 \<le> r_max_attempts r"
        using r(2) by (simp_all add: c returning_claimed_def claimed_row_def claimable_def)
      moreover have "\<forall>q\<in>set js. claimable queue now q \<longrightarrow> locked (r_id q) \<or>
          r_priority q < r_priority r \<or> (r_priority q = r_priority r \<and> r_run_at r \<le> r_run_at q)"
        using first by (auto simp: claim_order_def)
      moreover have "distinct (map r_id js)"
        using assms by (simp add: jobs_ok_def)
      note claim_some_row [OF this r(1) js']
      ultimately show ?thesis
        unfolding Pair Some prod.case option.case
        by (intro bexI [OF _ r(1)] conjI r) simp_all
    qed
  qed
qed

subsection \<open>Idempotent enqueueing\<close>

lemma enqueue_returns_row:
  assumes "enqueue to_value queue utc_now db_now fresh db payload opts js = (Inr i, js')"
    and "o_idempotency_key opts = Some key"
  shows "\<exists>r\<in>set js'. r_id r = i \<and> r_queue r = queue \<and> r_idempotency_key r = Some key"
  using assms
  by (auto simp: enqueue_def Let_def insert_job_def new_row_def select_where_def same_key_def
      split: sum.splits option.splits prod.splits if_splits dest!: fetch_optional_Some_mem)

lemma same_key_lookup:
  assumes "distinct (keyed js)" and "r \<in> set js" and "r_queue r = queue"
    and "r_idempotency_key r = Some key"
  shows "fetch_optional (select_where (same_key queue (Some key)) js) = Some r"
proof -
  have mem: "r \<in> set (select_where (same_key queue (Some key)) js)"
    using assms by (simp add: select_where_def same_key_def)
  then obtain q where q: "fetch_optional (select_where (same_key queue (Some key)) js) = Some q"
    by (cases "select_where (same_key queue (Some key)) js") auto
  then have "q \<in> set js \<and> same_key queue (Some key) q"
    by (auto simp: select_where_def dest: fetch_optional_Some_mem)
  then have "q = r"
    using assms by (intro keyed_unique [OF assms(1)]) (auto simp: same_key_def)
  with q show ?thesis
    by simp
qed

lemma steps_row:
  assumes "(queue_step to_value from_value)\<^sup>*\<^sup>* s t" and "queue_inv s" and "r \<in> set (jobs s)"
  shows "\<exists>q\<in>set (jobs t). same_job r q"
proof (rule job_system.stable [OF _ assms(1,2)])
  fix s t
  assume s: "queue_inv s" "\<exists>q\<in>set (jobs s). same_job r q" "queue_step to_value from_value s t"
  then obtain q where "q \<in> set (jobs s)" "same_job r q"
    by blast
  with step_row [OF s(3) queue_invD(3) [OF s(1)]] show "\<exists>q\<in>set (jobs t). same_job r q"
    by (fastforce dest: row_step_same_job simp: same_job_def)
qed (use assms(3) in \<open>auto simp: same_job_def\<close>)

text \<open>
  C16: enqueueing under an idempotency key can be retried.  Once a key has been accepted for a queue,
  every later enqueue under that key, after any further history of the system and whatever its
  payload and options, returns the id of the first job and leaves the table as it is.
\<close>

theorem enqueue_idempotent:
  assumes "queue_init s\<^sub>0" and "(queue_step to_value from_value)\<^sup>*\<^sup>* s\<^sub>0 s"
    and first: "enqueue to_value queue (clock s) (clock s) fresh db payload opts (jobs s) = (Inr i, js)"
    and "o_idempotency_key opts = Some key"
    and later: "(queue_step to_value from_value)\<^sup>*\<^sup>* (s\<lparr>jobs := js\<rparr>) t"
    and again: "o_idempotency_key opts' = Some key" "to_value payload' = Inr v"
      "db' 0 = None" "db' 1 = None"
  shows "enqueue to_value queue utc_now db_now fresh' db' payload' opts' (jobs t) = (Inr i, jobs t)"
proof -
  have inv: "queue_inv (s\<lparr>jobs := js\<rparr>)"
    using job_system.reach_inv [OF assms(1,2)] queue_step.Enqueue [OF first] by (rule queue_step_inv)
  obtain r where "r \<in> set js" "r_id r = i" "r_queue r = queue" "r_idempotency_key r = Some key"
    using enqueue_returns_row [OF first assms(4)] by blast
  then obtain q where q: "q \<in> set (jobs t)" "r_id q = i" "r_queue q = queue"
      "r_idempotency_key q = Some key"
    using steps_row [OF later inv, of r] by (auto simp: same_job_def)
  have "distinct (keyed (jobs t))"
    using job_system.steps_inv [OF later inv] by (simp add: queue_inv_def jobs_ok_def)
  note found = same_key_lookup [OF this q(1,3,4)]
  have "list_ex (same_key queue (Some key)) (jobs t)"
    using q by (auto simp: list_ex_iff same_key_def)
  then show ?thesis
    using again found q(2) by (simp add: enqueue_def insert_job_def new_row_def)
qed

subsection \<open>Terminal jobs\<close>

text \<open>
  C25: a job that is done, cancelled or dead, and that no worker is still running, keeps its row
  unchanged for ever and is never handed to a handler again.
\<close>

theorem terminal_is_final_once_settled:
  assumes "queue_init s\<^sub>0" and "(queue_step to_value from_value)\<^sup>*\<^sup>* s\<^sub>0 s"
    and "r \<in> set (jobs s)" and "r_status r \<in> {''done'', ''cancelled'', ''dead''}"
    and "\<forall>c\<in>set (inflight s). c_id c \<noteq> r_id r"
    and "(queue_step to_value from_value)\<^sup>*\<^sup>* s t"
  shows "r \<in> set (jobs t) \<and> (\<forall>c\<in>set (inflight t). c_id c \<noteq> r_id r)"
proof (rule job_system.stable [OF _ assms(6) job_system.reach_inv [OF assms(1,2)]])
  fix s t
  assume s: "queue_inv s" "r \<in> set (jobs s) \<and> (\<forall>c\<in>set (inflight s). c_id c \<noteq> r_id r)"
    "queue_step to_value from_value s t"
  then obtain q where q: "q \<in> set (jobs t)" "row_step s t r q"
    using step_row [OF s(3) queue_invD(3) [OF s(1)]] by blast
  from q(2) have "q = r \<and> (\<forall>c\<in>set (inflight t). c_id c \<noteq> r_id r)"
    by (rule row_stepE) (use s(2) assms(4) in \<open>auto simp: cancellable_def claimable_def\<close>)
  with q(1) show "r \<in> set (jobs t) \<and> (\<forall>c\<in>set (inflight t). c_id c \<noteq> r_id r)"
    by blast
qed (use assms in blast)

subsection \<open>A crash on the last attempt\<close>

definition stranded :: "uuid \<Rightarrow> int \<Rightarrow> 'v queue_sys \<Rightarrow> bool" where
  "stranded i n s \<longleftrightarrow>
     (\<exists>r\<in>set (jobs s). r_id r = i \<and> r_status r \<in> {''queued'', ''cancelled''} \<and>
        r_attempts r = n \<and> r_max_attempts r = n) \<and>
     (\<forall>c\<in>set (inflight s). c_id c \<noteq> i)"

lemma stranded_step:
  assumes "queue_inv s" and "stranded i n s" and "queue_step to_value from_value s t"
  shows "stranded i n t"
proof -
  from assms(2) obtain r where r: "r \<in> set (jobs s)" "r_id r = i"
      "r_status r \<in> {''queued'', ''cancelled''}" "r_attempts r = n" "r_max_attempts r = n"
    and idle: "\<forall>c\<in>set (inflight s). c_id c \<noteq> i"
    by (auto simp: stranded_def)
  obtain q where q: "q \<in> set (jobs t)" "row_step s t r q"
    using step_row [OF assms(3) queue_invD(3) [OF assms(1)] r(1)] by blast
  from q(2) have "r_id q = i \<and> r_status q \<in> {''queued'', ''cancelled''} \<and> r_attempts q = n \<and>
      r_max_attempts q = n \<and> (\<forall>c\<in>set (inflight t). c_id c \<noteq> i)"
    by (rule row_stepE) (use r idle in \<open>auto simp: claimable_def\<close>)
  with q(1) show ?thesis
    by (auto simp: stranded_def)
qed

text \<open>
  C26: a worker that dies during the last attempt leaves its job behind.  The sweeper puts the job
  back to \<open>queued\<close>, but a claim wants \<open>attempts < max_attempts\<close>: from then on the job is never
  claimed, done or buried, in any future of the system.
\<close>

theorem last_attempt_crash_strands_the_job:
  assumes "queue_init s\<^sub>0" and "(queue_step to_value from_value)\<^sup>*\<^sup>* s\<^sub>0 s"
    and r: "r \<in> set (jobs s)" "r_attempts r = r_max_attempts r"
    and stale: "sweep_stale (sweeper_cutoff (clock s) stale_after) r" "db 0 = None"
    and idle: "\<forall>c\<in>set (inflight s). c_id c \<noteq> r_id r"
    and later: "(queue_step to_value from_value)\<^sup>*\<^sup>*
      (s\<lparr>jobs := sweep (clock s) stale_after db (jobs s)\<rparr>) t"
  shows "\<exists>q\<in>set (jobs t). r_id q = r_id r \<and> r_status q \<in> {''queued'', ''cancelled''} \<and>
    (\<forall>queue now. \<not> claimable queue now q) \<and>
    count_list (claim_log t) (r_id r) = count_list (claim_log s) (r_id r)"
proof -
  let ?s' = "s\<lparr>jobs := sweep (clock s) stale_after db (jobs s)\<rparr>"
  have s: "queue_inv s"
    using assms(1,2) by (rule job_system.reach_inv)
  have inv: "queue_inv ?s'"
    using s queue_step.Sweep by (rule queue_step_inv)
  have "r\<lparr>r_status := ''queued'', r_locked_at := None, r_locked_by := None\<rparr> \<in> set (jobs ?s')"
    using r stale by (auto simp: sweep_def set_update_where)
  then have "stranded (r_id r) (r_max_attempts r) ?s'"
    unfolding stranded_def using r(2) idle by (intro conjI bexI) simp_all
  then have "stranded (r_id r) (r_max_attempts r) t"
    using job_system.stable [where P = "stranded (r_id r) (r_max_attempts r)", OF _ later inv]
      stranded_step by blast
  then obtain q where q: "q \<in> set (jobs t)" "r_id q = r_id r"
      "r_status q \<in> {''queued'', ''cancelled''}" "r_attempts q = r_max_attempts r"
      "r_max_attempts q = r_max_attempts r"
    by (auto simp: stranded_def)
  have "int (count_list (claim_log t) (r_id q)) = r_attempts q"
    using job_system.steps_inv [OF later inv] q(1) by (simp add: queue_inv_def counts_ok_def)
  moreover have "int (count_list (claim_log s) (r_id r)) = r_attempts r"
    using s r(1) by (simp add: queue_inv_def counts_ok_def)
  ultimately show ?thesis
    using q r(2) by (intro bexI [OF _ q(1)]) (auto simp: claimable_def)
qed

section \<open>Histories\<close>

text \<open>Concrete histories of one job with payloads that are strings.\<close>

definition opts1 :: "32 word \<Rightarrow> EnqueueOptions" where
  "opts1 n = \<lparr>o_run_at = None, o_priority = 0, o_max_attempts = Some n,
      o_idempotency_key = Some ''k'', o_org_id = None, o_actor_id = None\<rparr>"

definition row1 :: "32 word \<Rightarrow> string JobRow" where
  "row1 n = enqueue_row ''q'' 0 0 7 ''p'' (opts1 n)"

definition sys0 :: "string queue_sys" where
  "sys0 = \<lparr>clock = 0, jobs = [], inflight = [], claim_log = []\<rparr>"

definition sys_enqueued :: "32 word \<Rightarrow> string queue_sys" where
  "sys_enqueued n = sys0\<lparr>jobs := [row1 n]\<rparr>"

definition sys_claimed :: "32 word \<Rightarrow> string queue_sys" where
  "sys_claimed n = \<lparr>clock = 0, jobs = [claimed_row ''w'' 0 (row1 n)],
      inflight = [returning_claimed (claimed_row ''w'' 0 (row1 n))], claim_log = [7]\<rparr>"

abbreviation string_step :: "string queue_sys \<Rightarrow> string queue_sys \<Rightarrow> bool" where
  "string_step \<equiv> queue_step Inr Inr"

lemma row1_simps [simp]:
  "r_id (row1 n) = 7" "r_queue (row1 n) = ''q''" "r_status (row1 n) = ''queued''"
  "r_attempts (row1 n) = 0" "r_idempotency_key (row1 n) = Some ''k''" "r_run_at (row1 n) = 0"
  "r_max_attempts (row1 n) = unwrap_or 3 (i32_from_u32 n)" "r_locked_at (row1 n) = None"
  by (simp_all add: row1_def enqueue_row_def new_row_def opts1_def unwrap_or_def)

lemma row1_ok [simp]: "row_ok (row1 n)"
  by (simp add: row1_def enqueue_row_ok)

lemma opts1_key [simp]: "o_idempotency_key (opts1 n) = Some ''k''"
  by (simp add: opts1_def)

lemma sys0_init: "queue_init sys0"
  by (simp add: queue_init_def sys0_def)

lemma enqueue_row1:
  "enqueue Inr ''q'' 0 0 7 (\<lambda>_. None) ''p'' (opts1 n) [] = (Inr 7, [row1 n])"
  by (simp add: enqueue_def insert_job_def row1_def enqueue_row_def new_row_def)

lemma sys_enqueue: "string_step sys0 (sys_enqueued n)"
  unfolding sys_enqueued_def
  by (rule queue_step.Enqueue) (simp add: sys0_def, rule enqueue_row1)

lemma sys_claim:
  assumes "0 < unwrap_or 3 (i32_from_u32 n)"
  shows "string_step (sys_enqueued n) (sys_claimed n)"
proof -
  have "claim_one ''q'' ''w'' (clock (sys_enqueued n)) (\<lambda>_. False) (\<lambda>_. None) (jobs (sys_enqueued n))
      = (Some (returning_claimed (claimed_row ''w'' 0 (row1 n))), [claimed_row ''w'' 0 (row1 n)])"
    using assms by (simp add: claim_one_def sys_enqueued_def sys0_def select_where_def claimable_def)
  from queue_step.Claim [OF this, of Inr Inr] show ?thesis
    by (simp add: sys_enqueued_def sys_claimed_def sys0_def returning_claimed_def claimed_row_def)
qed

lemma sys_claimed_reach:
  "0 < unwrap_or 3 (i32_from_u32 n) \<Longrightarrow> string_step\<^sup>*\<^sup>* sys0 (sys_claimed n)"
  by (meson sys_enqueue sys_claim rtranclp.rtrancl_refl rtranclp.rtrancl_into_rtrancl)

text \<open>The worker of a job with one attempt dies, and six minutes pass.\<close>

definition sys_crashed :: "string queue_sys" where
  "sys_crashed = (sys_claimed 1)\<lparr>inflight := [], clock := seconds 360\<rparr>"

lemma one_attempt [simp]: "unwrap_or 3 (i32_from_u32 1) = 1" "unwrap_or 3 (i32_from_u32 3) = 3"
  by (simp_all add: i32_from_u32_def i32_max_def unwrap_or_def)

lemma sys_crashed_reach: "string_step\<^sup>*\<^sup>* sys0 sys_crashed"
proof -
  have "string_step (sys_claimed 1) ((sys_claimed 1)\<lparr>inflight := []\<rparr>)"
    using queue_step.Crash [of "sys_claimed 1" "[]"
        "returning_claimed (claimed_row ''w'' 0 (row1 1))" "[]"]
    by (simp add: sys_claimed_def)
  moreover have "string_step ((sys_claimed 1)\<lparr>inflight := []\<rparr>) sys_crashed"
    unfolding sys_crashed_def by (rule queue_step.Tick) (simp add: sys_claimed_def seconds_def)
  ultimately show ?thesis
    using sys_claimed_reach [of 1] by (auto intro: rtranclp.rtrancl_into_rtrancl)
qed

theorem queue_reachable_ok_witness:
  "jobs_ok (jobs (sys_claimed 1)) \<and> count_list (claim_log (sys_claimed 1)) 7 = 1"
  using queue_reachable_ok [OF sys0_init sys_claimed_reach [of 1]]
  by (simp add: sys_claimed_def)

theorem claim_takes_the_first_due_witness:
  "jobs_ok [row1 1] \<and>
   claim_one ''q'' ''w'' 0 (\<lambda>_. False) (\<lambda>_. None) [row1 1]
     = (Some (returning_claimed (claimed_row ''w'' 0 (row1 1))), [claimed_row ''w'' 0 (row1 1)])"
proof -
  have "jobs_ok [row1 1]"
    by (simp add: jobs_ok_def)
  then show ?thesis
    using claim_takes_the_first_due [where js = "[row1 1]" and queue = "''q''" and worker_id = "''w''"
        and now = 0 and locked = "\<lambda>_. False" and db = "\<lambda>_. None"]
    by (simp add: claim_one_def select_where_def claimable_def)
qed

theorem enqueue_idempotent_witness:
  "enqueue Inr ''q'' 5 5 8 (\<lambda>_. None) ''other'' (opts1 3) (jobs (sys_claimed 1))
     = (Inr 7, jobs (sys_claimed 1))"
  by (rule enqueue_idempotent [OF sys0_init rtranclp.rtrancl_refl, of Inr "''q''" 7 "\<lambda>_. None" "''p''" "opts1 1" 7 "[row1 1]"
        "''k''" Inr])
    (use sys_claim [of 1] in \<open>auto simp: sys0_def enqueue_row1 sys_enqueued_def\<close>)

theorem last_attempt_crash_strands_the_job_witness:
  "\<exists>q\<in>set (sweep (clock sys_crashed) 300 (\<lambda>_. None) (jobs sys_crashed)).
     r_id q = 7 \<and> r_status q \<in> {''queued'', ''cancelled''} \<and> (\<forall>queue now. \<not> claimable queue now q)"
proof -
  let ?r = "claimed_row ''w'' 0 (row1 1)"
  have "?r \<in> set (jobs sys_crashed)" "r_attempts ?r = r_max_attempts ?r"
    "sweep_stale (sweeper_cutoff (clock sys_crashed) 300) ?r"
    "\<forall>c\<in>set (inflight sys_crashed). c_id c \<noteq> r_id ?r" "r_id ?r = 7"
    by (simp_all add: sys_crashed_def sys_claimed_def claimed_row_def sweep_stale_def
        sweeper_cutoff_def seconds_def i64_max_def)
  from last_attempt_crash_strands_the_job
    [OF sys0_init sys_crashed_reach this(1-3) refl this(4) rtranclp.rtrancl_refl] this(5)
  show ?thesis
    by auto
qed

text \<open>A job cancelled before any worker took it.\<close>

definition cancelled_row :: "string JobRow" where
  "cancelled_row = (row1 1)\<lparr>r_status := ''cancelled'', r_completed_at := Some 0\<rparr>"

lemma sys_cancel_queued: "string_step\<^sup>*\<^sup>* sys0 (sys0\<lparr>jobs := [cancelled_row]\<rparr>)"
proof -
  have "cancel ''q'' (clock (sys_enqueued 1)) (\<lambda>_. None) 7 (jobs (sys_enqueued 1)) = (Inr (), [cancelled_row])"
    by (simp add: cancel_def sys_enqueued_def sys0_def cancellable_def cancelled_row_def)
  from queue_step.Cancel [OF this, of Inr Inr]
  have "string_step (sys_enqueued 1) (sys0\<lparr>jobs := [cancelled_row]\<rparr>)"
    by (simp add: sys_enqueued_def)
  with sys_enqueue [of 1] show ?thesis
    by (auto intro: rtranclp.rtrancl_into_rtrancl)
qed

theorem terminal_is_final_once_settled_witness:
  "cancelled_row \<in> set (jobs (sys0\<lparr>jobs := [cancelled_row], clock := 9\<rparr>)) \<and>
   r_status cancelled_row = ''cancelled''"
proof -
  have "string_step (sys0\<lparr>jobs := [cancelled_row]\<rparr>) (sys0\<lparr>jobs := [cancelled_row], clock := 9\<rparr>)"
    using queue_step.Tick [of "sys0\<lparr>jobs := [cancelled_row]\<rparr>" 9 Inr Inr] by (simp add: sys0_def)
  from terminal_is_final_once_settled
    [OF sys0_init sys_cancel_queued _ _ _ r_into_rtranclp [of string_step, OF this], of cancelled_row]
  show ?thesis
    by (simp add: sys0_def cancelled_row_def)
qed

section \<open>Cancelling a running job\<close>

text \<open>
  The job is claimed (limit three attempts) and cancelled while the handler runs; the handler then
  reports a retriable error, two seconds pass and a worker claims the job again.
\<close>

definition row_running :: "string JobRow" where
  "row_running = claimed_row ''w'' 0 (row1 3)"

definition row_cancelled :: "string JobRow" where
  "row_cancelled = row_running\<lparr>r_status := ''cancelled'', r_completed_at := Some 0\<rparr>"

definition row_failed :: "string JobRow" where
  "row_failed = row_cancelled\<lparr>r_status := ''failed'', r_last_error := Some ''e'',
     r_run_at := seconds 2, r_locked_at := None, r_locked_by := None\<rparr>"

definition sys_run_cancelled :: "string queue_sys" where
  "sys_run_cancelled = (sys_claimed 3)\<lparr>jobs := [row_cancelled]\<rparr>"

definition sys_retried :: "string queue_sys" where
  "sys_retried = (sys_claimed 3)\<lparr>jobs := [row_failed], inflight := []\<rparr>"

lemma run_cancelled_step: "string_step (sys_claimed 3) sys_run_cancelled"
proof -
  have "cancel ''q'' (clock (sys_claimed 3)) (\<lambda>_. None) 7 (jobs (sys_claimed 3)) = (Inr (), [row_cancelled])"
    by (simp add: cancel_def sys_claimed_def cancellable_def row_cancelled_def row_running_def
        claimed_row_def)
  from queue_step.Cancel [OF this, of Inr Inr] show ?thesis
    by (simp add: sys_run_cancelled_def)
qed

lemma retried_step: "string_step sys_run_cancelled sys_retried"
proof -
  have "process_claimed Inr (\<lambda>_. Inl (Retriable ''e'')) ''q'' 0 0 (\<lambda>_. None)
      (returning_claimed (claimed_row ''w'' 0 (row1 3))) [row_cancelled] = [row_failed]"
    by (simp add: process_claimed_def retry_or_bury_def returning_claimed_def claimed_row_def
        mark_failed_for_retry_def row_cancelled_def row_running_def row_failed_def
        u32_from_i32_or_0_def backoff_seconds_def saturating_pow2_def min_def seconds_def Let_def)
  moreover note queue_step.Settle [of sys_run_cancelled "[]"
      "returning_claimed (claimed_row ''w'' 0 (row1 3))" "[]" Inr Inr "\<lambda>_. Inl (Retriable ''e'')"
      "''q''" "\<lambda>_. None"]
  ultimately show ?thesis
    by (simp add: sys_run_cancelled_def sys_retried_def sys_claimed_def)
qed

lemma reclaimed_step:
  "string_step (sys_retried\<lparr>clock := seconds 2\<rparr>)
     (sys_retried\<lparr>clock := seconds 2, jobs := [claimed_row ''w'' (seconds 2) row_failed],
        inflight := [returning_claimed (claimed_row ''w'' (seconds 2) row_failed)],
        claim_log := [7, 7]\<rparr>)"
proof -
  have "claim_one ''q'' ''w'' (seconds 2) (\<lambda>_. False) (\<lambda>_. None) [row_failed]
      = (Some (returning_claimed (claimed_row ''w'' (seconds 2) row_failed)),
         [claimed_row ''w'' (seconds 2) row_failed])"
    by (simp add: claim_one_def select_where_def claimable_def row_failed_def row_cancelled_def
        row_running_def claimed_row_def)
  then show ?thesis
    using queue_step.Claim [of "''q''" "''w''" "sys_retried\<lparr>clock := seconds 2\<rparr>" "\<lambda>_. False" "\<lambda>_. None"
        "returning_claimed (claimed_row ''w'' (seconds 2) row_failed)"
        "[claimed_row ''w'' (seconds 2) row_failed]" Inr Inr]
    by (simp add: sys_retried_def sys_claimed_def returning_claimed_def claimed_row_def
        row_failed_def row_cancelled_def row_running_def)
qed

text \<open>
  Cancelling a job while a worker runs it is not final.  There is a history in which a job is
  \<open>cancelled\<close> and is handed to a handler again afterwards: the statements that end an attempt do not
  look at the status.
\<close>

theorem cancelled_running_job_runs_again:
  "\<exists>s t :: string queue_sys. \<exists>r. queue_init sys0 \<and> string_step\<^sup>*\<^sup>* sys0 s \<and> r \<in> set (jobs s) \<and>
     r_status r = ''cancelled'' \<and> string_step\<^sup>*\<^sup>* s t \<and>
     count_list (claim_log t) (r_id r) = Suc (count_list (claim_log s) (r_id r))"
proof -
  have reach: "string_step\<^sup>*\<^sup>* sys0 sys_run_cancelled"
    using sys_claimed_reach [of 3] run_cancelled_step by (auto intro: rtranclp.rtrancl_into_rtrancl)
  have tick: "string_step sys_retried (sys_retried\<lparr>clock := seconds 2\<rparr>)"
    by (rule queue_step.Tick) (simp add: sys_retried_def sys_claimed_def seconds_def)
  have "string_step\<^sup>*\<^sup>* sys_run_cancelled (sys_retried\<lparr>clock := seconds 2,
      jobs := [claimed_row ''w'' (seconds 2) row_failed],
      inflight := [returning_claimed (claimed_row ''w'' (seconds 2) row_failed)],
      claim_log := [7, 7]\<rparr>)"
    using retried_step tick reclaimed_step by (auto intro: converse_rtranclp_into_rtranclp)
  then show ?thesis
    using reach sys0_init
    by (intro exI [of _ row_cancelled] exI conjI)
      (auto simp: sys_run_cancelled_def sys_claimed_def row_cancelled_def row_running_def claimed_row_def)
qed

end
