(* ===== verification/Worker_Loop.thy ===== *)
theory Worker_Loop
  imports Job_Queue_Props "HOL-Library.Multiset"
begin

text \<open>
  The tasks behind a worker of the queue (\<open>crates/queue/src/worker.rs\<close>): the run loop, the sweeper, the
  listener, and the handle that shuts them down.  Each task is a program counter between two awaits,
  and the tasks of all workers interleave with producers on the one job table.  The theory shows that
  these loops only ever do steps of the queue, and what a shutdown request reaches.
\<close>

section \<open>Notify\<close>

datatype task = RunTask | SweepTask | ListenTask

text \<open>
  \<open>tokio::sync::Notify\<close>: a task creates a future with \<open>notified\<close>, drops it, and finds it ready or not.
  \<open>nt_listens\<close> tells whether a task holds a future.
\<close>

record 'n notify_lib =
  nt_new :: 'n
  nt_notified :: "task \<Rightarrow> 'n \<Rightarrow> 'n"
  nt_dropped :: "task \<Rightarrow> 'n \<Rightarrow> 'n"
  nt_notify_waiters :: "'n \<Rightarrow> 'n"
  nt_ready :: "'n \<Rightarrow> task \<Rightarrow> bool"
  nt_listens :: "'n \<Rightarrow> task \<Rightarrow> bool"

text \<open>
  What its documentation promises: \<open>notify_waiters\<close> makes the futures ready that exist at the call, and
  stores nothing for those created later.
\<close>

definition notify_ok :: "'n notify_lib \<Rightarrow> bool" where
  "notify_ok lib \<longleftrightarrow>
     (\<forall>u. \<not> nt_ready lib (nt_new lib) u \<and> \<not> nt_listens lib (nt_new lib) u) \<and>
     (\<forall>n t u. nt_ready lib (nt_notified lib t n) u = (u \<noteq> t \<and> nt_ready lib n u) \<and>
              nt_listens lib (nt_notified lib t n) u = (u = t \<or> nt_listens lib n u)) \<and>
     (\<forall>n t u. nt_ready lib (nt_dropped lib t n) u = (u \<noteq> t \<and> nt_ready lib n u) \<and>
              nt_listens lib (nt_dropped lib t n) u = (u \<noteq> t \<and> nt_listens lib n u)) \<and>
     (\<forall>n u. nt_ready lib (nt_notify_waiters lib n) u = (nt_ready lib n u \<or> nt_listens lib n u) \<and>
            nt_listens lib (nt_notify_waiters lib n) u = nt_listens lib n u)"

section \<open>The worker\<close>

text \<open>Durations are in nanoseconds, the clock in microseconds.\<close>

record WorkerConfig =
  wc_name :: string
  wc_poll_interval :: nat
  wc_sweep_interval :: nat
  wc_stale_after :: nat

definition from_secs :: "nat \<Rightarrow> nat" where
  "from_secs n = n * 10 ^ 9"

definition as_secs :: "nat \<Rightarrow> nat" where
  "as_secs d = d div 10 ^ 9"

definition worker_config_default :: WorkerConfig where
  "worker_config_default =
     \<lparr>wc_name = ''worker'', wc_poll_interval = from_secs 5, wc_sweep_interval = from_secs 30,
      wc_stale_after = from_secs 300\<rparr>"

text \<open>
  Where each task is.  A \<open>select!\<close> is entered in a step of its own, which creates the futures it waits
  for; \<open>RunIdle\<close>, \<open>SweepIdle\<close>, \<open>ListenIdle\<close> and \<open>ListenFailed\<close> are the points just before.  \<open>RunDone\<close> is
  a loop that returned, \<open>RunAborted\<close> one that was aborted or whose handler panicked.
\<close>

datatype 'v run_pc = RunClaim | RunHandle "'v Claimed" | RunIdle | RunSelect int | RunDone | RunAborted

datatype sweep_pc = SweepRound | SweepIdle | SweepSelect int | SweepDone

datatype listen_pc = ListenOpen | ListenIdle | ListenStream | ListenFailed | ListenWait int | ListenDone

text \<open>What became of the \<open>WorkerHandle\<close>: its methods consume it.\<close>

datatype handle_state = Held | Awaiting | Released | Dropped

record ('v, 'n) worker =
  w_id :: string
  w_queue :: string
  w_config :: WorkerConfig
  w_shutdown :: 'n
  w_wake :: 'n
  w_run :: "'v run_pc"
  w_sweep :: sweep_pc
  w_listen :: listen_pc
  w_handle :: handle_state

definition spawn_worker_loop :: "'n notify_lib \<Rightarrow> string \<Rightarrow> WorkerConfig \<Rightarrow> string \<Rightarrow> ('v, 'n) worker" where
  "spawn_worker_loop lib queue config uuid =
     \<lparr>w_id = wc_name config @ ''-'' @ uuid, w_queue = queue, w_config = config,
      w_shutdown = nt_new lib, w_wake = nt_new lib,
      w_run = RunClaim, w_sweep = SweepRound, w_listen = ListenOpen, w_handle = Held\<rparr>"

text \<open>The branches of a \<open>select!\<close>; any that is ready may be taken.\<close>

datatype branch = OnShutdown | OnWake | OnTimer

definition elapsed_since :: "int \<Rightarrow> int \<Rightarrow> nat \<Rightarrow> bool" where
  "elapsed_since now since d \<longleftrightarrow> int d \<le> (now - since) * 1000"

text \<open>Only the run loop has a branch for \<open>wake\<close>; \<open>d\<close> is the sleep the task entered at \<open>since\<close>.\<close>

definition branch_ready :: "'n notify_lib \<Rightarrow> task \<Rightarrow> int \<Rightarrow> int \<Rightarrow> nat \<Rightarrow> ('v, 'n) worker \<Rightarrow> branch \<Rightarrow> bool" where
  "branch_ready lib t now since d w b =
     (case b of
        OnShutdown \<Rightarrow> nt_ready lib (w_shutdown w) t
      | OnWake \<Rightarrow> t = RunTask \<and> nt_ready lib (w_wake w) t
      | OnTimer \<Rightarrow> elapsed_since now since d)"

section \<open>The run loop\<close>

definition run_loop_claim ::
  "(uuid \<Rightarrow> bool) \<Rightarrow> (nat \<Rightarrow> db_error option) \<Rightarrow> ('v, 'n) worker \<Rightarrow> 'v queue_sys
     \<Rightarrow> ('v, 'n) worker \<times> 'v queue_sys" where
  "run_loop_claim locked db w s =
     (case claim_one (w_queue w) (w_id w) (clock s) locked db (jobs s) of
        (Some claimed, js) \<Rightarrow>
          (w\<lparr>w_run := RunHandle claimed\<rparr>,
           s\<lparr>jobs := js, inflight := claimed # inflight s, claim_log := c_id claimed # claim_log s\<rparr>)
      | (None, js) \<Rightarrow> (w\<lparr>w_run := RunIdle\<rparr>, s\<lparr>jobs := js\<rparr>))"

definition run_loop_process ::
  "('v \<Rightarrow> (string, 'p) result) \<Rightarrow> ('p Job \<Rightarrow> (WorkerError, unit) result) \<Rightarrow> (nat \<Rightarrow> db_error option)
     \<Rightarrow> 'v Claimed \<Rightarrow> ('v, 'n) worker \<Rightarrow> 'v queue_sys \<Rightarrow> ('v, 'n) worker \<times> 'v queue_sys" where
  "run_loop_process from_value handle db claimed w s =
     (w\<lparr>w_run := RunClaim\<rparr>,
      s\<lparr>jobs := process_claimed from_value handle (w_queue w) (clock s) (clock s) db claimed (jobs s),
        inflight := remove1 claimed (inflight s)\<rparr>)"

definition run_loop_select :: "'n notify_lib \<Rightarrow> int \<Rightarrow> ('v, 'n) worker \<Rightarrow> ('v, 'n) worker" where
  "run_loop_select lib now w =
     w\<lparr>w_run := RunSelect now, w_shutdown := nt_notified lib RunTask (w_shutdown w),
       w_wake := nt_notified lib RunTask (w_wake w)\<rparr>"

definition run_loop_woken :: "'n notify_lib \<Rightarrow> branch \<Rightarrow> ('v, 'n) worker \<Rightarrow> ('v, 'n) worker" where
  "run_loop_woken lib b w =
     w\<lparr>w_run := (if b = OnShutdown then RunDone else RunClaim),
       w_shutdown := nt_dropped lib RunTask (w_shutdown w), w_wake := nt_dropped lib RunTask (w_wake w)\<rparr>"

section \<open>The sweeper\<close>

definition sweeper_round ::
  "(nat \<Rightarrow> db_error option) \<Rightarrow> ('v, 'n) worker \<Rightarrow> 'v queue_sys \<Rightarrow> ('v, 'n) worker \<times> 'v queue_sys" where
  "sweeper_round db w s =
     (w\<lparr>w_sweep := SweepIdle\<rparr>,
      s\<lparr>jobs := sweep (clock s) (as_secs (wc_stale_after (w_config w))) db (jobs s)\<rparr>)"

definition sweeper_select :: "'n notify_lib \<Rightarrow> int \<Rightarrow> ('v, 'n) worker \<Rightarrow> ('v, 'n) worker" where
  "sweeper_select lib now w =
     w\<lparr>w_sweep := SweepSelect now, w_shutdown := nt_notified lib SweepTask (w_shutdown w)\<rparr>"

definition sweeper_woken :: "'n notify_lib \<Rightarrow> branch \<Rightarrow> ('v, 'n) worker \<Rightarrow> ('v, 'n) worker" where
  "sweeper_woken lib b w =
     w\<lparr>w_sweep := (if b = OnShutdown then SweepDone else SweepRound),
       w_shutdown := nt_dropped lib SweepTask (w_shutdown w)\<rparr>"

section \<open>The listener\<close>

text \<open>The connection and the \<open>LISTEN\<close> statement, each with its outcome.\<close>

definition open_listener :: "(string, unit) result \<Rightarrow> (string \<Rightarrow> (string, unit) result) \<Rightarrow> string \<Rightarrow> (string, unit) result" where
  "open_listener connect listen channel = try_bind connect (\<lambda>_. listen channel)"

definition listener_opened ::
  "(string, unit) result \<Rightarrow> (string \<Rightarrow> (string, unit) result) \<Rightarrow> ('v, 'n) worker \<Rightarrow> ('v, 'n) worker" where
  "listener_opened connect listen w =
     (case open_listener connect listen (notify_channel (w_queue w)) of
        Inr _ \<Rightarrow> w\<lparr>w_listen := ListenIdle\<rparr>
      | Inl _ \<Rightarrow> w\<lparr>w_listen := ListenFailed\<rparr>)"

datatype stream_item = Notification | StreamError string | StreamEnd

text \<open>The \<open>select!\<close> of \<open>consume_notifications\<close>: entered, ended by a shutdown, or by the next item.\<close>

definition consume_select :: "'n notify_lib \<Rightarrow> ('v, 'n) worker \<Rightarrow> ('v, 'n) worker" where
  "consume_select lib w = w\<lparr>w_listen := ListenStream, w_shutdown := nt_notified lib ListenTask (w_shutdown w)\<rparr>"

definition consume_shutdown :: "'n notify_lib \<Rightarrow> ('v, 'n) worker \<Rightarrow> ('v, 'n) worker" where
  "consume_shutdown lib w = w\<lparr>w_listen := ListenDone, w_shutdown := nt_dropped lib ListenTask (w_shutdown w)\<rparr>"

definition consume_next :: "'n notify_lib \<Rightarrow> stream_item \<Rightarrow> ('v, 'n) worker \<Rightarrow> ('v, 'n) worker" where
  "consume_next lib item w =
     (let w' = w\<lparr>w_shutdown := nt_dropped lib ListenTask (w_shutdown w)\<rparr>
      in case item of
           Notification \<Rightarrow> w'\<lparr>w_wake := nt_notify_waiters lib (w_wake w), w_listen := ListenIdle\<rparr>
         | StreamError err \<Rightarrow> w'\<lparr>w_listen := ListenOpen\<rparr>
         | StreamEnd \<Rightarrow> w'\<lparr>w_listen := ListenOpen\<rparr>)"

definition wait_select :: "'n notify_lib \<Rightarrow> int \<Rightarrow> ('v, 'n) worker \<Rightarrow> ('v, 'n) worker" where
  "wait_select lib now w = w\<lparr>w_listen := ListenWait now, w_shutdown := nt_notified lib ListenTask (w_shutdown w)\<rparr>"

definition wait_or_shutdown :: "'n notify_lib \<Rightarrow> branch \<Rightarrow> ('v, 'n) worker \<Rightarrow> ('v, 'n) worker" where
  "wait_or_shutdown lib b w =
     w\<lparr>w_listen := (if b = OnShutdown then ListenDone else ListenOpen),
       w_shutdown := nt_dropped lib ListenTask (w_shutdown w)\<rparr>"

section \<open>The handle\<close>

text \<open>\<open>shutdown\<close> up to its await, and from the end of the run loop on.\<close>

definition shutdown_request :: "'n notify_lib \<Rightarrow> ('v, 'n) worker \<Rightarrow> ('v, 'n) worker" where
  "shutdown_request lib w = w\<lparr>w_shutdown := nt_notify_waiters lib (w_shutdown w), w_handle := Awaiting\<rparr>"

definition shutdown_return :: "('v, 'n) worker \<Rightarrow> ('v, 'n) worker" where
  "shutdown_return w = w\<lparr>w_sweep := SweepDone, w_listen := ListenDone, w_handle := Released\<rparr>"

text \<open>The claim a worker is running the handler of, and the table without it when its task dies.\<close>

definition running :: "('v, 'n) worker \<Rightarrow> 'v Claimed list" where
  "running w = (case w_run w of RunHandle c \<Rightarrow> [c] | _ \<Rightarrow> [])"

definition forget_running :: "('v, 'n) worker \<Rightarrow> 'v queue_sys \<Rightarrow> 'v queue_sys" where
  "forget_running w s = s\<lparr>inflight := fold remove1 (running w) (inflight s)\<rparr>"

definition abort_run :: "('v, 'n) worker \<Rightarrow> ('v, 'n) worker" where
  "abort_run w = w\<lparr>w_run := (if w_run w = RunDone then RunDone else RunAborted)\<rparr>"

definition abort_handle :: "('v, 'n) worker \<Rightarrow> 'v queue_sys \<Rightarrow> ('v, 'n) worker \<times> 'v queue_sys" where
  "abort_handle w s =
     ((abort_run w)\<lparr>w_sweep := SweepDone, w_listen := ListenDone, w_handle := Released\<rparr>, forget_running w s)"

section \<open>Workers on one table\<close>

text \<open>
  One step of one worker: of its run loop, its sweeper, its listener, or the holder of its handle.  A
  handler may panic, which ends the run loop, a sweeper with a huge \<open>stale_after\<close> panics in the
  arithmetic of its cutoff, and the process may die.
\<close>

inductive worker_step ::
  "'n notify_lib \<Rightarrow> ('v \<Rightarrow> (string, 'p) result) \<Rightarrow> ('v, 'n) worker \<Rightarrow> 'v queue_sys
     \<Rightarrow> ('v, 'n) worker \<Rightarrow> 'v queue_sys \<Rightarrow> bool"
  for lib :: "'n notify_lib" and from_value :: "'v \<Rightarrow> (string, 'p) result"
where
  RunClaims: "w_run w = RunClaim \<Longrightarrow> run_loop_claim locked db w s = (w', s')
    \<Longrightarrow> worker_step lib from_value w s w' s'"
| RunProcesses: "w_run w = RunHandle c \<Longrightarrow> run_loop_process from_value handle db c w s = (w', s')
    \<Longrightarrow> worker_step lib from_value w s w' s'"
| RunPanics: "w_run w = RunHandle c \<Longrightarrow> worker_step lib from_value w s (abort_run w) (forget_running w s)"
| RunSelects: "w_run w = RunIdle \<Longrightarrow> worker_step lib from_value w s (run_loop_select lib (clock s) w) s"
| RunWakes: "w_run w = RunSelect since \<Longrightarrow> branch_ready lib RunTask (clock s) since (wc_poll_interval (w_config w)) w b
    \<Longrightarrow> worker_step lib from_value w s (run_loop_woken lib b w) s"
| SweepRounds: "w_sweep w = SweepRound \<Longrightarrow> sweeper_round db w s = (w', s') \<Longrightarrow> worker_step lib from_value w s w' s'"
| SweepPanics: "w_sweep w = SweepRound \<Longrightarrow> worker_step lib from_value w s (w\<lparr>w_sweep := SweepDone\<rparr>) s"
| SweepSelects: "w_sweep w = SweepIdle \<Longrightarrow> worker_step lib from_value w s (sweeper_select lib (clock s) w) s"
| SweepWakes: "w_sweep w = SweepSelect since \<Longrightarrow> branch_ready lib SweepTask (clock s) since (wc_sweep_interval (w_config w)) w b
    \<Longrightarrow> worker_step lib from_value w s (sweeper_woken lib b w) s"
| ListenOpens: "w_listen w = ListenOpen \<Longrightarrow> worker_step lib from_value w s (listener_opened connect listen w) s"
| ListenSelects: "w_listen w = ListenIdle \<Longrightarrow> worker_step lib from_value w s (consume_select lib w) s"
| ListenReceives: "w_listen w = ListenStream \<Longrightarrow> worker_step lib from_value w s (consume_next lib item w) s"
| ListenStops: "w_listen w = ListenStream \<Longrightarrow> nt_ready lib (w_shutdown w) ListenTask
    \<Longrightarrow> worker_step lib from_value w s (consume_shutdown lib w) s"
| ListenBacksOff: "w_listen w = ListenFailed \<Longrightarrow> worker_step lib from_value w s (wait_select lib (clock s) w) s"
| ListenWakes: "w_listen w = ListenWait since \<Longrightarrow> branch_ready lib ListenTask (clock s) since (from_secs 5) w b
    \<Longrightarrow> worker_step lib from_value w s (wait_or_shutdown lib b w) s"
| HandleShutdown: "w_handle w = Held \<Longrightarrow> worker_step lib from_value w s (shutdown_request lib w) s"
| HandleReturns: "w_handle w = Awaiting \<Longrightarrow> w_run w \<in> {RunDone, RunAborted}
    \<Longrightarrow> worker_step lib from_value w s (shutdown_return w) s"
| HandleAborts: "w_handle w = Held \<Longrightarrow> abort_handle w s = (w', s') \<Longrightarrow> worker_step lib from_value w s w' s'"
| HandleDropped: "w_handle w = Held \<Longrightarrow> worker_step lib from_value w s (w\<lparr>w_handle := Dropped\<rparr>) s"
| ProcessDies: "abort_handle w s = (w', s') \<Longrightarrow> worker_step lib from_value w s (w'\<lparr>w_handle := Dropped\<rparr>) s'"

record ('v, 'n) fleet =
  fl_sys :: "'v queue_sys"
  fl_workers :: "('v, 'n) worker list"

definition fleet_init :: "('v, 'n) fleet \<Rightarrow> bool" where
  "fleet_init f \<longleftrightarrow> queue_init (fl_sys f) \<and> fl_workers f = []"

text \<open>Time passes, producers enqueue and cancel, workers are spawned, and one worker at a time steps.\<close>

inductive fleet_step ::
  "'n notify_lib \<Rightarrow> ('p \<Rightarrow> (string, 'v) result) \<Rightarrow> ('v \<Rightarrow> (string, 'p) result)
     \<Rightarrow> ('v, 'n) fleet \<Rightarrow> ('v, 'n) fleet \<Rightarrow> bool"
  for lib :: "'n notify_lib" and to_value :: "'p \<Rightarrow> (string, 'v) result" and from_value :: "'v \<Rightarrow> (string, 'p) result"
where
  FleetTick: "clock (fl_sys f) \<le> now \<Longrightarrow> fleet_step lib to_value from_value f (f\<lparr>fl_sys := (fl_sys f)\<lparr>clock := now\<rparr>\<rparr>)"
| FleetEnqueue: "enqueue to_value queue (clock (fl_sys f)) (clock (fl_sys f)) fresh db payload opts (jobs (fl_sys f)) = (res, js)
    \<Longrightarrow> fleet_step lib to_value from_value f (f\<lparr>fl_sys := (fl_sys f)\<lparr>jobs := js\<rparr>\<rparr>)"
| FleetCancel: "cancel queue (clock (fl_sys f)) db jid (jobs (fl_sys f)) = (res, js)
    \<Longrightarrow> fleet_step lib to_value from_value f (f\<lparr>fl_sys := (fl_sys f)\<lparr>jobs := js\<rparr>\<rparr>)"
| FleetSpawn: "fleet_step lib to_value from_value f
    (f\<lparr>fl_workers := fl_workers f @ [spawn_worker_loop lib queue config uuid]\<rparr>)"
| FleetWorker: "i < length (fl_workers f) \<Longrightarrow> worker_step lib from_value (fl_workers f ! i) (fl_sys f) w' s'
    \<Longrightarrow> fleet_step lib to_value from_value f (f\<lparr>fl_sys := s', fl_workers := (fl_workers f)[i := w']\<rparr>)"

lemmas worker_ops = run_loop_claim_def run_loop_process_def run_loop_select_def run_loop_woken_def
  sweeper_round_def sweeper_select_def sweeper_woken_def listener_opened_def consume_select_def
  consume_shutdown_def consume_next_def wait_select_def wait_or_shutdown_def
  shutdown_request_def shutdown_return_def abort_run_def abort_handle_def

section \<open>The loops do steps of the queue\<close>

text \<open>The claims in flight are those of the workers.\<close>

definition fleet_ok :: "('v, 'n) fleet \<Rightarrow> bool" where
  "fleet_ok f \<longleftrightarrow> mset (inflight (fl_sys f)) = mset (concat (map running (fl_workers f)))"

text \<open>What a step of a worker does to the claims in flight, with its own among them.\<close>

lemma worker_step_running:
  assumes "worker_step lib from_value w s w' s'" and "mset (running w) \<subseteq># mset (inflight s)"
  shows "mset (inflight s') = mset (inflight s) - mset (running w) + mset (running w')"
  using assms
  by cases
    (auto simp: worker_ops running_def forget_running_def Let_def
      split: prod.splits option.splits run_pc.splits sum.splits stream_item.splits)

lemma remove1_split: "c \<in> set xs \<Longrightarrow> \<exists>ys zs. xs = ys @ c # zs \<and> remove1 c xs = ys @ zs"
  by (metis remove1_append remove1.simps(2) split_list_first)

lemma claim_simulates:
  assumes "run_loop_claim locked db w s = (w', s')"
  shows "s' = s \<or> queue_step to_value from_value s s'"
proof (cases "claim_one (w_queue w) (w_id w) (clock s) locked db (jobs s)")
  case (Pair r js)
  with assms claim_none [of "w_queue w" "w_id w" "clock s" locked db "jobs s"] show ?thesis
    by (cases r) (auto simp: run_loop_claim_def intro: queue_step.Claim)
qed

lemma process_simulates:
  assumes "c \<in> set (inflight s)" and "run_loop_process from_value handle db c w s = (w', s')"
  shows "queue_step to_value from_value s s'"
proof -
  from remove1_split [OF assms(1)] obtain xs ys where
    "inflight s = xs @ c # ys" "remove1 c (inflight s) = xs @ ys"
    by blast
  with assms(2) show ?thesis
    by (auto simp: run_loop_process_def intro: queue_step.Settle)
qed

lemma forget_simulates:
  assumes "mset (running w) \<subseteq># mset (inflight s)"
  shows "forget_running w s = s \<or> queue_step to_value from_value s (forget_running w s)"
proof (cases "w_run w")
  case (RunHandle c)
  with assms have "c \<in> set (inflight s)"
    by (simp add: running_def)
  from remove1_split [OF this] obtain xs ys where
    "inflight s = xs @ c # ys" "remove1 c (inflight s) = xs @ ys"
    by blast
  with RunHandle show ?thesis
    by (auto simp: forget_running_def running_def intro: queue_step.Crash)
qed (simp_all add: forget_running_def running_def)

lemma worker_step_simulates:
  assumes "worker_step lib from_value w s w' s'" and own: "mset (running w) \<subseteq># mset (inflight s)"
  shows "s' = s \<or> queue_step to_value from_value s s'"
  using assms(1)
proof cases
  case (RunProcesses c handle db)
  with own have "c \<in> set (inflight s)"
    by (simp add: running_def)
  with RunProcesses show ?thesis
    by (blast intro: process_simulates)
next
  case (SweepRounds db)
  then show ?thesis
    by (auto simp: sweeper_round_def intro: queue_step.Sweep)
next
  case (RunClaims locked db)
  from claim_simulates [OF RunClaims(2)] show ?thesis .
qed (use forget_simulates [OF own] in \<open>auto simp: abort_handle_def\<close>)

lemma running_spawned [simp]: "running (spawn_worker_loop lib queue config uuid) = []"
  by (simp add: running_def spawn_worker_loop_def)

lemma fleet_ok_split:
  assumes "fleet_ok f" and "i < length (fl_workers f)"
  obtains others where "mset (inflight (fl_sys f)) = mset (running (fl_workers f ! i)) + others"
    and "\<And>w. mset (concat (map running ((fl_workers f)[i := w]))) = mset (running w) + others"
proof
  let ?others = "mset (concat (map running (take i (fl_workers f)))) + mset (concat (map running (drop (Suc i) (fl_workers f))))"
  show "mset (concat (map running ((fl_workers f)[i := w]))) = mset (running w) + ?others" for w
    using assms(2) by (simp add: upd_conv_take_nth_drop)
  from this [of "fl_workers f ! i"] show "mset (inflight (fl_sys f)) = mset (running (fl_workers f ! i)) + ?others"
    using assms(1) by (simp add: fleet_ok_def)
qed

lemma own_in_flight:
  "fleet_ok f \<Longrightarrow> i < length (fl_workers f) \<Longrightarrow> mset (running (fl_workers f ! i)) \<subseteq># mset (inflight (fl_sys f))"
  by (erule (1) fleet_ok_split) simp

lemma fleet_step_ok:
  assumes "fleet_ok f" and "fleet_step lib to_value from_value f g"
  shows "fleet_ok g"
  using assms(2)
proof cases
  case (FleetWorker i w' s')
  note own = own_in_flight [OF assms(1) FleetWorker(2)]
  obtain others where "mset (inflight (fl_sys f)) = mset (running (fl_workers f ! i)) + others"
    and "\<And>w. mset (concat (map running ((fl_workers f)[i := w]))) = mset (running w) + others"
    using assms(1) FleetWorker(2) by (rule fleet_ok_split) blast
  with worker_step_running [OF FleetWorker(3) own] FleetWorker(1) show ?thesis
    by (simp add: fleet_ok_def)
qed (use assms(1) in \<open>simp_all add: fleet_ok_def\<close>)

interpretation worker_refinement:
  refined_system fleet_init "fleet_step lib to_value from_value" fleet_ok fl_sys "queue_step to_value from_value"
  for lib to_value from_value
proof (unfold_locales, goal_cases)
  case (1 f)
  then show ?case
    by (simp add: fleet_init_def queue_init_def fleet_ok_def)
next
  case (2 f g)
  then show ?case
    by (rule fleet_step_ok)
next
  case (3 f g)
  from 3(2) show ?case
  proof cases
    case (FleetWorker i w' s')
    from worker_step_simulates [OF FleetWorker(3) own_in_flight [OF 3(1) FleetWorker(2)]] FleetWorker(1) show ?thesis
      by simp
  qed (auto intro: queue_step.intros)
qed

section \<open>What a shutdown reaches\<close>

text \<open>
  A worker whose handle is still held has not been signalled, and its run loop listens for the signal
  only inside its \<open>select!\<close>.
\<close>

definition worker_ok :: "'n notify_lib \<Rightarrow> ('v, 'n) worker \<Rightarrow> bool" where
  "worker_ok lib w \<longleftrightarrow>
     (nt_ready lib (w_shutdown w) RunTask \<longrightarrow> w_handle w \<noteq> Held) \<and>
     (nt_listens lib (w_shutdown w) RunTask \<longrightarrow> w_run w = RunAborted \<or> (\<exists>since. w_run w = RunSelect since))"

text \<open>A worker that was asked to stop and did not hear it.\<close>

definition deaf :: "'n notify_lib \<Rightarrow> ('v, 'n) worker \<Rightarrow> bool" where
  "deaf lib w \<longleftrightarrow>
     w_handle w \<noteq> Held \<and> w_run w \<noteq> RunDone \<and> \<not> nt_ready lib (w_shutdown w) RunTask \<and>
     (w_handle w = Released \<longrightarrow> w_run w = RunAborted)"

lemma worker_step_ok:
  assumes "notify_ok lib" and "worker_step lib from_value w s w' s'" and "worker_ok lib w"
  shows "worker_ok lib w'"
  using assms(2)
  by cases
    (use assms(1,3) in \<open>auto simp: worker_ok_def worker_ops notify_ok_def Let_def
      split: prod.splits option.splits sum.splits stream_item.splits if_splits\<close>)

lemma worker_step_deaf:
  assumes "notify_ok lib" and "worker_step lib from_value w s w' s'" and "deaf lib w"
  shows "deaf lib w'"
  using assms(2)
  by cases
    (use assms(1,3) in \<open>auto simp: deaf_def worker_ops notify_ok_def branch_ready_def Let_def
      split: prod.splits option.splits sum.splits stream_item.splits if_splits branch.splits\<close>)

lemma spawned_ok: "notify_ok lib \<Longrightarrow> worker_ok lib (spawn_worker_loop lib queue config uuid)"
  by (simp add: worker_ok_def spawn_worker_loop_def notify_ok_def)

lemma fleet_workers_ok:
  assumes "notify_ok lib" and "(fleet_step lib to_value from_value)\<^sup>*\<^sup>* f g" and "\<forall>w\<in>set (fl_workers f). worker_ok lib w"
  shows "\<forall>w\<in>set (fl_workers g). worker_ok lib w"
  using assms(2,3)
proof (induction rule: rtranclp_induct)
  case (step g h)
  from step.hyps(2) show ?case
  proof cases
    case (FleetWorker i w' s')
    with step worker_step_ok [OF assms(1) FleetWorker(3)] show ?thesis
      by (auto dest!: subsetD [OF set_update_subset_insert])
  qed (use step spawned_ok [OF assms(1)] in auto)
qed

lemma fleet_deaf:
  assumes "notify_ok lib" and "(fleet_step lib to_value from_value)\<^sup>*\<^sup>* f g"
    and "i < length (fl_workers f) \<and> deaf lib (fl_workers f ! i)"
  shows "i < length (fl_workers g) \<and> deaf lib (fl_workers g ! i)"
  using assms(2,3)
proof (induction rule: rtranclp_induct)
  case (step g h)
  from step.hyps(2) show ?case
  proof cases
    case (FleetWorker j w' s')
    with step worker_step_deaf [OF assms(1) FleetWorker(3)] show ?thesis
      by (auto simp: nth_list_update)
  qed (use step in \<open>auto simp: nth_append\<close>)
qed

lemma busy_worker_turns_deaf:
  assumes "notify_ok lib" and "worker_ok lib w" and "w_handle w = Held"
    and "\<forall>since. w_run w \<noteq> RunSelect since" and "w_run w \<notin> {RunDone, RunAborted}"
  shows "deaf lib (shutdown_request lib w)"
  using assms by (auto simp: deaf_def worker_ok_def shutdown_request_def notify_ok_def)

section \<open>Properties\<close>

text \<open>
  C2: The tasks of the workers implement the queue.  Whatever run loops, sweepers, listeners, handles,
  panics and killed processes do, in any interleaving with producers, the table and the claims in
  flight go through a history of the queue, so its invariant holds; and at each moment the claims in
  flight are exactly those the run loops are processing.
\<close>

theorem worker_loops_implement_the_queue:
  assumes "fleet_init f" and "(fleet_step lib to_value from_value)\<^sup>*\<^sup>* f g"
  shows "(queue_step to_value from_value)\<^sup>*\<^sup>* (fl_sys f) (fl_sys g) \<and> queue_inv (fl_sys g) \<and>
    mset (inflight (fl_sys g)) = mset (concat (map running (fl_workers g)))"
proof -
  have history: "(queue_step to_value from_value)\<^sup>*\<^sup>* (fl_sys f) (fl_sys g)"
    using assms(2,1) by (rule worker_refinement.history_simulated)
  moreover have "fleet_ok g"
    using assms by (rule worker_refinement.reach_inv)
  moreover have "queue_inv (fl_sys g)"
    using job_system.reach_inv [OF _ history] assms(1) by (simp add: fleet_init_def)
  ultimately show ?thesis
    by (simp add: fleet_ok_def)
qed

text \<open>
  C27: A shutdown request is lost on a worker that is not idle.  \<open>shutdown\<close> wakes the futures that exist,
  and the run loop only has one inside its \<open>select!\<close>: asked while it claims or runs a job, the loop
  never returns in any later history, and the call never ends unless a handler panics or the process
  dies, although the handle documents that the loop stops after its current job.
\<close>

theorem shutdown_of_a_busy_worker_is_lost:
  assumes "notify_ok lib" and "fleet_init f\<^sub>0" and "(fleet_step lib to_value from_value)\<^sup>*\<^sup>* f\<^sub>0 f"
    and "i < length (fl_workers f)" and "fl_workers f ! i = w" and "w_handle w = Held"
    and "\<forall>since. w_run w \<noteq> RunSelect since" and "w_run w \<notin> {RunDone, RunAborted}"
    and later: "(fleet_step lib to_value from_value)\<^sup>*\<^sup>* (f\<lparr>fl_workers := (fl_workers f)[i := shutdown_request lib w]\<rparr>) g"
  shows "i < length (fl_workers g) \<and> w_run (fl_workers g ! i) \<noteq> RunDone \<and>
    (w_handle (fl_workers g ! i) = Released \<longrightarrow> w_run (fl_workers g ! i) = RunAborted)"
proof -
  have "worker_ok lib w"
    using fleet_workers_ok [OF assms(1,3)] assms(2,4,5) nth_mem by (auto simp: fleet_init_def)
  then have "deaf lib (shutdown_request lib w)"
    using assms(1,6-8) by (intro busy_worker_turns_deaf)
  then have "i < length (fl_workers g) \<and> deaf lib (fl_workers g ! i)"
    using fleet_deaf [OF assms(1) later, of i] assms(4) by simp
  then show ?thesis
    by (simp add: deaf_def)
qed

text \<open>An idle worker hears the request: the loop returns without touching the table, and so does the call.\<close>

theorem idle_worker_stops:
  assumes "notify_ok lib" and "w_run w = RunSelect since" and "w_handle w = Held"
    and "nt_listens lib (w_shutdown w) RunTask"
  shows "\<exists>w\<^sub>1 w\<^sub>2 w\<^sub>3. worker_step lib from_value w s w\<^sub>1 s \<and> worker_step lib from_value w\<^sub>1 s w\<^sub>2 s \<and>
    worker_step lib from_value w\<^sub>2 s w\<^sub>3 s \<and> w_run w\<^sub>3 = RunDone \<and> w_handle w\<^sub>3 = Released"
proof (intro exI conjI)
  let ?w1 = "shutdown_request lib w" and ?w2 = "run_loop_woken lib OnShutdown (shutdown_request lib w)"
  show "worker_step lib from_value w s ?w1 s"
    using assms(3) by (rule worker_step.HandleShutdown)
  show "worker_step lib from_value ?w1 s ?w2 s"
    using assms by (intro worker_step.RunWakes) (auto simp: shutdown_request_def branch_ready_def notify_ok_def)
  show "worker_step lib from_value ?w2 s (shutdown_return ?w2) s"
    by (rule worker_step.HandleReturns) (simp_all add: worker_ops)
qed (simp_all add: worker_ops)

text \<open>A wake-up that was missed costs at most a poll interval: then the worker looks again and takes a job.\<close>

theorem poll_finds_the_job:
  assumes "w_run w = RunSelect since" and "elapsed_since (clock s) since (wc_poll_interval (w_config w))"
    and "r \<in> set (jobs s)" and "claimable (w_queue w) (clock s) r"
  shows "\<exists>w\<^sub>1 w\<^sub>2 s\<^sub>2 c. worker_step lib from_value w s w\<^sub>1 s \<and> worker_step lib from_value w\<^sub>1 s w\<^sub>2 s\<^sub>2 \<and>
    w_run w\<^sub>2 = RunHandle c"
proof -
  let ?w = "run_loop_woken lib OnTimer w"
  have "worker_step lib from_value w s ?w s"
    using assms(1,2) by (intro worker_step.RunWakes) (auto simp: branch_ready_def)
  moreover obtain c js where c: "claim_one (w_queue w) (w_id w) (clock s) (\<lambda>_. False) (\<lambda>_. None) (jobs s) = (Some c, js)"
    using claim_none [of "w_queue w" "w_id w" "clock s" "\<lambda>_. False" "\<lambda>_. None" "jobs s"] assms(3,4)
    by (cases "claim_one (w_queue w) (w_id w) (clock s) (\<lambda>_. False) (\<lambda>_. None) (jobs s)") fastforce
  obtain w\<^sub>2 s\<^sub>2 where "run_loop_claim (\<lambda>_. False) (\<lambda>_. None) ?w s = (w\<^sub>2, s\<^sub>2)" "w_run w\<^sub>2 = RunHandle c"
    using c by (simp add: run_loop_claim_def run_loop_woken_def)
  moreover have "w_run ?w = RunClaim"
    by (simp add: run_loop_woken_def)
  ultimately show ?thesis
    by (blast intro: worker_step.RunClaims)
qed

section \<open>A concrete worker\<close>

definition plain_notify :: "((task \<Rightarrow> bool) \<times> (task \<Rightarrow> bool)) notify_lib" where
  "plain_notify =
     \<lparr>nt_new = (\<lambda>_. False, \<lambda>_. False),
      nt_notified = (\<lambda>t (l, r). (l(t := True), r(t := False))),
      nt_dropped = (\<lambda>t (l, r). (l(t := False), r(t := False))),
      nt_notify_waiters = (\<lambda>(l, r). (l, \<lambda>u. r u \<or> l u)),
      nt_ready = (\<lambda>(l, r). r), nt_listens = (\<lambda>(l, r). l)\<rparr>"

lemma plain_notify_ok: "notify_ok plain_notify"
  by (auto simp: notify_ok_def plain_notify_def)

text \<open>A worker is spawned on a table with one job, and claims it.\<close>

definition worker1 :: "(string, (task \<Rightarrow> bool) \<times> (task \<Rightarrow> bool)) worker" where
  "worker1 = spawn_worker_loop plain_notify ''q'' worker_config_default ''1''"

definition claim1 :: "string Claimed" where
  "claim1 = returning_claimed (claimed_row ''worker-1'' 0 (row1 3))"

definition busy_fleet :: "(string, (task \<Rightarrow> bool) \<times> (task \<Rightarrow> bool)) fleet" where
  "busy_fleet =
     \<lparr>fl_sys = \<lparr>clock = 0, jobs = [claimed_row ''worker-1'' 0 (row1 3)], inflight = [claim1], claim_log = [7]\<rparr>,
      fl_workers = [worker1\<lparr>w_run := RunHandle claim1\<rparr>]\<rparr>"

abbreviation fleet0 :: "(string, (task \<Rightarrow> bool) \<times> (task \<Rightarrow> bool)) fleet" where
  "fleet0 \<equiv> \<lparr>fl_sys = sys0, fl_workers = []\<rparr>"

abbreviation string_fleet_step ::
  "(string, (task \<Rightarrow> bool) \<times> (task \<Rightarrow> bool)) fleet \<Rightarrow> (string, (task \<Rightarrow> bool) \<times> (task \<Rightarrow> bool)) fleet \<Rightarrow> bool" where
  "string_fleet_step \<equiv> fleet_step plain_notify Inr Inr"

lemma fleet0_init: "fleet_init fleet0"
  by (simp add: fleet_init_def sys0_init)

lemma worker1_claims:
  "run_loop_claim (\<lambda>_. False) (\<lambda>_. None) worker1 (sys_enqueued 3) = (worker1\<lparr>w_run := RunHandle claim1\<rparr>, fl_sys busy_fleet)"
proof -
  have "claim_one ''q'' ''worker-1'' 0 (\<lambda>_. False) (\<lambda>_. None) [row1 3] = (Some claim1, [claimed_row ''worker-1'' 0 (row1 3)])"
    by (simp add: claim_one_def select_where_def claimable_def claim1_def)
  then show ?thesis
    by (simp add: run_loop_claim_def worker1_def spawn_worker_loop_def worker_config_default_def busy_fleet_def
        sys_enqueued_def sys0_def claim1_def returning_claimed_def claimed_row_def)
qed

lemma busy_fleet_reached: "string_fleet_step\<^sup>*\<^sup>* fleet0 busy_fleet"
proof -
  have "string_fleet_step fleet0 \<lparr>fl_sys = sys_enqueued 3, fl_workers = []\<rparr>"
    using fleet_step.FleetEnqueue [of Inr "''q''" fleet0 7 "\<lambda>_. None" "''p''" "opts1 3" "Inr 7" "[row1 3]" plain_notify Inr]
    by (simp add: sys_enqueued_def sys0_def enqueue_row1)
  moreover have "string_fleet_step \<lparr>fl_sys = sys_enqueued 3, fl_workers = []\<rparr> \<lparr>fl_sys = sys_enqueued 3, fl_workers = [worker1]\<rparr>"
    using fleet_step.FleetSpawn [of plain_notify Inr Inr "\<lparr>fl_sys = sys_enqueued 3, fl_workers = []\<rparr>" "''q''" worker_config_default "''1''"]
    by (simp add: worker1_def)
  moreover have "worker_step plain_notify Inr worker1 (sys_enqueued 3) (worker1\<lparr>w_run := RunHandle claim1\<rparr>) (fl_sys busy_fleet)"
    by (rule worker_step.RunClaims [OF _ worker1_claims]) (simp add: worker1_def spawn_worker_loop_def)
  then have "string_fleet_step \<lparr>fl_sys = sys_enqueued 3, fl_workers = [worker1]\<rparr> busy_fleet"
    using fleet_step.FleetWorker [of 0 "\<lparr>fl_sys = sys_enqueued 3, fl_workers = [worker1]\<rparr>" plain_notify Inr
        "worker1\<lparr>w_run := RunHandle claim1\<rparr>" "fl_sys busy_fleet" Inr]
    by (simp add: busy_fleet_def)
  ultimately show ?thesis
    by (meson rtranclp.rtrancl_refl rtranclp.rtrancl_into_rtrancl)
qed

theorem worker_loops_implement_the_queue_witness:
  "string_step\<^sup>*\<^sup>* sys0 (fl_sys busy_fleet) \<and> queue_inv (fl_sys busy_fleet) \<and> inflight (fl_sys busy_fleet) = [claim1]"
  using worker_loops_implement_the_queue [OF fleet0_init busy_fleet_reached] by (simp add: busy_fleet_def)

text \<open>The worker is asked to stop while it runs the job, and finishes the job.\<close>

definition asked_fleet :: "(string, (task \<Rightarrow> bool) \<times> (task \<Rightarrow> bool)) fleet" where
  "asked_fleet = busy_fleet\<lparr>fl_workers := [shutdown_request plain_notify (worker1\<lparr>w_run := RunHandle claim1\<rparr>)]\<rparr>"

definition served_fleet :: "(string, (task \<Rightarrow> bool) \<times> (task \<Rightarrow> bool)) fleet" where
  "served_fleet =
     (let (w, s) = run_loop_process Inr (\<lambda>_. Inr ()) (\<lambda>_. None) claim1 (fl_workers asked_fleet ! 0) (fl_sys asked_fleet)
      in asked_fleet\<lparr>fl_sys := s, fl_workers := [w]\<rparr>)"

lemma served_fleet_step: "string_fleet_step asked_fleet served_fleet"
proof -
  obtain w s where ws: "run_loop_process Inr (\<lambda>_. Inr ()) (\<lambda>_. None) claim1 (fl_workers asked_fleet ! 0) (fl_sys asked_fleet) = (w, s)"
    by (cases "run_loop_process Inr (\<lambda>_. Inr ()) (\<lambda>_. None) claim1 (fl_workers asked_fleet ! 0) (fl_sys asked_fleet)")
  have "worker_step plain_notify Inr (fl_workers asked_fleet ! 0) (fl_sys asked_fleet) w s"
    by (rule worker_step.RunProcesses [OF _ ws]) (simp add: asked_fleet_def shutdown_request_def)
  from fleet_step.FleetWorker [OF _ this, of Inr] show ?thesis
    by (simp add: served_fleet_def ws) (simp add: asked_fleet_def)
qed

theorem shutdown_of_a_busy_worker_is_lost_witness:
  "string_fleet_step asked_fleet served_fleet \<and> w_run (fl_workers served_fleet ! 0) \<noteq> RunDone \<and>
   w_handle (fl_workers served_fleet ! 0) = Awaiting"
proof (intro conjI)
  have "busy_fleet\<lparr>fl_workers := (fl_workers busy_fleet)[0 := shutdown_request plain_notify (worker1\<lparr>w_run := RunHandle claim1\<rparr>)]\<rparr> = asked_fleet"
    by (simp add: busy_fleet_def asked_fleet_def)
  with shutdown_of_a_busy_worker_is_lost [OF plain_notify_ok fleet0_init busy_fleet_reached, of 0 "worker1\<lparr>w_run := RunHandle claim1\<rparr>" served_fleet]
    served_fleet_step [THEN r_into_rtranclp [of string_fleet_step]]
  show "w_run (fl_workers served_fleet ! 0) \<noteq> RunDone"
    by (simp add: busy_fleet_def worker1_def spawn_worker_loop_def)
  show "w_handle (fl_workers served_fleet ! 0) = Awaiting"
    by (simp add: served_fleet_def asked_fleet_def run_loop_process_def shutdown_request_def)
qed (rule served_fleet_step)

end
