(* ===== verification/Sessions.thy ===== *)
theory Sessions
  imports Sql_Table
begin

text \<open>
  The file \<open>session.rs\<close> of the crate \<open>auth\<close>: refresh sessions in Postgres, their rotation and the
  detection of reused tokens.

  SHA-256 and the random generator belong to other crates: \<open>sha256\<close> is an argument, and so are the
  fresh ids and tokens an operation draws.  A statement may fail: \<open>db n\<close> is the error of the n-th
  statement of an operation.  A transaction that fails before its commit leaves the table alone;
  when the commit itself reports an error, \<open>lost\<close> tells whether the server had applied it.
\<close>

section \<open>The store\<close>

datatype SessionError = NotFound | Expired | Revoked | ReuseDetected | Db string

record Session =
  s_id :: uuid
  s_user_id :: uuid
  s_family_id :: uuid
  s_refresh_token_hash :: string
  s_user_agent :: "string option"
  s_ip :: "string option"
  s_created_at :: int
  s_last_used_at :: int
  s_revoked_at :: "int option"
  s_expires_at :: int

record IssuedSession =
  session :: Session
  refresh_token_plain :: string

text \<open>Fourteen days, in seconds.\<close>

abbreviation DEFAULT_REFRESH_TTL :: nat where
  "DEFAULT_REFRESH_TTL \<equiv> 14 * 24 * 60 * 60"

definition hash_refresh_token :: "(string \<Rightarrow> string) \<Rightarrow> string \<Rightarrow> string" where
  "hash_refresh_token sha256 plaintext = sha256 plaintext"

text \<open>\<open>encode\<close> is the URL-safe base64 encoder and \<open>bytes\<close> the random bytes.\<close>

definition generate_refresh_token :: "(string \<Rightarrow> string) \<Rightarrow> string \<Rightarrow> string" where
  "generate_refresh_token encode bytes = encode bytes"

text \<open>
  \<open>from_std\<close> is \<open>chrono::Duration::from_std\<close>, in the unit of the timestamps; \<open>days\<close> is the length of
  the given number of days in that unit.
\<close>

definition expiry :: "(nat \<Rightarrow> int option) \<Rightarrow> (int \<Rightarrow> int) \<Rightarrow> int \<Rightarrow> nat \<Rightarrow> int" where
  "expiry from_std days now refresh_ttl = now + unwrap_or (days 14) (from_std refresh_ttl)"

text \<open>The insert of a row, with the primary key of the schema.\<close>

definition insert_session ::
  "Session \<Rightarrow> Session list \<Rightarrow> (SessionError, Session list) result" where
  "insert_session row t =
     (if list_ex (\<lambda>r. s_id r = s_id row) t then Inl (Db ''duplicate key'') else Inr (t @ [row]))"

definition stmt :: "(nat \<Rightarrow> string option) \<Rightarrow> nat \<Rightarrow> (SessionError, unit) result" where
  "stmt db n = (case db n of None \<Rightarrow> Inr () | Some e \<Rightarrow> Inl (Db e))"

definition create ::
  "(string \<Rightarrow> string) \<Rightarrow> (nat \<Rightarrow> int option) \<Rightarrow> (int \<Rightarrow> int) \<Rightarrow> string \<Rightarrow> uuid \<Rightarrow> uuid \<Rightarrow> int
     \<Rightarrow> (nat \<Rightarrow> string option) \<Rightarrow> uuid \<Rightarrow> string option \<Rightarrow> string option \<Rightarrow> nat \<Rightarrow> Session list
     \<Rightarrow> (SessionError, IssuedSession) result \<times> Session list" where
  "create sha256 from_std days refresh_token new_id new_family now db user_id user_agent ip refresh_ttl t =
     (let row = \<lparr>s_id = new_id, s_user_id = user_id, s_family_id = new_family,
                 s_refresh_token_hash = hash_refresh_token sha256 refresh_token,
                 s_user_agent = user_agent, s_ip = ip, s_created_at = now, s_last_used_at = now,
                 s_revoked_at = None, s_expires_at = expiry from_std days now refresh_ttl\<rparr>
      in case try_bind (stmt db 0) (\<lambda>_. insert_session row t) of
           Inl e \<Rightarrow> (Inl e, t)
         | Inr t' \<Rightarrow> (Inr \<lparr>session = row, refresh_token_plain = refresh_token\<rparr>, t'))"

text \<open>
  The transaction of \<open>rotate\<close>: the answer and, when there is something to commit, the new table.
  \<open>db_now\<close> is the database's \<open>now()\<close>.
\<close>

definition revoke_row :: "int \<Rightarrow> Session \<Rightarrow> Session" where
  "revoke_row now r = r\<lparr>s_revoked_at := Some now\<rparr>"

definition burn_family :: "int \<Rightarrow> uuid \<Rightarrow> Session list \<Rightarrow> Session list" where
  "burn_family db_now family t =
     update_where (\<lambda>r. s_family_id r = family \<and> s_revoked_at r = None) (revoke_row db_now) t"

definition rotated_row ::
  "(string \<Rightarrow> string) \<Rightarrow> (nat \<Rightarrow> int option) \<Rightarrow> (int \<Rightarrow> int) \<Rightarrow> string \<Rightarrow> uuid \<Rightarrow> int \<Rightarrow> nat
     \<Rightarrow> Session \<Rightarrow> Session" where
  "rotated_row sha256 from_std days new_token new_id now refresh_ttl old =
     \<lparr>s_id = new_id, s_user_id = s_user_id old, s_family_id = s_family_id old,
      s_refresh_token_hash = hash_refresh_token sha256 new_token, s_user_agent = None, s_ip = None,
      s_created_at = now, s_last_used_at = now, s_revoked_at = None,
      s_expires_at = expiry from_std days now refresh_ttl\<rparr>"

text \<open>\<open>tx.commit()\<close> as the n-th statement: the table afterwards and whether it reported success.\<close>

definition commit ::
  "(nat \<Rightarrow> string option) \<Rightarrow> bool \<Rightarrow> nat \<Rightarrow> (SessionError, 'a) result \<Rightarrow> Session list \<Rightarrow> Session list
     \<Rightarrow> (SessionError, 'a) result \<times> Session list" where
  "commit db lost n answer t' t =
     (case db n of
        None \<Rightarrow> (answer, t')
      | Some e \<Rightarrow> (Inl (Db e), if lost then t' else t))"

definition rotate_session ::
  "(string \<Rightarrow> string) \<Rightarrow> (nat \<Rightarrow> int option) \<Rightarrow> (int \<Rightarrow> int) \<Rightarrow> string \<Rightarrow> uuid \<Rightarrow> int \<Rightarrow> int
     \<Rightarrow> (nat \<Rightarrow> string option) \<Rightarrow> bool \<Rightarrow> string \<Rightarrow> nat \<Rightarrow> Session list
     \<Rightarrow> (SessionError, IssuedSession) result \<times> Session list" where
  "rotate_session sha256 from_std days new_token new_id now db_now db lost refresh_token refresh_ttl t =
     (let hash = hash_refresh_token sha256 refresh_token
      in case try_bind (stmt db 0) (\<lambda>_. stmt db 1) of
           Inl e \<Rightarrow> (Inl e, t)
         | Inr _ \<Rightarrow>
             (case fetch_optional (select_where (\<lambda>r. s_refresh_token_hash r = hash) t) of
                None \<Rightarrow> (Inl NotFound, t)
              | Some old \<Rightarrow>
                  if s_revoked_at old \<noteq> None then
                    (case stmt db 2 of
                       Inl e \<Rightarrow> (Inl e, t)
                     | Inr _ \<Rightarrow>
                         commit db lost 3 (Inl ReuseDetected) (burn_family db_now (s_family_id old) t) t)
                  else if s_expires_at old < now then (Inl Expired, t)
                  else
                    (let t' = update_where (\<lambda>r. s_id r = s_id old) (revoke_row now) t;
                         row = rotated_row sha256 from_std days new_token new_id now refresh_ttl old
                     in case try_bind (stmt db 2) (\<lambda>_.
                             try_bind (stmt db 3) (\<lambda>_. insert_session row t')) of
                          Inl e \<Rightarrow> (Inl e, t)
                        | Inr t'' \<Rightarrow>
                            commit db lost 4
                              (Inr \<lparr>session = row, refresh_token_plain = new_token\<rparr>) t'' t)))"

definition revoke_family ::
  "int \<Rightarrow> (nat \<Rightarrow> string option) \<Rightarrow> uuid \<Rightarrow> Session list
     \<Rightarrow> (SessionError, unit) result \<times> Session list" where
  "revoke_family db_now db family t =
     (case stmt db 0 of Inl e \<Rightarrow> (Inl e, t) | Inr _ \<Rightarrow> (Inr (), burn_family db_now family t))"

definition get_active ::
  "(string \<Rightarrow> string) \<Rightarrow> int \<Rightarrow> (nat \<Rightarrow> string option) \<Rightarrow> string \<Rightarrow> Session list
     \<Rightarrow> (SessionError, Session) result" where
  "get_active sha256 db_now db refresh_token t =
     (let hash = hash_refresh_token sha256 refresh_token
      in try_bind (stmt db 0) (\<lambda>_.
           ok_or NotFound (fetch_optional (select_where
             (\<lambda>r. s_refresh_token_hash r = hash \<and> s_revoked_at r = None \<and> s_expires_at r > db_now) t))))"

section \<open>What the statements do to the table\<close>

lemma revoke_row_simps [simp]:
  "s_id (revoke_row now r) = s_id r" "s_family_id (revoke_row now r) = s_family_id r"
  "s_refresh_token_hash (revoke_row now r) = s_refresh_token_hash r"
  "s_user_id (revoke_row now r) = s_user_id r"
  "s_revoked_at (revoke_row now r) = Some now"
  by (simp_all add: revoke_row_def)

lemma rotated_row_simps [simp]:
  "s_id (rotated_row sha fs d tok i now ttl old) = i"
  "s_family_id (rotated_row sha fs d tok i now ttl old) = s_family_id old"
  "s_user_id (rotated_row sha fs d tok i now ttl old) = s_user_id old"
  "s_refresh_token_hash (rotated_row sha fs d tok i now ttl old) = sha tok"
  "s_revoked_at (rotated_row sha fs d tok i now ttl old) = None"
  "s_expires_at (rotated_row sha fs d tok i now ttl old) = expiry fs d now ttl"
  by (simp_all add: rotated_row_def hash_refresh_token_def)

lemma insert_session_Inr_iff:
  "insert_session row t = Inr t' \<longleftrightarrow> s_id row \<notin> s_id ` set t \<and> t' = t @ [row]"
  by (auto simp: insert_session_def list_ex_iff) (metis imageI)+

text \<open>The table after replacing the session \<open>old\<close> by a fresh one of its family.\<close>

definition replaced ::
  "(string \<Rightarrow> string) \<Rightarrow> (nat \<Rightarrow> int option) \<Rightarrow> (int \<Rightarrow> int) \<Rightarrow> string \<Rightarrow> uuid \<Rightarrow> int \<Rightarrow> nat \<Rightarrow> Session
     \<Rightarrow> Session list \<Rightarrow> Session list" where
  "replaced sha256 from_std days new_token new_id now refresh_ttl old t =
     update_where (\<lambda>r. s_id r = s_id old) (revoke_row now) t
       @ [rotated_row sha256 from_std days new_token new_id now refresh_ttl old]"

lemma ids_revoked [simp]: "s_id ` set (update_where P (revoke_row now) t) = s_id ` set t"
  by (induction t) auto

lemma lookup_hash:
  "fetch_optional (select_where (\<lambda>r. s_refresh_token_hash r = h) t) = Some old \<Longrightarrow>
   old \<in> set t \<and> s_refresh_token_hash old = h"
  by (drule fetch_optional_Some_mem) (simp add: select_where_def)

lemma rotate_cases:
  assumes "rotate_session sha256 from_std days new_token new_id now db_now db lost tok ttl t = (res, t')"
  shows "(t' = t \<and> (\<forall>issued. res \<noteq> Inr issued)) \<or>
    (\<exists>old. old \<in> set t \<and> t' = burn_family db_now (s_family_id old) t \<and> (\<forall>issued. res \<noteq> Inr issued)) \<or>
    (\<exists>old. old \<in> set t \<and> s_revoked_at old = None \<and> s_refresh_token_hash old = sha256 tok \<and>
       now \<le> s_expires_at old \<and> new_id \<notin> s_id ` set t \<and>
       t' = replaced sha256 from_std days new_token new_id now ttl old t \<and>
       (\<forall>issued. res = Inr issued \<longrightarrow>
          issued = \<lparr>session = rotated_row sha256 from_std days new_token new_id now ttl old,
                    refresh_token_plain = new_token\<rparr>))"
  using assms
  unfolding rotate_session_def Let_def commit_def hash_refresh_token_def
  by (simp split: sum.splits option.splits if_splits)
    (auto simp: result_simps insert_session_Inr_iff replaced_def not_less dest!: lookup_hash)

section \<open>The system\<close>

text \<open>
  Any interleaving of logins, rotations and logouts.  The randomness the code relies on is in the
  rules: a new family id and the hash of a new token are not yet in the table.
\<close>

inductive session_step ::
  "(string \<Rightarrow> string) \<Rightarrow> (nat \<Rightarrow> int option) \<Rightarrow> (int \<Rightarrow> int) \<Rightarrow> Session list \<Rightarrow> Session list \<Rightarrow> bool"
  for sha256 :: "string \<Rightarrow> string" and from_std :: "nat \<Rightarrow> int option" and days :: "int \<Rightarrow> int"
where
  Create: "create sha256 from_std days tok new_id new_family now db user ua ip ttl t = (res, t') \<Longrightarrow>
    sha256 tok \<notin> s_refresh_token_hash ` set t \<Longrightarrow> new_family \<notin> s_family_id ` set t \<Longrightarrow>
    session_step sha256 from_std days t t'"
| Rotate: "rotate_session sha256 from_std days new_token new_id now db_now db lost tok ttl t = (res, t') \<Longrightarrow>
    sha256 new_token \<notin> s_refresh_token_hash ` set t \<Longrightarrow> session_step sha256 from_std days t t'"
| Revoke: "revoke_family db_now db family t = (res, t') \<Longrightarrow> session_step sha256 from_std days t t'"

text \<open>Ids and hashes are unique, and each family has at most one session that is not revoked.\<close>

definition live_in :: "uuid \<Rightarrow> Session list \<Rightarrow> Session list" where
  "live_in family t = filter (\<lambda>r. s_family_id r = family \<and> s_revoked_at r = None) t"

definition sessions_ok :: "Session list \<Rightarrow> bool" where
  "sessions_ok t \<longleftrightarrow>
     distinct (map s_id t) \<and> distinct (map s_refresh_token_hash t) \<and>
     (\<forall>family. length (live_in family t) \<le> 1)"

lemma live_in_simps [simp]:
  "live_in f [] = []"
  "live_in f (r # t) = (if s_family_id r = f \<and> s_revoked_at r = None then r # live_in f t else live_in f t)"
  "live_in f (t @ u) = live_in f t @ live_in f u"
  by (simp_all add: live_in_def)

lemma live_in_Nil_iff: "live_in f t = [] \<longleftrightarrow> (\<forall>r\<in>set t. s_family_id r = f \<longrightarrow> s_revoked_at r \<noteq> None)"
  by (auto simp: live_in_def filter_empty_conv)

lemma live_in_fresh: "f \<notin> s_family_id ` set t \<Longrightarrow> live_in f t = []"
  by (auto simp: live_in_Nil_iff)

lemma live_in_revoke: "length (live_in f (update_where P (revoke_row now) t)) \<le> length (live_in f t)"
  by (induction t) auto

lemma live_in_old_revoked:
  assumes "length (live_in (s_family_id old) t) \<le> 1" and "old \<in> set t" and "s_revoked_at old = None"
  shows "live_in (s_family_id old) (update_where (\<lambda>r. s_id r = s_id old) (revoke_row now) t) = []"
  using assms
proof (induction t)
  case (Cons r t)
  show ?case
  proof (cases "s_family_id r = s_family_id old \<and> s_revoked_at r = None")
    case True
    with Cons.prems have none: "live_in (s_family_id old) t = []"
      by simp
    with Cons.prems(2,3) True have "old = r"
      by (auto simp: live_in_Nil_iff)
    moreover have "length (live_in (s_family_id old)
        (update_where (\<lambda>q. s_id q = s_id old) (revoke_row now) t)) \<le> 0"
      using live_in_revoke [of "s_family_id old" "\<lambda>q. s_id q = s_id old" now t] none by simp
    ultimately show ?thesis
      by simp
  next
    case False
    with Cons show ?thesis
      by auto
  qed
qed simp

lemma sessions_ok_revoke:
  assumes "sessions_ok t"
  shows "sessions_ok (update_where P (revoke_row now) t)"
proof -
  have "length (live_in f (update_where P (revoke_row now) t)) \<le> 1" for f
    using assms live_in_revoke [of f P now t] by (auto simp: sessions_ok_def intro: le_trans)
  with assms show ?thesis
    by (simp add: sessions_ok_def map_update_where)
qed

lemma sessions_ok_insert:
  assumes "sessions_ok t" and "s_id row \<notin> s_id ` set t"
    and "s_refresh_token_hash row \<notin> s_refresh_token_hash ` set t"
    and "live_in (s_family_id row) t = []"
  shows "sessions_ok (t @ [row])"
  using assms by (auto simp: sessions_ok_def)

lemma hashes_revoked [simp]:
  "s_refresh_token_hash ` set (update_where P (revoke_row now) t) = s_refresh_token_hash ` set t"
  by (induction t) auto

lemma sessions_ok_replaced:
  assumes "sessions_ok t" and "old \<in> set t" and "s_revoked_at old = None"
    and "new_id \<notin> s_id ` set t" and "sha256 new_token \<notin> s_refresh_token_hash ` set t"
  shows "sessions_ok (replaced sha256 from_std days new_token new_id now ttl old t)"
proof -
  have "live_in (s_family_id old) (update_where (\<lambda>r. s_id r = s_id old) (revoke_row now) t) = []"
    using assms by (intro live_in_old_revoked) (simp_all add: sessions_ok_def)
  with assms show ?thesis
    unfolding replaced_def by (intro sessions_ok_insert sessions_ok_revoke) simp_all
qed

lemma create_cases:
  assumes "create sha256 from_std days tok new_id new_family now db user ua ip ttl t = (res, t')"
  shows "t' = t \<or> (\<exists>row. t' = t @ [row] \<and> s_id row \<notin> s_id ` set t \<and> s_family_id row = new_family \<and>
    s_refresh_token_hash row = sha256 tok)"
  using assms
  by (auto simp: create_def Let_def result_simps insert_session_Inr_iff hash_refresh_token_def
      split: sum.splits)

lemma revoke_cases:
  "revoke_family db_now db family t = (res, t') \<Longrightarrow> t' = t \<or> t' = burn_family db_now family t"
  by (auto simp: revoke_family_def split: sum.splits)

lemma session_step_ok:
  assumes ok: "sessions_ok t" and "session_step sha256 from_std days t t'"
  shows "sessions_ok t'"
  using assms(2)
proof cases
  case (Create tok new_id new_family now db user ua ip ttl res)
  from create_cases [OF Create(1)] show ?thesis
    by (elim disjE exE conjE) (use ok Create(2,3) in \<open>simp_all add: sessions_ok_insert live_in_fresh\<close>)
next
  case (Rotate new_token new_id now db_now db lost tok ttl res)
  from rotate_cases [OF Rotate(1)] show ?thesis
    using ok Rotate(2) by (auto intro: sessions_ok_revoke sessions_ok_replaced simp: burn_family_def)
next
  case (Revoke db_now db family res)
  from revoke_cases [OF Revoke] show ?thesis
    using ok by (auto intro: sessions_ok_revoke simp: burn_family_def)
qed

definition sessions_init :: "Session list \<Rightarrow> bool" where
  "sessions_init t \<longleftrightarrow> t = []"

interpretation session_system:
  invariant_system sessions_init "session_step sha256 from_std days" sessions_ok
  for sha256 :: "string \<Rightarrow> string" and from_std :: "nat \<Rightarrow> int option" and days :: "int \<Rightarrow> int"
  by unfold_locales (auto simp: sessions_init_def sessions_ok_def [of "[]"] intro: session_step_ok)

section \<open>Reuse detection\<close>

lemma lookup_unique:
  assumes "sessions_ok t" and "r \<in> set t"
  shows "fetch_optional (select_where (\<lambda>q. s_refresh_token_hash q = s_refresh_token_hash r) t) = Some r"
  using assms by (simp add: select_where_def filter_unique_key sessions_ok_def)

text \<open>A row is never deleted, and a revoked row never changes again.\<close>

lemma replaced_row:
  assumes "sessions_ok t" and "r \<in> set t" and "old \<in> set t" and "s_revoked_at old = None"
    and "t' = replaced sha256 from_std days new_token new_id now ttl old t"
  shows "r \<in> set t' \<or> (s_revoked_at r = None \<and> revoke_row now r \<in> set t')"
proof (cases "s_id r = s_id old")
  case True
  then have "r = old"
    using assms(1-3) by (auto simp: sessions_ok_def distinct_map dest: inj_onD)
  with assms show ?thesis
    by (simp add: replaced_def set_update_where)
next
  case False
  with assms(2,5) show ?thesis
    by (simp add: replaced_def set_update_where)
qed

lemma burnt_row:
  "r \<in> set t \<Longrightarrow> r \<in> set (burn_family now f t) \<or>
     (s_revoked_at r = None \<and> revoke_row now r \<in> set (burn_family now f t))"
  by (auto simp: burn_family_def set_update_where)

lemma session_row:
  assumes "sessions_ok t" and "session_step sha256 from_std days t t'" and r: "r \<in> set t"
  shows "r \<in> set t' \<or> (s_revoked_at r = None \<and> (\<exists>now. revoke_row now r \<in> set t'))"
  using assms(2)
proof cases
  case (Create tok new_id new_family now db user ua ip ttl res)
  from create_cases [OF Create(1)] show ?thesis
    using r by auto
next
  case (Rotate new_token new_id now db_now db lost tok ttl res)
  from rotate_cases [OF Rotate(1)] show ?thesis
    using r burnt_row [OF r] replaced_row [OF assms(1) r] by (elim disjE exE conjE) blast+
next
  case (Revoke db_now db family res)
  from revoke_cases [OF Revoke] show ?thesis
    using r burnt_row [OF r] by blast
qed

lemma revoked_row_stays:
  assumes "sessions_ok t" and "(session_step sha256 from_std days)\<^sup>*\<^sup>* t t'"
    and "r \<in> set t" and "s_revoked_at r \<noteq> None"
  shows "r \<in> set t'"
  by (rule session_system.stable [where P = "\<lambda>t. r \<in> set t", OF _ assms(2,1,3)])
    (metis session_row assms(4))

text \<open>A family all of whose sessions are revoked.\<close>

definition dead_family :: "uuid \<Rightarrow> Session list \<Rightarrow> bool" where
  "dead_family f t \<longleftrightarrow> f \<in> s_family_id ` set t \<and> live_in f t = []"

lemma families_revoked [simp]:
  "s_family_id ` set (update_where P (revoke_row now) t) = s_family_id ` set t"
  by (induction t) auto

lemma dead_family_revoke: "dead_family f t \<Longrightarrow> dead_family f (update_where P (revoke_row now) t)"
  using live_in_revoke [of f P now t] by (simp add: dead_family_def)

lemma dead_family_insert:
  "dead_family f t \<Longrightarrow> s_family_id row \<noteq> f \<Longrightarrow> dead_family f (t @ [row])"
  by (simp add: dead_family_def)

lemma dead_family_live: "dead_family f t \<Longrightarrow> r \<in> set t \<Longrightarrow> s_revoked_at r = None \<Longrightarrow> s_family_id r \<noteq> f"
  by (auto simp: dead_family_def live_in_Nil_iff)

lemma dead_family_step:
  assumes "dead_family f t" and "session_step sha256 from_std days t t'"
  shows "dead_family f t'"
  using assms(2)
proof cases
  case (Create tok new_id new_family now db user ua ip ttl res)
  moreover have "new_family \<noteq> f"
    using Create(3) assms(1) by (auto simp: dead_family_def)
  ultimately show ?thesis
    using create_cases [OF Create(1)] assms(1) by (auto intro: dead_family_insert)
next
  case (Rotate new_token new_id now db_now db lost tok ttl res)
  from rotate_cases [OF Rotate(1)] show ?thesis
    by (elim disjE exE conjE)
      (use assms(1) dead_family_live [OF assms(1)] in
        \<open>simp_all add: burn_family_def replaced_def dead_family_insert dead_family_revoke\<close>)
next
  case (Revoke db_now db family res)
  from revoke_cases [OF Revoke] show ?thesis
    using assms(1) by (auto simp: burn_family_def intro: dead_family_revoke)
qed

lemma dead_family_stays:
  "(session_step sha256 from_std days)\<^sup>*\<^sup>* t t' \<Longrightarrow> dead_family f t \<Longrightarrow> dead_family f t'"
  by (induction rule: rtranclp_induct) (auto intro: dead_family_step)

lemma live_in_burnt:
  "live_in f (update_where (\<lambda>r. s_family_id r = f \<and> s_revoked_at r = None) (revoke_row now) t) = []"
  by (induction t) auto

lemma burn_family_dead: "f \<in> s_family_id ` set t \<Longrightarrow> dead_family f (burn_family now f t)"
  by (simp add: dead_family_def burn_family_def live_in_burnt)

text \<open>No token gives access to a dead family.\<close>

lemma dead_family_get_active:
  "dead_family f t \<Longrightarrow> get_active sha256 now db u t = Inr s \<Longrightarrow> s_family_id s \<noteq> f"
  by (auto simp: get_active_def result_simps select_where_def Let_def
      dest!: fetch_optional_Some_mem dest: dead_family_live)

lemma dead_family_rotate:
  assumes "dead_family f t"
    and "rotate_session sha256 from_std days new_token new_id now db_now db lost u ttl t = (Inr i, t')"
  shows "s_family_id (session i) \<noteq> f"
  using rotate_cases [OF assms(2)]
  by (elim disjE exE conjE) (use dead_family_live [OF assms(1)] in \<open>simp_all\<close>)

section \<open>What the store guarantees\<close>

text \<open>
  C17: after any history of logins, rotations and logouts, session ids and token hashes are unique and
  each family has at most one session that is not revoked: at any moment one refresh token per
  login is valid.
\<close>

theorem one_live_session_per_family:
  assumes "(session_step sha256 from_std days)\<^sup>*\<^sup>* [] t"
  shows "distinct (map s_id t) \<and> distinct (map s_refresh_token_hash t) \<and>
    length (live_in family t) \<le> 1"
  using session_system.reach_inv [OF _ assms] by (simp add: sessions_init_def sessions_ok_def)

lemma get_active_known:
  assumes "sessions_ok t" and "r \<in> set t" and "sha256 u = s_refresh_token_hash r"
  shows "get_active sha256 now (\<lambda>_. None) u t =
    (if s_revoked_at r = None \<and> now < s_expires_at r then Inr r else Inl NotFound)"
proof -
  let ?p = "\<lambda>q. s_refresh_token_hash q = s_refresh_token_hash r"
  have one: "filter ?p t = [r]"
    using assms by (simp add: filter_unique_key sessions_ok_def)
  have "filter (\<lambda>q. ?p q \<and> s_revoked_at q = None \<and> now < s_expires_at q) t
      = filter (\<lambda>q. s_revoked_at q = None \<and> now < s_expires_at q) (filter ?p t)"
    by (simp add: conj_commute conj_left_commute)
  then show ?thesis
    using assms(3) one
    by (auto simp: get_active_def hash_refresh_token_def stmt_def select_where_def Let_def result_simps)
qed

text \<open>
  What a rotation does.  When it succeeds, the presented token named a session that was neither
  revoked nor expired; the new session belongs to the same user and family and is found under the
  new token until it expires, and the presented token no longer finds a session.
\<close>

theorem rotation_replaces_the_token:
  assumes "(session_step sha256 from_std days)\<^sup>*\<^sup>* [] t"
    and rot: "rotate_session sha256 from_std days new_token new_id now db_now db lost tok ttl t = (Inr issued, t')"
    and fresh: "sha256 new_token \<notin> s_refresh_token_hash ` set t"
  shows "\<exists>old\<in>set t. s_refresh_token_hash old = sha256 tok \<and> s_revoked_at old = None \<and>
    now \<le> s_expires_at old \<and> s_user_id (session issued) = s_user_id old \<and>
    s_family_id (session issued) = s_family_id old \<and> refresh_token_plain issued = new_token \<and>
    (\<forall>later < expiry from_std days now ttl.
       get_active sha256 later (\<lambda>_. None) new_token t' = Inr (session issued)) \<and>
    (\<forall>later. get_active sha256 later (\<lambda>_. None) tok t' = Inl NotFound)"
proof -
  have ok: "sessions_ok t"
    using session_system.reach_inv [OF _ assms(1)] by (simp add: sessions_init_def)
  have ok': "sessions_ok t'"
    using ok session_step.Rotate [OF rot fresh] by (rule session_step_ok)
  from rotate_cases [OF rot] obtain old where old: "old \<in> set t" "s_revoked_at old = None"
      "s_refresh_token_hash old = sha256 tok" "now \<le> s_expires_at old"
      "t' = replaced sha256 from_std days new_token new_id now ttl old t"
      "issued = \<lparr>session = rotated_row sha256 from_std days new_token new_id now ttl old,
                 refresh_token_plain = new_token\<rparr>"
    by auto
  have "session issued \<in> set t'"
    using old by (simp add: replaced_def)
  note new = get_active_known [OF ok' this, of sha256 new_token]
  have "revoke_row now old \<in> set t'"
    using old by (auto simp: replaced_def set_update_where)
  note gone = get_active_known [OF ok' this, of sha256 tok]
  show ?thesis
    using old(6) new gone by (intro bexI [OF _ old(1)]) (simp add: old)
qed


section \<open>A history\<close>

text \<open>A login at time 0 with token \<open>a\<close>, rotated to \<open>b\<close> at time 10; the hash is the identity.\<close>

definition login_row :: Session where
  "login_row = \<lparr>s_id = 1, s_user_id = 9, s_family_id = 5, s_refresh_token_hash = ''a'',
     s_user_agent = None, s_ip = None, s_created_at = 0, s_last_used_at = 0, s_revoked_at = None,
     s_expires_at = 100\<rparr>"

abbreviation plain_step :: "Session list \<Rightarrow> Session list \<Rightarrow> bool" where
  "plain_step \<equiv> session_step (\<lambda>s. s) (\<lambda>n. Some (int n)) (\<lambda>d. d * 86400)"

definition rotated_login :: "Session list" where
  "rotated_login = replaced (\<lambda>s. s) (\<lambda>n. Some (int n)) (\<lambda>d. d * 86400) ''b'' 2 10 100 login_row [login_row]"

lemma login_step: "plain_step\<^sup>*\<^sup>* [] [login_row]"
proof -
  have "create (\<lambda>s. s) (\<lambda>n. Some (int n)) (\<lambda>d. d * 86400) ''a'' 1 5 0 (\<lambda>_. None) 9 None None 100 []
      = (Inr \<lparr>session = login_row, refresh_token_plain = ''a''\<rparr>, [login_row])"
    by (simp add: create_def login_row_def stmt_def insert_session_def expiry_def unwrap_or_def
        hash_refresh_token_def result_simps Let_def)
  from session_step.Create [OF this] show ?thesis
    by simp
qed

lemma login_rotate:
  "rotate_session (\<lambda>s. s) (\<lambda>n. Some (int n)) (\<lambda>d. d * 86400) ''b'' 2 10 10 (\<lambda>_. None) False ''a'' 100 [login_row]
   = (Inr \<lparr>session = rotated_row (\<lambda>s. s) (\<lambda>n. Some (int n)) (\<lambda>d. d * 86400) ''b'' 2 10 100 login_row,
           refresh_token_plain = ''b''\<rparr>, rotated_login)"
  by (simp add: rotate_session_def login_row_def stmt_def insert_session_def hash_refresh_token_def
      select_where_def commit_def rotated_login_def replaced_def rotated_row_def result_simps
      Let_def)

theorem one_live_session_per_family_witness: "length (live_in 5 rotated_login) = 1 \<and>
    distinct (map s_id rotated_login)"
proof -
  have "plain_step [login_row] rotated_login"
    by (rule session_step.Rotate [OF login_rotate]) (simp add: login_row_def)
  with login_step have "plain_step\<^sup>*\<^sup>* [] rotated_login"
    by (rule rtranclp.rtrancl_into_rtrancl)
  from one_live_session_per_family [OF this, of 5] show ?thesis
    by (simp add: rotated_login_def replaced_def login_row_def rotated_row_def)
qed

theorem rotation_replaces_the_token_witness:
  "get_active (\<lambda>s. s) 20 (\<lambda>_. None) ''a'' rotated_login = Inl NotFound"
  using rotation_replaces_the_token [OF login_step login_rotate] by (auto simp: login_row_def)


end
