(* ===== verification/Session_Refine.thy ===== *)
theory Session_Refine
  imports Sessions
begin

text \<open>
  The contract of the refresh sessions and the proof that the table of \<open>session.rs\<close> implements it.  The
  abstract machine knows of a token only who owns it, which login it descends from, whether it is
  still live and when it expires; ids, devices, timestamps and the order of rows are gone.
\<close>

section \<open>The token machine\<close>

record token_view =
  tv_user :: uuid
  tv_family :: uuid
  tv_live :: bool
  tv_expires :: int

type_synonym token_machine = "string \<rightharpoonup> token_view"

definition kill_token :: "token_view \<Rightarrow> token_view" where
  "kill_token k = k\<lparr>tv_live := False\<rparr>"

definition kill_family :: "uuid \<Rightarrow> token_machine \<Rightarrow> token_machine" where
  "kill_family f m = (\<lambda>h. map_option (\<lambda>k. if tv_family k = f then kill_token k else k) (m h))"

definition spec_login :: "string \<Rightarrow> uuid \<Rightarrow> uuid \<Rightarrow> int \<Rightarrow> token_machine \<Rightarrow> token_machine" where
  "spec_login h user family expires m = m(h \<mapsto> \<lparr>tv_user = user, tv_family = family, tv_live = True, tv_expires = expires\<rparr>)"

definition spec_rotate ::
  "string \<Rightarrow> string \<Rightarrow> int \<Rightarrow> int \<Rightarrow> token_machine \<Rightarrow> (SessionError, token_view) result \<times> token_machine" where
  "spec_rotate h h' now expires m =
     (case m h of
        None \<Rightarrow> (Inl NotFound, m)
      | Some k \<Rightarrow>
          if \<not> tv_live k then (Inl ReuseDetected, kill_family (tv_family k) m)
          else if tv_expires k < now then (Inl Expired, m)
          else (Inr (k\<lparr>tv_expires := expires\<rparr>), m(h \<mapsto> kill_token k, h' \<mapsto> k\<lparr>tv_expires := expires\<rparr>)))"

definition spec_find :: "string \<Rightarrow> int \<Rightarrow> token_machine \<Rightarrow> (SessionError, token_view) result" where
  "spec_find h now m =
     (case m h of
        None \<Rightarrow> Inl NotFound
      | Some k \<Rightarrow> if tv_live k \<and> now < tv_expires k then Inr k else Inl NotFound)"

text \<open>Steps of the machine: a login with a new token of a new family, a rotation to a new token, a logout.\<close>

inductive token_step :: "token_machine \<Rightarrow> token_machine \<Rightarrow> bool" where
  Login: "m h = None \<Longrightarrow> (\<forall>h' k. m h' = Some k \<longrightarrow> tv_family k \<noteq> family) \<Longrightarrow>
    token_step m (spec_login h user family expires m)"
| Rotation: "m h' = None \<Longrightarrow> token_step m (snd (spec_rotate h h' now expires m))"
| Logout: "token_step m (kill_family family m)"

section \<open>The abstraction of a table\<close>

definition view_row :: "Session \<Rightarrow> token_view" where
  "view_row r = \<lparr>tv_user = s_user_id r, tv_family = s_family_id r, tv_live = (s_revoked_at r = None), tv_expires = s_expires_at r\<rparr>"

definition row_of :: "Session list \<Rightarrow> string \<Rightarrow> Session option" where
  "row_of t h = fetch_optional (select_where (\<lambda>r. s_refresh_token_hash r = h) t)"

definition tokens_of :: "Session list \<Rightarrow> token_machine" where
  "tokens_of t = (\<lambda>h. map_option view_row (row_of t h))"

lemma view_revoke [simp]: "view_row (revoke_row now r) = kill_token (view_row r)"
  by (simp add: view_row_def kill_token_def revoke_row_def)

lemma view_row_sel [simp]:
  "tv_live (view_row r) \<longleftrightarrow> s_revoked_at r = None" "tv_family (view_row r) = s_family_id r"
  "tv_expires (view_row r) = s_expires_at r" "tv_user (view_row r) = s_user_id r"
  by (simp_all add: view_row_def)

lemma kill_dead: "\<not> tv_live k \<Longrightarrow> kill_token k = k"
  by (simp add: kill_token_def)

lemma row_of_simps [simp]:
  "row_of [] h = None"
  "row_of (r # t) h = (if s_refresh_token_hash r = h then Some r else row_of t h)"
  by (simp_all add: row_of_def select_where_def)

lemma row_of_append: "row_of (t @ u) h = (case row_of t h of None \<Rightarrow> row_of u h | Some r \<Rightarrow> Some r)"
  by (induction t) auto

lemma row_of_mem: "row_of t h = Some r \<Longrightarrow> r \<in> set t \<and> s_refresh_token_hash r = h"
  unfolding row_of_def by (rule lookup_hash)

lemma row_of_None_iff: "row_of t h = None \<longleftrightarrow> h \<notin> s_refresh_token_hash ` set t"
  by (induction t) auto

lemma row_of_revoke:
  "row_of (update_where P (revoke_row now) t) h = map_option (\<lambda>r. if P r then revoke_row now r else r) (row_of t h)"
  by (induction t) auto

lemma tokens_of_Nil [simp]: "tokens_of [] = Map.empty"
  by (simp add: tokens_of_def)

lemma tokens_of_insert:
  "s_refresh_token_hash row \<notin> s_refresh_token_hash ` set t \<Longrightarrow>
   tokens_of (t @ [row]) = (tokens_of t)(s_refresh_token_hash row \<mapsto> view_row row)"
  by (rule ext) (auto simp: tokens_of_def row_of_append row_of_None_iff [THEN iffD2] split: option.splits)

text \<open>Each statement on the table is the operation of the machine.\<close>

lemma tokens_of_burn: "tokens_of (burn_family now f t) = kill_family f (tokens_of t)"
proof
  fix h
  show "tokens_of (burn_family now f t) h = kill_family f (tokens_of t) h"
    by (cases "row_of t h") (auto simp: tokens_of_def burn_family_def row_of_revoke kill_family_def kill_dead)
qed

lemma tokens_of_replaced:
  assumes "sessions_ok t" "old \<in> set t" "sha256 new_token \<notin> s_refresh_token_hash ` set t"
  shows "tokens_of (replaced sha256 from_std days new_token new_id now ttl old t) =
    (tokens_of t)(s_refresh_token_hash old \<mapsto> kill_token (view_row old),
      sha256 new_token \<mapsto> \<lparr>tv_user = s_user_id old, tv_family = s_family_id old, tv_live = True,
        tv_expires = expiry from_std days now ttl\<rparr>)"
proof -
  let ?t = "update_where (\<lambda>r. s_id r = s_id old) (revoke_row now) t"
  have "row_of ?t h = (if h = s_refresh_token_hash old then Some (revoke_row now old) else row_of t h)" for h
  proof (cases "row_of t h")
    case None
    moreover from this have "h \<noteq> s_refresh_token_hash old"
      using assms(2) by (auto simp: row_of_None_iff)
    ultimately show ?thesis
      by (simp add: row_of_revoke)
  next
    case (Some r)
    with row_of_mem [OF Some] assms(1,2) have "s_id r = s_id old \<longleftrightarrow> r = old" "h = s_refresh_token_hash old \<longleftrightarrow> r = old"
      by (auto simp: sessions_ok_def distinct_map inj_on_def)
    with Some show ?thesis
      by (auto simp: row_of_revoke)
  qed
  then have "tokens_of ?t = (tokens_of t)(s_refresh_token_hash old \<mapsto> kill_token (view_row old))"
    by (auto simp: tokens_of_def fun_eq_iff)
  moreover have "tokens_of (replaced sha256 from_std days new_token new_id now ttl old t)
      = (tokens_of ?t)(sha256 new_token \<mapsto> view_row (rotated_row sha256 from_std days new_token new_id now ttl old))"
    unfolding replaced_def using assms(3) by (subst tokens_of_insert) simp_all
  ultimately show ?thesis
    by (simp add: view_row_def)
qed

section \<open>Each operation refines its specification\<close>

lemma tokens_of_row: "row_of t h = Some r \<Longrightarrow> tokens_of t h = Some (view_row r)"
  by (simp add: tokens_of_def)

text \<open>The answer of a rotation as the machine sees it.\<close>

definition view_issued :: "(SessionError, IssuedSession) result \<Rightarrow> (SessionError, token_view) result" where
  "view_issued res = (case res of Inl e \<Rightarrow> Inl e | Inr i \<Rightarrow> Inr (view_row (session i)))"

text \<open>A run agrees with its specification, or reports a database error and did all of it or nothing.\<close>

definition agrees ::
  "(SessionError, IssuedSession) result \<times> Session list \<Rightarrow> Session list \<Rightarrow> (SessionError, token_view) result \<times> token_machine \<Rightarrow> bool" where
  "agrees run t spec \<longleftrightarrow>
     (view_issued (fst run), tokens_of (snd run)) = spec \<or>
     (\<exists>e. fst run = Inl (Db e) \<and> tokens_of (snd run) \<in> {tokens_of t, snd spec})"

lemma agrees_commit:
  assumes "(view_issued answer, tokens_of t') = spec"
  shows "agrees (commit db lost n answer t' t) t spec"
  using assms by (auto simp: agrees_def commit_def split: option.splits)

lemma agrees_db_error: "agrees (Inl (Db e), t) t spec"
  by (simp add: agrees_def)

lemma stmt_Inl: "stmt db n = Inl e \<Longrightarrow> \<exists>m. e = Db m"
  by (auto simp: stmt_def split: option.splits)

lemma insert_session_Inl: "insert_session row t = Inl e \<Longrightarrow> \<exists>m. e = Db m"
  by (auto simp: insert_session_def split: if_splits)

lemma live_rotation_refines:
  assumes ok: "sessions_ok t" and fresh: "sha256 new_token \<notin> s_refresh_token_hash ` set t"
    and started: "try_bind (stmt db 0) (\<lambda>_. stmt db 1) = Inr u" and found: "row_of t (sha256 tok) = Some old"
    and live: "s_revoked_at old = None" "\<not> s_expires_at old < now"
  shows "agrees (rotate_session sha256 from_std days new_token new_id now db_now db lost tok ttl t) t
    (spec_rotate (sha256 tok) (sha256 new_token) now (expiry from_std days now ttl) (tokens_of t))"
proof -
  let ?row = "rotated_row sha256 from_std days new_token new_id now ttl old"
  let ?t = "update_where (\<lambda>r. s_id r = s_id old) (revoke_row now) t"
  note run = rotate_session_def [of sha256 from_std days new_token new_id now db_now db lost tok ttl t,
      unfolded hash_refresh_token_def Let_def started sum.case row_of_def [symmetric] found option.case]
  show ?thesis
  proof (cases "try_bind (stmt db 2) (\<lambda>_. try_bind (stmt db 3) (\<lambda>_. insert_session ?row ?t))")
    case (Inl e)
    then have "\<exists>m. e = Db m"
      by (auto simp: try_bind_Inl_iff dest: stmt_Inl insert_session_Inl)
    with Inl live show ?thesis
      unfolding run by (auto intro: agrees_db_error)
  next
    case (Inr t'')
    then have t'': "t'' = replaced sha256 from_std days new_token new_id now ttl old t"
      by (auto simp: result_simps insert_session_Inr_iff replaced_def)
    have "spec_rotate (sha256 tok) (sha256 new_token) now (expiry from_std days now ttl) (tokens_of t)
        = (view_issued (Inr \<lparr>session = ?row, refresh_token_plain = new_token\<rparr>), tokens_of t'')"
      using live tokens_of_row [OF found] row_of_mem [OF found] tokens_of_replaced [of t old sha256 new_token, OF ok _ fresh]
      by (simp add: t'' spec_rotate_def view_issued_def view_row_def)
    with Inr live show ?thesis
      unfolding run by (auto intro!: agrees_commit)
  qed
qed

lemma rotate_refines:
  assumes ok: "sessions_ok t" and fresh: "sha256 new_token \<notin> s_refresh_token_hash ` set t"
  shows "agrees (rotate_session sha256 from_std days new_token new_id now db_now db lost tok ttl t) t
    (spec_rotate (sha256 tok) (sha256 new_token) now (expiry from_std days now ttl) (tokens_of t))"
    (is "agrees ?run t ?spec")
proof (cases "try_bind (stmt db 0) (\<lambda>_. stmt db 1)")
  case (Inl e)
  then have "?run = (Inl e, t)" "\<exists>m. e = Db m"
    by (auto simp: rotate_session_def result_simps dest: stmt_Inl)
  then show ?thesis
    by (auto intro: agrees_db_error)
next
  case (Inr u)
  note started = this
  show ?thesis
  proof (cases "row_of t (sha256 tok)")
    case None
    with started have "?run = (Inl NotFound, t)"
      by (simp add: rotate_session_def row_of_def hash_refresh_token_def)
    with None show ?thesis
      by (simp add: agrees_def spec_rotate_def tokens_of_def view_issued_def)
  next
    case (Some old)
    note run = rotate_session_def [of sha256 from_std days new_token new_id now db_now db lost tok ttl t,
        unfolded hash_refresh_token_def Let_def started sum.case row_of_def [symmetric] Some option.case]
    note view = tokens_of_row [OF Some]
    consider (reused) "s_revoked_at old \<noteq> None" | (expired) "s_revoked_at old = None" "s_expires_at old < now"
      | (live) "s_revoked_at old = None" "\<not> s_expires_at old < now"
      by blast
    then show ?thesis
    proof cases
      case reused
      then show ?thesis
        unfolding run using view
        by (cases "stmt db 2")
          (auto dest!: stmt_Inl intro!: agrees_db_error agrees_commit simp: spec_rotate_def tokens_of_burn view_issued_def)
    next
      case expired
      then show ?thesis
        unfolding run using view by (simp add: agrees_def spec_rotate_def view_issued_def)
    next
      case live
      with ok fresh started Some show ?thesis
        by (intro live_rotation_refines)
    qed
  qed
qed

lemma create_refines:
  assumes "create sha256 from_std days tok new_id new_family now db user ua ip ttl t = (res, t')"
    and "sha256 tok \<notin> s_refresh_token_hash ` set t"
  shows "tokens_of t' = spec_login (sha256 tok) user new_family (expiry from_std days now ttl) (tokens_of t)
    \<or> tokens_of t' = tokens_of t \<and> (\<exists>e. res = Inl (Db e))"
  using assms
  by (auto simp: create_def Let_def result_simps hash_refresh_token_def insert_session_Inr_iff tokens_of_insert
      view_row_def spec_login_def split: sum.splits dest: stmt_Inl insert_session_Inl)

lemma revoke_refines:
  "tokens_of (snd (revoke_family db_now db f t)) \<in> {tokens_of t, kill_family f (tokens_of t)}"
  by (simp add: revoke_family_def tokens_of_burn split: sum.splits)

lemma find_refines:
  assumes "sessions_ok t"
  shows "try_bind (get_active sha256 db_now (\<lambda>_. None) tok t) (\<lambda>s. Inr (view_row s)) = spec_find (sha256 tok) db_now (tokens_of t)"
proof (cases "row_of t (sha256 tok)")
  case None
  then have "\<forall>r \<in> set t. s_refresh_token_hash r \<noteq> sha256 tok"
    by (metis row_of_None_iff imageI)
  then have "get_active sha256 db_now (\<lambda>_. None) tok t = Inl NotFound"
    by (auto simp: get_active_def hash_refresh_token_def stmt_def select_where_def filter_empty_conv)
  with None show ?thesis
    by (simp add: spec_find_def tokens_of_def)
next
  case (Some r)
  from get_active_known [OF assms] row_of_mem [OF Some]
  have "get_active sha256 db_now (\<lambda>_. None) tok t =
      (if s_revoked_at r = None \<and> db_now < s_expires_at r then Inr r else Inl NotFound)"
    by metis
  with Some show ?thesis
    by (simp add: spec_find_def tokens_of_def)
qed

section \<open>The store implements the machine\<close>

lemma agrees_cases:
  assumes "agrees (res, t') t (spec_rotate h h' now e (tokens_of t))" "tokens_of t h' = None"
  shows "tokens_of t' = tokens_of t \<or> token_step (tokens_of t) (tokens_of t')"
proof -
  from assms(1) have "tokens_of t' = tokens_of t \<or> tokens_of t' = snd (spec_rotate h h' now e (tokens_of t))"
    by (auto simp: agrees_def dest: arg_cong [where f = snd])
  with token_step.Rotation [of "tokens_of t" h', OF assms(2), of h now e] show ?thesis
    by auto
qed

lemma session_step_simulated:
  assumes "sessions_ok t" "session_step sha256 from_std days t t'"
  shows "tokens_of t' = tokens_of t \<or> token_step (tokens_of t) (tokens_of t')"
  using assms(2)
proof cases
  case (Create tok new_id new_family now db user ua ip ttl res)
  have "tokens_of t (sha256 tok) = None"
    using Create(2) by (simp add: tokens_of_def row_of_None_iff)
  moreover have "\<forall>h k. tokens_of t h = Some k \<longrightarrow> tv_family k \<noteq> new_family"
    using Create(3) by (auto simp: tokens_of_def dest!: row_of_mem)
  ultimately show ?thesis
    using create_refines [OF Create(1,2)] token_step.Login [of "tokens_of t"] by metis
next
  case (Rotate new_token new_id now db_now db lost tok ttl res)
  have "tokens_of t (sha256 new_token) = None"
    using Rotate(2) by (simp add: tokens_of_def row_of_None_iff)
  then show ?thesis
    using rotate_refines [of t sha256 new_token, OF assms(1) Rotate(2)] Rotate(1) agrees_cases by metis
next
  case (Revoke db_now db family res)
  with revoke_refines [of db_now db family t] token_step.Logout [of "tokens_of t" family] show ?thesis
    by auto
qed

interpretation session_refinement:
  refined_system sessions_init "session_step sha256 from_std days" sessions_ok tokens_of token_step
  for sha256 :: "string \<Rightarrow> string" and from_std :: "nat \<Rightarrow> int option" and days :: "int \<Rightarrow> int"
  by unfold_locales (rule session_step_simulated)



end
