(* ===== verification/Session_Race.thy ===== *)
theory Session_Race
  imports Sessions
begin

text \<open>
  Two transactions of the session store that overlap.  A rotation holds the lock of the row it replaces;
  the statement that revokes a family, in \<open>revoke_family\<close> and in the reuse branch of \<open>rotate\<close>, waits for
  that lock if it begins before the rotation commits.
\<close>

text \<open>The revocation of a family that began on \<open>snapshot\<close> and is applied to the table \<open>t\<close>.\<close>

definition burn_overlapped :: "int \<Rightarrow> uuid \<Rightarrow> Session list \<Rightarrow> Session list \<Rightarrow> Session list" where
  "burn_overlapped db_now family snapshot t =
     update_overlapped s_id (\<lambda>r. s_family_id r = family \<and> s_revoked_at r = None) (revoke_row db_now) snapshot t"

lemma burn_overlapped_serial: "burn_overlapped db_now family t t = burn_family db_now family t"
  by (simp add: burn_overlapped_def burn_family_def update_overlapped_self)

lemma burn_overlapped_ok: "sessions_ok t \<Longrightarrow> sessions_ok (burn_overlapped db_now family snapshot t)"
  unfolding burn_overlapped_def update_overlapped_def by (rule sessions_ok_revoke)

lemma burn_overlapped_misses:
  "r \<in> set t \<Longrightarrow> s_id r \<notin> s_id ` set snapshot \<Longrightarrow> r \<in> set (burn_overlapped db_now family snapshot t)"
  unfolding burn_overlapped_def update_overlapped_def
  by (rule update_where_keeps) (auto simp: list_ex_iff image_iff)

text \<open>
  C18: A logout or a detected reuse that overlaps a rotation misses the new session.  The statement began
  before the rotation committed, waits for the row the rotation has locked, finds it revoked, and does
  not see the row the rotation added: the new token goes on finding its session.  Begun after the
  commit, the same statement revokes it.
\<close>

theorem overlapping_burn_misses_the_rotation:
  assumes "(session_step sha256 from_std days)\<^sup>*\<^sup>* [] t"
    and rot: "rotate_session sha256 from_std days new_token new_id now db_now db lost tok ttl t = (Inr issued, t')"
    and fresh: "sha256 new_token \<notin> s_refresh_token_hash ` set t"
    and "later < expiry from_std days now ttl"
  shows "get_active sha256 later (\<lambda>_. None) new_token (burn_overlapped burnt_at (s_family_id (session issued)) t t')
      = Inr (session issued) \<and>
    get_active sha256 later (\<lambda>_. None) new_token (burn_overlapped burnt_at (s_family_id (session issued)) t' t')
      = Inl NotFound"
proof
  have ok: "sessions_ok t"
    using session_system.reach_inv [OF _ assms(1)] by (simp add: sessions_init_def)
  have ok': "sessions_ok t'"
    using ok session_step.Rotate [OF rot fresh] by (rule session_step_ok)
  from rotate_cases [OF rot] obtain old where old: "new_id \<notin> s_id ` set t"
      "t' = replaced sha256 from_std days new_token new_id now ttl old t"
      "session issued = rotated_row sha256 from_std days new_token new_id now ttl old"
    by auto
  have new: "session issued \<in> set t'"
    using old by (simp add: replaced_def)
  with old(1,3) have "session issued \<in> set (burn_overlapped burnt_at (s_family_id (session issued)) t t')"
    by (intro burn_overlapped_misses) simp_all
  from get_active_known [OF burn_overlapped_ok [OF ok'] this, of sha256 new_token later] assms(4) old(3)
  show "get_active sha256 later (\<lambda>_. None) new_token (burn_overlapped burnt_at (s_family_id (session issued)) t t')
      = Inr (session issued)"
    by simp
  have "revoke_row burnt_at (session issued) \<in> set (burn_family burnt_at (s_family_id (session issued)) t')"
    unfolding burn_family_def using new old(3) by (intro update_where_changes) simp_all
  from get_active_known [OF burn_overlapped_ok [OF ok', where snapshot = t', unfolded burn_overlapped_serial] this, of sha256 new_token later] old(3)
  show "get_active sha256 later (\<lambda>_. None) new_token (burn_overlapped burnt_at (s_family_id (session issued)) t' t')
      = Inl NotFound"
    by (simp add: burn_overlapped_serial)
qed

theorem overlapping_burn_misses_the_rotation_witness:
  "get_active (\<lambda>s. s) 20 (\<lambda>_. None) ''b'' (burn_overlapped 15 5 [login_row] rotated_login)
     = Inr (rotated_row (\<lambda>s. s) (\<lambda>n. Some (int n)) (\<lambda>d. d * 86400) ''b'' 2 10 100 login_row)"
  using overlapping_burn_misses_the_rotation [OF login_step login_rotate, of 20 15]
  by (simp add: login_row_def expiry_def unwrap_or_def)

end
