(* ===== verification/Api_Errors.thy ===== *)
theory Api_Errors
  imports Kit_Prelude
begin

text \<open>
  The crate \<open>errors\<close>: the error type of the HTTP handlers and the status, code and message each
  error is answered with.  Status codes are the numbers of RFC 9110.  The two variants that wrap an
  error of another crate carry its text.
\<close>

section \<open>error_code.rs\<close>

definition AUTH_EMAIL_NOT_VERIFIED :: string where
  "AUTH_EMAIL_NOT_VERIFIED = ''AUTH_EMAIL_NOT_VERIFIED''"

definition AUTH_UNAUTHORIZED :: string where
  "AUTH_UNAUTHORIZED = ''AUTH_UNAUTHORIZED''"

definition AUTH_FORBIDDEN :: string where
  "AUTH_FORBIDDEN = ''AUTH_FORBIDDEN''"

definition RATE_LIMIT_EXCEEDED :: string where
  "RATE_LIMIT_EXCEEDED = ''RATE_LIMIT_EXCEEDED''"

definition VALIDATION_FAILED :: string where
  "VALIDATION_FAILED = ''VALIDATION_FAILED''"

definition BAD_REQUEST :: string where
  "BAD_REQUEST = ''BAD_REQUEST''"

definition GONE :: string where
  "GONE = ''GONE''"

definition PLAN_LIMIT_EXCEEDED :: string where
  "PLAN_LIMIT_EXCEEDED = ''PLAN_LIMIT_EXCEEDED''"

definition INTERNAL_DATABASE :: string where
  "INTERNAL_DATABASE = ''INTERNAL_DATABASE''"

definition INTERNAL_SERVER_ERROR :: string where
  "INTERNAL_SERVER_ERROR = ''INTERNAL_SERVER_ERROR''"

section \<open>error.rs\<close>

datatype ApiError =
    DatabaseError string
  | InternalError string
  | Coded string nat string
  | BadRequest string
  | ValidationError string
  | RateLimitExceeded
  | Unauthorized
  | Forbidden string
  | ApiNotFound string
  | PlanLimitExceeded string
  | Gone string
  | EmailNotVerified

definition api_coded :: "string \<Rightarrow> nat \<Rightarrow> string \<Rightarrow> ApiError" where
  "api_coded code status message = Coded code status message"

definition api_not_found :: "string \<Rightarrow> string \<Rightarrow> ApiError" where
  "api_not_found code message = Coded code 404 message"

definition api_bad_request :: "string \<Rightarrow> string \<Rightarrow> ApiError" where
  "api_bad_request code message = Coded code 400 message"

definition api_forbidden :: "string \<Rightarrow> string \<Rightarrow> ApiError" where
  "api_forbidden code message = Coded code 403 message"

definition api_conflict :: "string \<Rightarrow> string \<Rightarrow> ApiError" where
  "api_conflict code message = Coded code 409 message"

definition api_gone :: "string \<Rightarrow> string \<Rightarrow> ApiError" where
  "api_gone code message = Coded code 410 message"

definition api_error_display :: "ApiError \<Rightarrow> string" where
  "api_error_display e =
     (case e of
        DatabaseError m \<Rightarrow> ''Database error: '' @ m
      | InternalError m \<Rightarrow> ''Internal server error: '' @ m
      | Coded _ _ m \<Rightarrow> m
      | BadRequest m \<Rightarrow> ''Bad request: '' @ m
      | ValidationError m \<Rightarrow> ''Validation error: '' @ m
      | RateLimitExceeded \<Rightarrow> ''Rate limit exceeded''
      | Unauthorized \<Rightarrow> ''Unauthorized''
      | Forbidden m \<Rightarrow> ''Forbidden: '' @ m
      | ApiNotFound m \<Rightarrow> ''Not found: '' @ m
      | PlanLimitExceeded m \<Rightarrow> ''Plan limit exceeded: '' @ m
      | Gone m \<Rightarrow> ''Gone: '' @ m
      | EmailNotVerified \<Rightarrow> ''Email not verified'')"

definition api_error_parts :: "ApiError \<Rightarrow> nat \<times> string \<times> string" where
  "api_error_parts e =
     (case e of
        DatabaseError _ \<Rightarrow> (500, INTERNAL_DATABASE, ''Database error occurred'')
      | InternalError _ \<Rightarrow> (500, INTERNAL_SERVER_ERROR, ''Internal server error'')
      | Coded code status message \<Rightarrow> (status, code, message)
      | BadRequest m \<Rightarrow> (400, BAD_REQUEST, m)
      | ValidationError m \<Rightarrow> (400, VALIDATION_FAILED, m)
      | RateLimitExceeded \<Rightarrow> (429, RATE_LIMIT_EXCEEDED, ''Rate limit exceeded'')
      | Unauthorized \<Rightarrow> (401, AUTH_UNAUTHORIZED, ''Unauthorized'')
      | Forbidden m \<Rightarrow> (403, AUTH_FORBIDDEN, m)
      | ApiNotFound m \<Rightarrow> (404, BAD_REQUEST, m)
      | PlanLimitExceeded m \<Rightarrow> (403, PLAN_LIMIT_EXCEEDED, m)
      | Gone m \<Rightarrow> (410, GONE, m)
      | EmailNotVerified \<Rightarrow> (403, AUTH_EMAIL_NOT_VERIFIED, ''email_not_verified''))"

text \<open>
  \<open>json_response\<close> is \<open>axum\<close>'s \<open>(status, Json(json!({"code": .., "error": ..}))).into_response()\<close>.
\<close>

definition api_error_into_response ::
  "(nat \<Rightarrow> string \<Rightarrow> string \<Rightarrow> 'r) \<Rightarrow> ApiError \<Rightarrow> 'r" where
  "api_error_into_response json_response e =
     (case api_error_parts e of (status, code, message) \<Rightarrow> json_response status code message)"

definition api_error_from_validation :: "string \<Rightarrow> ApiError" where
  "api_error_from_validation err = ValidationError err"

lemma api_error_status:
  "(\<forall>c s m. e \<noteq> Coded c s m) \<Longrightarrow> 400 \<le> fst (api_error_parts e) \<and> fst (api_error_parts e) < 600"
  by (cases e) (simp_all add: api_error_parts_def)

text \<open>
  What went wrong inside the service is never sent to the client.  The answers to two database
  errors are the same, and so are the answers to two internal errors, and none of them is the answer
  of a client error built without an explicit status.
\<close>

theorem internal_details_not_sent:
  "api_error_into_response json (DatabaseError m) = api_error_into_response json (DatabaseError m') \<and>
   api_error_into_response json (InternalError m) = api_error_into_response json (InternalError m') \<and>
   (fst (api_error_parts e) = 500 \<longleftrightarrow>
      (\<exists>m. e = DatabaseError m) \<or> (\<exists>m. e = InternalError m) \<or> (\<exists>c m. e = Coded c 500 m))"
  by (cases e) (auto simp: api_error_into_response_def api_error_parts_def)

end
