(* ===== verification/Auth_Token.thy ===== *)
theory Auth_Token
  imports Api_Errors
begin

text \<open>
  The files \<open>jwt.rs\<close>, \<open>middleware.rs\<close> and \<open>password.rs\<close> of the crate \<open>auth\<close>: access tokens, the
  extractor of the authenticated user, and password hashing.

  The crates \<open>jsonwebtoken\<close>, \<open>http\<close> and \<open>argon2\<close> are arguments of the definitions.  The hypotheses on
  \<open>decode\<close> in the theorems are its documented checks.  Integer arithmetic on \<open>i64\<close> is that of a
  release build: it wraps around.
\<close>

section \<open>jwt.rs\<close>

text \<open>Seconds.\<close>

abbreviation DEFAULT_ACCESS_TTL :: nat where
  "DEFAULT_ACCESS_TTL \<equiv> 15 * 60"

text \<open>The error kinds of \<open>jsonwebtoken\<close> the code tells apart.\<close>

datatype ErrorKind =
    InvalidSignature
  | ExpiredSignature
  | ImmatureSignature
  | InvalidIssuer
  | InvalidAudience
  | MissingRequiredClaim string
  | OtherKind string

datatype JwtError =
    Invalid
  | JwtExpired
  | WrongIssuer
  | WrongAudience
  | NotYetValid
  | VerifyOnly
  | KeyLoad string
  | JwtInternal ErrorKind

record ('ek, 'dk) JwtConfig =
  encoding_key :: "'ek option"
  decoding_keys :: "'dk list"
  issuer :: string
  audience :: "string option"
  access_ttl_seconds :: int

record Claims =
  sub :: uuid
  iss :: string
  exp :: int
  iat :: int
  aud :: "string option"
  nbf :: "int option"
  org :: "uuid option"

text \<open>\<open>i64::try_from\<close> of a duration's seconds, falling back to \<open>i64::MAX\<close>; wrapping addition.\<close>

definition i64_from_secs :: "nat \<Rightarrow> int" where
  "i64_from_secs n = min (int n) i64_max"

definition i64_wrap :: "int \<Rightarrow> int" where
  "i64_wrap n = (n + 2 ^ 63) mod 2 ^ 64 - 2 ^ 63"

definition from_ed25519_pems ::
  "(string \<Rightarrow> (string, 'ek) result) \<Rightarrow> (string \<Rightarrow> (string, 'dk) result) \<Rightarrow> string \<Rightarrow> string \<Rightarrow> string
     \<Rightarrow> nat \<Rightarrow> (JwtError, ('ek, 'dk) JwtConfig) result" where
  "from_ed25519_pems encoding_from_pem decoding_from_pem private_pem public_pem issr access_ttl =
     try_bind (map_err (\<lambda>e. KeyLoad (''private key: '' @ e)) (encoding_from_pem private_pem)) (\<lambda>ek.
     try_bind (map_err (\<lambda>e. KeyLoad (''public key: '' @ e)) (decoding_from_pem public_pem)) (\<lambda>dk.
       Inr \<lparr>encoding_key = Some ek, decoding_keys = [dk], issuer = issr, audience = None,
            access_ttl_seconds = i64_from_secs access_ttl\<rparr>))"

definition verifier_from_public_pem ::
  "(string \<Rightarrow> (string, 'dk) result) \<Rightarrow> string \<Rightarrow> string
     \<Rightarrow> (JwtError, ('ek, 'dk) JwtConfig) result" where
  "verifier_from_public_pem decoding_from_pem public_pem issr =
     try_bind (map_err (\<lambda>e. KeyLoad (''public key: '' @ e)) (decoding_from_pem public_pem)) (\<lambda>dk.
       Inr \<lparr>encoding_key = None, decoding_keys = [dk], issuer = issr, audience = None,
            access_ttl_seconds = i64_from_secs DEFAULT_ACCESS_TTL\<rparr>)"

definition with_audience :: "('ek, 'dk) JwtConfig \<Rightarrow> string \<Rightarrow> ('ek, 'dk) JwtConfig" where
  "with_audience self a = self\<lparr>audience := Some a\<rparr>"

definition with_previous_public_pem ::
  "(string \<Rightarrow> (string, 'dk) result) \<Rightarrow> ('ek, 'dk) JwtConfig \<Rightarrow> string
     \<Rightarrow> (JwtError, ('ek, 'dk) JwtConfig) result" where
  "with_previous_public_pem decoding_from_pem self public_pem =
     try_bind (map_err (\<lambda>e. KeyLoad (''previous public key: '' @ e)) (decoding_from_pem public_pem)) (\<lambda>dk.
       Inr (self\<lparr>decoding_keys := decoding_keys self @ [dk]\<rparr>))"

text \<open>
  The settings of a validation that the code writes or relies on; \<open>new\<close> gives the library's defaults.
\<close>

record Validation =
  v_iss :: "string list option"
  v_aud :: "string list option"
  v_validate_exp :: bool
  v_validate_nbf :: bool
  v_validate_aud :: bool
  v_leeway :: nat
  v_required_spec_claims :: "string list"

definition validation :: "Validation \<Rightarrow> ('ek, 'dk) JwtConfig \<Rightarrow> Validation" where
  "validation new self =
     (let v = new\<lparr>v_iss := Some [issuer self], v_validate_exp := True, v_validate_nbf := True,
                  v_leeway := 0\<rparr>
      in case audience self of
           Some a \<Rightarrow> v\<lparr>v_aud := Some [a], v_required_spec_claims := [''exp'', ''iss'', ''aud'']\<rparr>
         | None \<Rightarrow> v\<lparr>v_required_spec_claims := [''exp'', ''iss'']\<rparr>)"

definition issue_token_for ::
  "(Claims \<Rightarrow> 'ek \<Rightarrow> (ErrorKind, string) result) \<Rightarrow> int \<Rightarrow> ('ek, 'dk) JwtConfig \<Rightarrow> uuid \<Rightarrow> uuid option
     \<Rightarrow> string option \<Rightarrow> (JwtError, string) result" where
  "issue_token_for encode now config user_id og a =
     try_bind (ok_or VerifyOnly (encoding_key config)) (\<lambda>ek.
       (let claims = \<lparr>sub = user_id, iss = issuer config,
                      exp = i64_wrap (now + access_ttl_seconds config), iat = now, aud = a,
                      nbf = None, org = og\<rparr>
        in map_err JwtInternal (encode claims ek)))"

definition issue_token ::
  "(Claims \<Rightarrow> 'ek \<Rightarrow> (ErrorKind, string) result) \<Rightarrow> int \<Rightarrow> ('ek, 'dk) JwtConfig \<Rightarrow> uuid \<Rightarrow> uuid option
     \<Rightarrow> (JwtError, string) result" where
  "issue_token encode now config user_id og =
     issue_token_for encode now config user_id og (audience config)"

definition map_error :: "ErrorKind \<Rightarrow> JwtError" where
  "map_error e =
     (case e of
        ExpiredSignature \<Rightarrow> JwtExpired
      | ImmatureSignature \<Rightarrow> NotYetValid
      | InvalidIssuer \<Rightarrow> WrongIssuer
      | InvalidAudience \<Rightarrow> WrongAudience
      | MissingRequiredClaim claim \<Rightarrow> if claim = ''aud'' then WrongAudience else Invalid
      | _ \<Rightarrow> Invalid)"

text \<open>
  The loop over the keys, with the best error so far.  \<open>None\<close> is the panic of \<open>expect\<close> when there is
  no key at all.
\<close>

fun verify_loop ::
  "('dk \<Rightarrow> (ErrorKind, Claims) result) \<Rightarrow> ErrorKind option \<Rightarrow> 'dk list
     \<Rightarrow> (JwtError, Claims) result option" where
  "verify_loop dec best [] = (case best of None \<Rightarrow> None | Some e \<Rightarrow> Some (Inl (map_error e)))"
| "verify_loop dec best (key # keys) =
     (case dec key of
        Inr claims \<Rightarrow> Some (Inr claims)
      | Inl e \<Rightarrow>
          (let claim_failure = (e \<noteq> InvalidSignature)
           in verify_loop dec (if best = None \<or> claim_failure then Some e else best) keys))"

definition verify_token ::
  "(string \<Rightarrow> 'dk \<Rightarrow> Validation \<Rightarrow> (ErrorKind, Claims) result) \<Rightarrow> Validation \<Rightarrow> ('ek, 'dk) JwtConfig
     \<Rightarrow> string \<Rightarrow> (JwtError, Claims) result option" where
  "verify_token decode new config token =
     verify_loop (\<lambda>key. decode token key (validation new config)) None (decoding_keys config)"

section \<open>middleware.rs\<close>

record AuthUser =
  user_id :: uuid
  active_org :: "uuid option"

definition require_org :: "AuthUser \<Rightarrow> (ApiError, uuid) result" where
  "require_org self = ok_or Unauthorized (active_org self)"

text \<open>\<open>to_str\<close> is \<open>HeaderValue::to_str\<close>.\<close>

definition bearer_token :: "('hv \<Rightarrow> string option) \<Rightarrow> (string \<rightharpoonup> 'hv) \<Rightarrow> string option" where
  "bearer_token to_str headers =
     Option.bind (headers ''authorization'') (\<lambda>v.
     Option.bind (to_str v) (strip_prefix ''Bearer ''))"

definition auth_extract ::
  "('hv \<Rightarrow> string option) \<Rightarrow> (string \<Rightarrow> 'dk \<Rightarrow> Validation \<Rightarrow> (ErrorKind, Claims) result) \<Rightarrow> Validation
     \<Rightarrow> ('ek, 'dk) JwtConfig \<Rightarrow> (string \<rightharpoonup> 'hv) \<Rightarrow> (ApiError, AuthUser) result option" where
  "auth_extract to_str decode new config headers =
     (case bearer_token to_str headers of
        None \<Rightarrow> Some (Inl Unauthorized)
      | Some token \<Rightarrow>
          map_option (\<lambda>r. try_bind (map_err (\<lambda>_. Unauthorized) r) (\<lambda>claims.
              Inr \<lparr>user_id = sub claims, active_org = org claims\<rparr>))
            (verify_token decode new config token))"

section \<open>password.rs\<close>

text \<open>
  \<open>hash_password\<close>, \<open>parse_hash\<close> and \<open>verify_password\<close> are \<open>argon2\<close>'s; the random salt is inside
  \<open>hash_password\<close>.
\<close>

definition password_hash ::
  "(string \<Rightarrow> (string, string) result) \<Rightarrow> string \<Rightarrow> (string, string) result" where
  "password_hash hash_password plaintext =
     map_err (\<lambda>e. ''argon2 hash failed: '' @ e) (hash_password plaintext)"

definition password_verify ::
  "(string \<Rightarrow> (string, 'h) result) \<Rightarrow> (string \<Rightarrow> 'h \<Rightarrow> bool) \<Rightarrow> string \<Rightarrow> string
     \<Rightarrow> (string, bool) result" where
  "password_verify parse_hash verify_password plaintext stored_hash =
     try_bind (map_err (\<lambda>e. ''failed to parse stored hash: '' @ e) (parse_hash stored_hash)) (\<lambda>parsed.
       Inr (verify_password plaintext parsed))"

section \<open>The key loop\<close>

lemma verify_loop_error_best:
  "\<forall>k\<in>set keys. dec k = Inl InvalidSignature \<Longrightarrow>
   verify_loop dec (Some e) keys = Some (Inl (map_error e))"
  by (induction keys) simp_all

lemma verify_loop_not_panic_best: "\<exists>r. verify_loop dec (Some e) keys = Some r"
proof (induction keys arbitrary: e)
  case (Cons k keys)
  show ?case
  proof (cases "dec k")
    case (Inl e')
    with Cons [of e] Cons [of e'] show ?thesis
      by (cases "e' = InvalidSignature") simp_all
  qed simp
qed simp

lemma verify_loop_not_panic: "keys \<noteq> [] \<Longrightarrow> \<exists>r. verify_loop dec None keys = Some r"
  by (cases keys; cases "dec (hd keys)") (simp_all add: verify_loop_not_panic_best)

lemma verify_loop_Inr:
  "verify_loop dec best keys = Some (Inr c) \<Longrightarrow> \<exists>k\<in>set keys. dec k = Inr c"
proof (induction keys arbitrary: best)
  case Nil
  then show ?case
    by (cases best) simp_all
next
  case (Cons k keys)
  show ?case
  proof (cases "dec k")
    case (Inl e)
    with Cons.prems have "verify_loop dec (if best = None \<or> e \<noteq> InvalidSignature then Some e else best) keys
        = Some (Inr c)"
      by (simp add: Let_def)
    from Cons.IH [OF this] show ?thesis
      by simp
  next
    case (Inr c')
    with Cons.prems show ?thesis
      by simp
  qed
qed

lemma map_error_InvalidSignature [simp]: "map_error InvalidSignature = Invalid"
  by (simp add: map_error_def)

text \<open>The keys before the one that signed the token do not change the outcome.\<close>

lemma verify_loop_skip:
  assumes "\<forall>k\<in>set ks. dec k = Inl InvalidSignature" and "best \<in> {None, Some InvalidSignature}"
  shows "\<exists>best'\<in>{None, Some InvalidSignature}. verify_loop dec best (ks @ keys) = verify_loop dec best' keys"
  using assms
proof (induction ks arbitrary: best)
  case (Cons k ks)
  then show ?case
    using Cons.IH [of "Some InvalidSignature"] by auto
qed auto

text \<open>
  Rotating keys is invisible to the caller.  When all the other keys of the verifier report a bad
  signature, the outcome is that of the one key that signed the token, success or claim error,
  wherever that key stands in the list.
\<close>

theorem verify_finds_the_signing_key:
  assumes "decoding_keys config = ks @ key # ks'"
    and "\<forall>k\<in>set ks \<union> set ks'. decode token k (validation new config) = Inl InvalidSignature"
  shows "verify_token decode new config token
    = Some (map_err map_error (decode token key (validation new config)))"
proof -
  let ?dec = "\<lambda>key. decode token key (validation new config)"
  have "\<exists>best\<in>{None, Some InvalidSignature}.
      verify_loop ?dec None (ks @ key # ks') = verify_loop ?dec best (key # ks')"
    using assms(2) by (intro verify_loop_skip) auto
  moreover have "verify_loop ?dec best (key # ks') = Some (map_err map_error (?dec key))"
    if "best \<in> {None, Some InvalidSignature}" for best
    using that assms(2) by (cases "?dec key") (auto simp: verify_loop_error_best Let_def)
  ultimately show ?thesis
    using assms(1) by (auto simp: verify_token_def)
qed

theorem verify_finds_the_signing_key_witness:
  "verify_token (\<lambda>t k v. if k = 2 then Inl ExpiredSignature else Inl InvalidSignature)
     \<lparr>v_iss = None, v_aud = None, v_validate_exp = True, v_validate_nbf = False,
      v_validate_aud = True, v_leeway = 60, v_required_spec_claims = [''exp'']\<rparr>
     \<lparr>encoding_key = None :: unit option, decoding_keys = [1, 2, 3 :: nat], issuer = ''i'',
      audience = None, access_ttl_seconds = 900\<rparr> ''tok'' = Some (Inl JwtExpired)"
  by (subst verify_finds_the_signing_key [where ks = "[1]" and key = 2 and ks' = "[3]"])
    (simp_all add: map_error_def)

section \<open>What a verified token says\<close>

text \<open>
  The documented checks of \<open>jsonwebtoken::decode\<close>: the signature, and each claim the validation asks
  for.  \<open>signed_by token key\<close> says that the token carries a valid signature of the key.
\<close>

definition decode_checks ::
  "(string \<Rightarrow> 'dk \<Rightarrow> bool) \<Rightarrow> int \<Rightarrow> (string \<Rightarrow> 'dk \<Rightarrow> Validation \<Rightarrow> (ErrorKind, Claims) result) \<Rightarrow> bool" where
  "decode_checks signed_by now decode \<longleftrightarrow>
     (\<forall>token key v c. decode token key v = Inr c \<longrightarrow>
        signed_by token key \<and>
        (v_validate_exp v \<longrightarrow> now \<le> exp c + int (v_leeway v)) \<and>
        (v_validate_nbf v \<longrightarrow> (\<forall>n. nbf c = Some n \<longrightarrow> n \<le> now + int (v_leeway v))) \<and>
        (\<forall>is. v_iss v = Some is \<longrightarrow> iss c \<in> set is) \<and>
        (\<forall>as a. v_aud v = Some as \<longrightarrow> aud c = Some a \<longrightarrow> a \<in> set as) \<and>
        (v_validate_aud v \<longrightarrow> v_aud v = None \<longrightarrow> aud c = None) \<and>
        (''aud'' \<in> set (v_required_spec_claims v) \<longrightarrow> aud c \<noteq> None))"

text \<open>
  C19: what an accepted token guarantees.  It was signed by one of the configured keys, it is neither
  expired nor early at the verifier's clock with no leeway, it names the configured issuer, and
  its audience is exactly the configured one, absent when none is configured: a token minted for
  one product is refused by every other.
\<close>

theorem accepted_token_is_for_us:
  assumes "decode_checks signed_by now decode" and "v_validate_aud new" and "v_aud new = None"
    and "verify_token decode new config token = Some (Inr c)"
  shows "(\<exists>key\<in>set (decoding_keys config). signed_by token key) \<and> iss c = issuer config \<and>
    now \<le> exp c \<and> (\<forall>n. nbf c = Some n \<longrightarrow> n \<le> now) \<and> aud c = audience config"
proof -
  obtain key where key: "key \<in> set (decoding_keys config)"
    and dec: "decode token key (validation new config) = Inr c"
    using verify_loop_Inr assms(4) unfolding verify_token_def by blast
  note checked = assms(1) [unfolded decode_checks_def, rule_format, OF dec]
  show ?thesis
    using key checked assms(2,3)
    by (cases "audience config") (auto simp: validation_def Let_def)
qed

text \<open>A decoder with these checks, over tokens that hold their key and claims.\<close>

definition claims1 :: Claims where
  "claims1 = \<lparr>sub = 1, iss = ''ferrlabs'', exp = 1000, iat = 100, aud = Some ''fleet'', nbf = None, org = None\<rparr>"

definition defaults1 :: Validation where
  "defaults1 = \<lparr>v_iss = None, v_aud = None, v_validate_exp = True, v_validate_nbf = False,
     v_validate_aud = True, v_leeway = 60, v_required_spec_claims = [''exp'']\<rparr>"

definition decode1 :: "int \<Rightarrow> string \<Rightarrow> string \<Rightarrow> Validation \<Rightarrow> (ErrorKind, Claims) result" where
  "decode1 now token key v =
     (if token \<noteq> key then Inl InvalidSignature
      else if exp claims1 + int (v_leeway v) < now then Inl ExpiredSignature
      else if v_iss v = Some [iss claims1] \<and> v_aud v = Some [''fleet''] then Inr claims1
      else Inl InvalidAudience)"

definition config1 :: "string \<Rightarrow> (unit, string) JwtConfig" where
  "config1 a = \<lparr>encoding_key = None, decoding_keys = [''k0'', ''k1''], issuer = ''ferrlabs'',
     audience = Some a, access_ttl_seconds = 900\<rparr>"

lemma decode1_checks: "decode_checks (=) now (decode1 now)"
  by (auto simp: decode_checks_def decode1_def claims1_def split: if_splits)

theorem accepted_token_is_for_us_witness:
  "verify_token (decode1 500) defaults1 (config1 ''fleet'') ''k1'' = Some (Inr claims1) \<and>
   aud claims1 = audience (config1 ''fleet'')"
proof -
  have "verify_token (decode1 500) defaults1 (config1 ''fleet'') ''k1'' = Some (Inr claims1)"
    by (simp add: verify_token_def config1_def decode1_def validation_def defaults1_def claims1_def)
  with accepted_token_is_for_us [OF decode1_checks _ _ this] show ?thesis
    by (simp add: defaults1_def)
qed

section \<open>The extractor\<close>

lemma bearer_token_iff:
  "bearer_token to_str headers = Some token \<longleftrightarrow>
     (\<exists>v. headers ''authorization'' = Some v \<and> to_str v = Some (''Bearer '' @ token))"
  by (auto simp: bearer_token_def bind_eq_Some_conv strip_prefix_Some_iff)

lemma auth_extract_Inr_iff:
  "auth_extract to_str decode new config headers = Some (Inr u) \<longleftrightarrow>
     (\<exists>token c. bearer_token to_str headers = Some token \<and>
        verify_token decode new config token = Some (Inr c) \<and>
        u = \<lparr>user_id = sub c, active_org = org c\<rparr>)"
  by (auto simp: auth_extract_def result_simps split: option.splits)

lemma auth_extract_total:
  assumes "decoding_keys config \<noteq> []"
  shows "auth_extract to_str decode new config headers = Some (Inl Unauthorized) \<or>
    (\<exists>u. auth_extract to_str decode new config headers = Some (Inr u))"
proof (cases "bearer_token to_str headers")
  case (Some token)
  obtain r where "verify_token decode new config token = Some r"
    using assms verify_loop_not_panic unfolding verify_token_def by blast
  with Some show ?thesis
    by (cases r) (simp_all add: auth_extract_def result_simps)
qed (simp add: auth_extract_def)

text \<open>
  A handler that asks for the authenticated user runs only for a verified token.  The extractor
  gives a user exactly when the request carries \<open>Authorization: Bearer\<close> and a token that verifies,
  and then it is the token's subject and organisation; in every other case the answer is
  \<open>Unauthorized\<close>, whatever went wrong.
\<close>

theorem extractor_admits_only_verified:
  assumes "decoding_keys config \<noteq> []"
  shows "(auth_extract to_str decode new config headers = Some (Inr u) \<longleftrightarrow>
      (\<exists>v token c. headers ''authorization'' = Some v \<and> to_str v = Some (''Bearer '' @ token) \<and>
         verify_token decode new config token = Some (Inr c) \<and>
         u = \<lparr>user_id = sub c, active_org = org c\<rparr>)) \<and>
    (auth_extract to_str decode new config headers = Some (Inl Unauthorized) \<or>
     (\<exists>u. auth_extract to_str decode new config headers = Some (Inr u)))"
proof
  show "auth_extract to_str decode new config headers = Some (Inr u) \<longleftrightarrow>
      (\<exists>v token c. headers ''authorization'' = Some v \<and> to_str v = Some (''Bearer '' @ token) \<and>
         verify_token decode new config token = Some (Inr c) \<and>
         u = \<lparr>user_id = sub c, active_org = org c\<rparr>)"
    unfolding auth_extract_Inr_iff bearer_token_iff by blast
qed (rule auth_extract_total [OF assms])

theorem extractor_admits_only_verified_witness:
  "auth_extract Some (decode1 500) defaults1 (config1 ''fleet'')
     [''authorization'' \<mapsto> ''Bearer k1''] = Some (Inr \<lparr>user_id = 1, active_org = None\<rparr>)"
proof -
  have "verify_token (decode1 500) defaults1 (config1 ''fleet'') ''k1'' = Some (Inr claims1)"
    by (simp add: verify_token_def config1_def decode1_def validation_def defaults1_def claims1_def)
  moreover have "decoding_keys (config1 ''fleet'') \<noteq> []"
    by (simp add: config1_def)
  ultimately show ?thesis
    using extractor_admits_only_verified [of "config1 ''fleet''" Some "decode1 500" defaults1
        "[''authorization'' \<mapsto> ''Bearer k1'']" "\<lparr>user_id = 1, active_org = None\<rparr>"]
    by (simp add: claims1_def)
qed

section \<open>Issuing\<close>

lemma i64_wrap_id: "- (2 ^ 63) \<le> n \<Longrightarrow> n < 2 ^ 63 \<Longrightarrow> i64_wrap n = n"
  by (simp add: i64_wrap_def)

text \<open>
  A lifetime too long for an \<open>i64\<close> is clamped to \<open>i64::MAX\<close>, and the sum with the clock then
  overflows: in a release build every token of such a configuration is born expired.
\<close>

lemma clamped_ttl_wraps:
  assumes "i64_max \<le> int access_ttl" and "0 < now" and "now \<le> i64_max"
  shows "i64_wrap (now + i64_from_secs access_ttl) < now"
proof -
  have "(now + i64_max + 2 ^ 63) mod 2 ^ 64 = now - 1"
  proof -
    have "now + i64_max + 2 ^ 63 = (now - 1) + 2 ^ 64"
      by (simp add: i64_max_def)
    then have "(now + i64_max + 2 ^ 63) mod 2 ^ 64 = (now - 1) mod 2 ^ 64"
      by (metis mod_add_self2)
    also have "\<dots> = now - 1"
      using assms(2,3) by (simp add: i64_max_def)
    finally show ?thesis .
  qed
  then show ?thesis
    using assms(1) by (simp add: i64_wrap_def i64_from_secs_def)
qed

lemma issue_token_claims:
  "issue_token_for encode now config u og a = Inr token \<longleftrightarrow>
     (\<exists>ek. encoding_key config = Some ek \<and>
        encode \<lparr>sub = u, iss = issuer config, exp = i64_wrap (now + access_ttl_seconds config),
                iat = now, aud = a, nbf = None, org = og\<rparr> ek = Inr token)"
  by (auto simp: issue_token_for_def result_simps Let_def)

section \<open>Issued tokens are admitted\<close>

text \<open>
  The checks of a validation on the claims of a token, and a library that makes exactly these: a token
  carries one set of claims and the mark of the key that signed it, decoding succeeds exactly for a
  token with the mark of the given key whose claims pass, and encoding gives a token with the mark of
  the matching key.
\<close>

definition access_claims_pass :: "int \<Rightarrow> Validation \<Rightarrow> Claims \<Rightarrow> bool" where
  "access_claims_pass now v c \<longleftrightarrow>
     (v_validate_exp v \<longrightarrow> now \<le> exp c + int (v_leeway v)) \<and>
     (v_validate_nbf v \<longrightarrow> (case nbf c of None \<Rightarrow> True | Some n \<Rightarrow> n \<le> now + int (v_leeway v))) \<and>
     (case v_iss v of None \<Rightarrow> True | Some is \<Rightarrow> iss c \<in> set is) \<and>
     (case (v_aud v, aud c) of
        (Some as, Some a) \<Rightarrow> a \<in> set as | (None, Some a) \<Rightarrow> \<not> v_validate_aud v | (_, None) \<Rightarrow> True) \<and>
     (''aud'' \<in> set (v_required_spec_claims v) \<longrightarrow> aud c \<noteq> None)"

definition access_jwt_ok ::
  "(string \<Rightarrow> 'dk \<Rightarrow> bool) \<Rightarrow> (string \<Rightarrow> Claims) \<Rightarrow> int \<Rightarrow> (Claims \<Rightarrow> 'ek \<Rightarrow> (ErrorKind, string) result)
     \<Rightarrow> (string \<Rightarrow> 'dk \<Rightarrow> Validation \<Rightarrow> (ErrorKind, Claims) result) \<Rightarrow> ('ek \<Rightarrow> 'dk) \<Rightarrow> bool" where
  "access_jwt_ok signed_by payload now encode decode public \<longleftrightarrow>
     (\<forall>token key v c. decode token key v = Inr c \<longleftrightarrow>
        signed_by token key \<and> c = payload token \<and> access_claims_pass now v c) \<and>
     (\<forall>c ek token. encode c ek = Inr token \<longrightarrow> signed_by token (public ek) \<and> payload token = c)"

lemma verify_loop_some_key:
  assumes "key \<in> set keys" and "dec key = Inr c" and same: "\<And>k c'. dec k = Inr c' \<Longrightarrow> c' = c"
  shows "verify_loop dec best keys = Some (Inr c)"
  using assms(1)
proof (induction keys arbitrary: best)
  case (Cons k keys)
  show ?case
  proof (cases "dec k")
    case (Inl e)
    with Cons.prems assms(2) have "key \<in> set keys"
      by auto
    from Cons.IH [OF this] Inl show ?thesis
      by (simp add: Let_def)
  next
    case (Inr c')
    from same [OF this] Inr show ?thesis
      by simp
  qed
qed simp

lemma own_claims_pass:
  assumes "issuer config' = issuer config" and "audience config' = audience config"
    and "v_aud new = None" and "now \<le> e"
  shows "access_claims_pass now (validation new config')
    \<lparr>sub = u, iss = issuer config, exp = e, iat = issued, aud = audience config, nbf = None, org = og\<rparr>"
  using assms by (cases "audience config") (simp_all add: access_claims_pass_def validation_def Let_def)

text \<open>
  C20: A token that one service issues opens the handlers of another.  It is enough that the verifier has
  the same issuer and audience and holds the matching public key, as its current or a previous one,
  among any others: until the token expires the extractor gives the user and the organisation it was
  issued for.
\<close>

theorem issued_token_is_admitted:
  assumes lib: "access_jwt_ok signed_by payload now encode decode public" and "v_aud new = None"
    and "issue_token encode issued config u og = Inr token" and "encoding_key config = Some ek"
    and "public ek \<in> set (decoding_keys config')"
    and "issuer config' = issuer config" and "audience config' = audience config"
    and "now \<le> issued + access_ttl_seconds config" and "0 \<le> issued + access_ttl_seconds config"
    and "issued + access_ttl_seconds config < 2 ^ 63"
    and "headers ''authorization'' = Some v" and "to_str v = Some (''Bearer '' @ token)"
  shows "auth_extract to_str decode new config' headers = Some (Inr \<lparr>user_id = u, active_org = og\<rparr>)"
proof -
  let ?c = "\<lparr>sub = u, iss = issuer config, exp = issued + access_ttl_seconds config, iat = issued,
      aud = audience config, nbf = None, org = og\<rparr>"
  have "encode ?c ek = Inr token"
    using assms(3,4,9,10) by (auto simp: issue_token_def issue_token_claims i64_wrap_id)
  then have "signed_by token (public ek)" "payload token = ?c"
    using lib by (auto simp: access_jwt_ok_def)
  moreover have "access_claims_pass now (validation new config') ?c"
    using assms(2,6-8) by (intro own_claims_pass)
  ultimately have "decode token (public ek) (validation new config') = Inr ?c"
    and "\<And>k c'. decode token k (validation new config') = Inr c' \<Longrightarrow> c' = ?c"
    using lib by (auto simp: access_jwt_ok_def)
  with assms(5) have "verify_token decode new config' token = Some (Inr ?c)"
    unfolding verify_token_def by (intro verify_loop_some_key)
  then show ?thesis
    using assms(11,12) by (auto simp: auth_extract_Inr_iff bearer_token_iff)
qed

text \<open>One token, signed with the key \<open>k1\<close>, which the verifier has as its previous one.\<close>

definition issuer1 :: "(string, string) JwtConfig" where
  "issuer1 = \<lparr>encoding_key = Some ''k1'', decoding_keys = [''k1''], issuer = ''ferrlabs'',
     audience = Some ''fleet'', access_ttl_seconds = 900\<rparr>"

definition encode1 :: "Claims \<Rightarrow> string \<Rightarrow> (ErrorKind, string) result" where
  "encode1 c ek = (if c = claims1 \<and> ek = ''k1'' then Inr ''tok'' else Inl (OtherKind ''x''))"

definition decode2 :: "int \<Rightarrow> string \<Rightarrow> string \<Rightarrow> Validation \<Rightarrow> (ErrorKind, Claims) result" where
  "decode2 now token key v =
     (if token = ''tok'' \<and> key = ''k1'' \<and> access_claims_pass now v claims1 then Inr claims1 else Inl InvalidSignature)"

lemma jwt1_ok: "access_jwt_ok (\<lambda>t k. t = ''tok'' \<and> k = ''k1'') (\<lambda>_. claims1) now encode1 (decode2 now) (\<lambda>ek. ek)"
  unfolding access_jwt_ok_def encode1_def decode2_def by (simp split: if_split) metis

lemma issue1: "issue_token encode1 100 issuer1 1 None = Inr ''tok''"
  by (simp add: issue_token_def issue_token_for_def issuer1_def encode1_def claims1_def i64_wrap_def result_simps)

theorem issued_token_is_admitted_witness:
  "auth_extract Some (decode2 500) defaults1 (config1 ''fleet'') [''authorization'' \<mapsto> ''Bearer tok'']
     = Some (Inr \<lparr>user_id = 1, active_org = None\<rparr>)"
proof (rule issued_token_is_admitted [OF jwt1_ok _ issue1, where ek = "''k1''" and v = "''Bearer tok''"])
qed (simp_all add: defaults1_def issuer1_def config1_def)

end
