(* ===== verification/Envelope_Crypto.thy ===== *)
theory Envelope_Crypto
  imports Kit_Prelude "HOL-Library.AList" "HOL-Library.Multiset"
begin

text \<open>
  The crate \<open>crypto\<close>: envelope encryption.  Data keys encrypt values with AES-GCM, and a key provider,
  either a local key or Google Cloud KMS behind a cache, wraps the data keys.

  AES-GCM is the argument \<open>aead\<close> and the HTTP client, the token provider, base64 and JSON are the
  argument \<open>kms\<close>; random bytes are arguments of the operation that draws them, and the clock is
  the argument \<open>now\<close>, in seconds.  Error texts are those of the code, with the text of the wrapped
  error appended.
\<close>

section \<open>Values\<close>

definition NONCE_SIZE :: nat where
  "NONCE_SIZE = 12"

record aead =
  a_encrypt :: "string \<Rightarrow> string \<Rightarrow> string \<Rightarrow> (string, string) result"
  a_decrypt :: "string \<Rightarrow> string \<Rightarrow> string \<Rightarrow> (string, string) result"

text \<open>\<open>Key::<Aes256Gcm>::try_from\<close> accepts 32 bytes.\<close>

definition key_from :: "string \<Rightarrow> (string, string) result" where
  "key_from dek =
     (if length dek = 32 then Inr dek
      else Inl (''DEK must be 32 bytes, got '' @ show_nat (length dek)))"

definition encrypt_value :: "aead \<Rightarrow> string \<Rightarrow> string \<Rightarrow> string \<Rightarrow> (string, string) result" where
  "encrypt_value aead nonce plaintext dek =
     try_bind (key_from dek) (\<lambda>key.
     try_bind (map_err (\<lambda>e. ''encryption failed: '' @ e) (a_encrypt aead key nonce plaintext)) (\<lambda>ciphertext.
       Inr (nonce @ ciphertext)))"

definition decrypt_value :: "aead \<Rightarrow> string \<Rightarrow> string \<Rightarrow> (string, string) result" where
  "decrypt_value aead encrypted dek =
     (if length encrypted < NONCE_SIZE then Inl ''ciphertext too short''
      else try_bind (key_from dek) (\<lambda>key.
        map_err (\<lambda>e. ''decryption failed: '' @ e)
          (a_decrypt aead key (take NONCE_SIZE encrypted) (drop NONCE_SIZE encrypted))))"

text \<open>\<open>hex_decode\<close> is \<open>hex::decode\<close>.\<close>

definition parse_kek :: "(string \<Rightarrow> (string, string) result) \<Rightarrow> string \<Rightarrow> (string, string) result" where
  "parse_kek hex_decode hex_key =
     try_bind (hex_decode hex_key) (\<lambda>bytes.
       if length bytes \<noteq> 32
       then Inl (''ENCRYPTION_KEY must be 32 bytes (64 hex chars), got '' @ show_nat (length bytes))
       else Inr bytes)"

section \<open>The local key\<close>

definition GCP_KMS_PREFIX :: string where
  "GCP_KMS_PREFIX = ''gcp-kms:''"

definition is_gcp_kms_ciphertext :: "string \<Rightarrow> bool" where
  "is_gcp_kms_ciphertext bytes = starts_with GCP_KMS_PREFIX bytes"

record LocalKek =
  kek :: string

definition local_wrap_dek :: "aead \<Rightarrow> LocalKek \<Rightarrow> string \<Rightarrow> string \<Rightarrow> (string, string) result" where
  "local_wrap_dek aead self nonce plaintext_dek = encrypt_value aead nonce plaintext_dek (kek self)"

definition local_unwrap_dek :: "aead \<Rightarrow> LocalKek \<Rightarrow> string \<Rightarrow> (string, string) result" where
  "local_unwrap_dek aead self encrypted_dek =
     (if is_gcp_kms_ciphertext encrypted_dek
      then Inl (''secret was wrapped by GCP Cloud KMS but the API is running with a local ''
                @ ''KEK '' @ em_dash @ '' switch the backend or run the re-wrap migration'')
      else decrypt_value aead encrypted_dek (kek self))"

section \<open>The KMS client\<close>

datatype KmsError =
    KmsAuth string
  | KmsHttp string
  | KmsAuthDenied string
  | KmsNotFound
  | KmsApi nat string
  | KmsProtocol string

text \<open>
  \<open>k_token\<close> fetches a bearer token for a scope; \<open>k_post url token field value\<close> posts the JSON object
  with one field and gives the status and the body; \<open>k_field\<close> reads a field of a JSON body;
  \<open>k_text\<close> reads the body as text.
\<close>

record 'b kms_env =
  k_token :: "string \<Rightarrow> (string, string) result"
  k_post :: "string \<Rightarrow> string \<Rightarrow> string \<Rightarrow> string \<Rightarrow> (string, nat \<times> 'b) result"
  k_field :: "string \<Rightarrow> 'b \<Rightarrow> (string, string) result"
  k_text :: "'b \<Rightarrow> string"
  k_b64_encode :: "string \<Rightarrow> string"
  k_b64_decode :: "string \<Rightarrow> (string, string) result"

abbreviation KMS_SCOPE :: string where
  "KMS_SCOPE \<equiv> ''https://www.googleapis.com/auth/cloud-platform''"

abbreviation KMS_BASE :: string where
  "KMS_BASE \<equiv> ''https://cloudkms.googleapis.com/v1''"

definition kms_bearer :: "'b kms_env \<Rightarrow> (KmsError, string) result" where
  "kms_bearer kms = map_err (\<lambda>e. KmsAuth (''fetch token: '' @ e)) (k_token kms KMS_SCOPE)"

definition kms_parse :: "'b kms_env \<Rightarrow> string \<Rightarrow> nat \<times> 'b \<Rightarrow> (KmsError, string) result" where
  "kms_parse kms field resp =
     (case resp of (status, body) \<Rightarrow>
        if 200 \<le> status \<and> status < 300 then map_err KmsHttp (k_field kms field body)
        else (let text = k_text kms body
              in Inl (if status = 401 \<or> status = 403 then KmsAuthDenied text
                      else if status = 404 then KmsNotFound
                      else KmsApi status text)))"

definition kms_call ::
  "'b kms_env \<Rightarrow> string \<Rightarrow> string \<Rightarrow> string \<Rightarrow> string \<Rightarrow> (KmsError, string) result" where
  "kms_call kms url field value out =
     try_bind (kms_bearer kms) (\<lambda>token.
     try_bind (map_err KmsHttp (k_post kms url token field value)) (kms_parse kms out))"

definition kms_encrypt :: "'b kms_env \<Rightarrow> string \<Rightarrow> string \<Rightarrow> (KmsError, string) result" where
  "kms_encrypt kms key_name plaintext =
     kms_call kms (KMS_BASE @ ''/'' @ key_name @ '':encrypt'') ''plaintext''
       (k_b64_encode kms plaintext) ''ciphertext''"

definition kms_decrypt :: "'b kms_env \<Rightarrow> string \<Rightarrow> string \<Rightarrow> (KmsError, string) result" where
  "kms_decrypt kms key_name ciphertext =
     try_bind (kms_call kms (KMS_BASE @ ''/'' @ key_name @ '':decrypt'') ''ciphertext'' ciphertext
         ''plaintext'') (\<lambda>plaintext.
       map_err (\<lambda>e. KmsProtocol (''bad base64 in plaintext: '' @ e)) (k_b64_decode kms plaintext))"

definition asymmetric_sign_ed25519 ::
  "'b kms_env \<Rightarrow> string \<Rightarrow> string \<Rightarrow> (KmsError, string) result" where
  "asymmetric_sign_ed25519 kms version_name message =
     try_bind (kms_call kms (KMS_BASE @ ''/'' @ version_name @ '':asymmetricSign'') ''data''
         (k_b64_encode kms message) ''signature'') (\<lambda>signature.
       map_err (\<lambda>e. KmsProtocol (''bad base64 in signature: '' @ e)) (k_b64_decode kms signature))"

definition kms_error_display :: "KmsError \<Rightarrow> string" where
  "kms_error_display e =
     (case e of
        KmsAuth m \<Rightarrow> ''GCP auth error: '' @ m
      | KmsHttp m \<Rightarrow> ''GCP KMS HTTP error: '' @ m
      | KmsAuthDenied m \<Rightarrow> ''GCP KMS access denied: '' @ m
      | KmsNotFound \<Rightarrow> ''GCP KMS resource not found''
      | KmsApi status body \<Rightarrow> ''GCP KMS API error '' @ show_nat status @ '': '' @ body
      | KmsProtocol m \<Rightarrow> ''GCP KMS protocol error: '' @ m)"

section \<open>The KMS key provider and its cache\<close>

record CachedDek =
  cd_plaintext :: string
  cd_cached_at :: int

text \<open>The hash map is the list of its entries in the order it would be drained, which is arbitrary.\<close>

record GcpKmsKek =
  gk_key_name :: string
  gk_cache :: "(string \<times> CachedDek) list"
  gk_ttl :: int
  gk_max_entries :: nat
  gk_last_health_ok :: "int option"

definition gcp_kms_kek_new :: "string \<Rightarrow> GcpKmsKek" where
  "gcp_kms_kek_new key_name =
     \<lparr>gk_key_name = key_name, gk_cache = [], gk_ttl = 60, gk_max_entries = 1024,
      gk_last_health_ok = None\<rparr>"

definition elapsed :: "int \<Rightarrow> int \<Rightarrow> int" where
  "elapsed now t = max 0 (now - t)"

definition cache_get :: "int \<Rightarrow> string \<Rightarrow> GcpKmsKek \<Rightarrow> string option \<times> GcpKmsKek" where
  "cache_get now key self =
     (case map_of (gk_cache self) key of
        None \<Rightarrow> (None, self)
      | Some entry \<Rightarrow>
          if elapsed now (cd_cached_at entry) < gk_ttl self then (Some (cd_plaintext entry), self)
          else (None, self\<lparr>gk_cache := AList.delete key (gk_cache self)\<rparr>))"

definition cache_trim :: "nat \<Rightarrow> (string \<times> CachedDek) list \<Rightarrow> (string \<times> CachedDek) list" where
  "cache_trim max_entries cache =
     (if length cache \<ge> max_entries
      then drop (max_entries div 2) (sort_key (\<lambda>e. cd_cached_at (snd e)) cache)
      else cache)"

definition cache_put :: "int \<Rightarrow> string \<Rightarrow> string \<Rightarrow> GcpKmsKek \<Rightarrow> GcpKmsKek" where
  "cache_put now key plaintext self =
     self\<lparr>gk_cache := AList.update key \<lparr>cd_plaintext = plaintext, cd_cached_at = now\<rparr>
            (cache_trim (gk_max_entries self) (gk_cache self))\<rparr>"

definition gcp_wrap_dek :: "'b kms_env \<Rightarrow> GcpKmsKek \<Rightarrow> string \<Rightarrow> (string, string) result" where
  "gcp_wrap_dek kms self plaintext_dek =
     try_bind (map_err (\<lambda>e. ''gcp kms encrypt: '' @ kms_error_display e)
         (kms_encrypt kms (gk_key_name self) plaintext_dek)) (\<lambda>ct.
       Inr (GCP_KMS_PREFIX @ ct))"

text \<open>
  The call to the service on a cache miss.  \<open>utf8\<close> is \<open>std::str::from_utf8\<close>'s check; a string of the
  model is its bytes.
\<close>

definition kms_plain ::
  "'b kms_env \<Rightarrow> (string \<Rightarrow> (string, unit) result) \<Rightarrow> string \<Rightarrow> string \<Rightarrow> (string, string) result" where
  "kms_plain kms utf8 key_name encrypted_dek =
     (let ct = drop (length GCP_KMS_PREFIX) encrypted_dek
      in try_bind (map_err (\<lambda>e. ''gcp kms ciphertext not utf-8: '' @ e) (utf8 ct)) (\<lambda>_.
           map_err (\<lambda>e. ''gcp kms decrypt: '' @ kms_error_display e) (kms_decrypt kms key_name ct)))"

definition gcp_unwrap_dek ::
  "'b kms_env \<Rightarrow> (string \<Rightarrow> (string, unit) result) \<Rightarrow> int \<Rightarrow> int \<Rightarrow> string \<Rightarrow> GcpKmsKek
     \<Rightarrow> (string, string) result \<times> GcpKmsKek" where
  "gcp_unwrap_dek kms utf8 now later encrypted_dek self =
     (if \<not> is_gcp_kms_ciphertext encrypted_dek
      then (Inl (''secret was wrapped by a local KEK but the API is running against GCP ''
                 @ ''Cloud KMS '' @ em_dash @ '' run the re-wrap migration''), self)
      else (case cache_get now encrypted_dek self of
              (Some cached, self') \<Rightarrow> (Inr cached, self')
            | (None, self') \<Rightarrow>
                (case kms_plain kms utf8 (gk_key_name self') encrypted_dek of
                   Inl e \<Rightarrow> (Inl e, self')
                 | Inr plaintext \<Rightarrow> (Inr plaintext, cache_put later encrypted_dek plaintext self'))))"

definition gcp_health_check ::
  "'b kms_env \<Rightarrow> int \<Rightarrow> int \<Rightarrow> GcpKmsKek \<Rightarrow> (string, unit) result \<times> GcpKmsKek" where
  "gcp_health_check kms now later self =
     (let fresh = (case gk_last_health_ok self of None \<Rightarrow> False | Some t \<Rightarrow> elapsed now t < 10)
      in if fresh then (Inr (), self)
         else (case map_err (\<lambda>e. ''gcp kms health probe: '' @ kms_error_display e)
                      (kms_encrypt kms (gk_key_name self) ''readyz-probe'') of
                 Inl e \<Rightarrow> (Inl e, self)
               | Inr _ \<Rightarrow> (Inr (), self\<lparr>gk_last_health_ok := Some later\<rparr>)))"

section \<open>Round trips\<close>

text \<open>What AES-GCM promises: decryption under the same key and nonce undoes encryption.\<close>

definition aead_ok :: "aead \<Rightarrow> bool" where
  "aead_ok aead \<longleftrightarrow> (\<forall>k n m c. a_encrypt aead k n m = Inr c \<longrightarrow> a_decrypt aead k n c = Inr m)"

lemma encrypt_value_Inr_iff:
  "encrypt_value aead nonce m dek = Inr c \<longleftrightarrow>
     length dek = 32 \<and> (\<exists>ct. a_encrypt aead dek nonce m = Inr ct \<and> c = nonce @ ct)"
  by (auto simp: encrypt_value_def key_from_def result_simps split: if_splits)

lemma decrypt_encrypt_value:
  assumes "aead_ok aead" and "length nonce = NONCE_SIZE" and "encrypt_value aead nonce m dek = Inr c"
  shows "decrypt_value aead c dek = Inr m"
  using assms by (auto simp: encrypt_value_Inr_iff decrypt_value_def key_from_def aead_ok_def result_simps)

lemma length_GCP_KMS_PREFIX: "length GCP_KMS_PREFIX = 8"
  by (simp add: GCP_KMS_PREFIX_def)

text \<open>
  C23: a data key wrapped under the local key comes back, except when the random nonce happens to
  begin with the eight bytes \<open>gcp-kms:\<close>.  Such a ciphertext is taken for one of Cloud KMS and refused
  for ever.
\<close>

theorem local_kek_roundtrip:
  assumes "aead_ok aead" and "length nonce = NONCE_SIZE"
    and "local_wrap_dek aead self nonce dek = Inr c"
  shows "local_unwrap_dek aead self c =
    (if take 8 nonce = GCP_KMS_PREFIX
     then Inl (''secret was wrapped by GCP Cloud KMS but the API is running with a local ''
               @ ''KEK '' @ em_dash @ '' switch the backend or run the re-wrap migration'')
     else Inr dek)"
proof -
  have "decrypt_value aead c (kek self) = Inr dek"
    using assms by (intro decrypt_encrypt_value) (simp_all add: local_wrap_dek_def)
  moreover obtain ct where c: "c = nonce @ ct"
    using assms(3) by (auto simp: local_wrap_dek_def encrypt_value_Inr_iff)
  have "is_gcp_kms_ciphertext c \<longleftrightarrow> take 8 nonce = GCP_KMS_PREFIX"
    using assms(2)
    by (simp add: c is_gcp_kms_ciphertext_def starts_with_take length_GCP_KMS_PREFIX NONCE_SIZE_def)
  ultimately show ?thesis
    by (simp add: local_unwrap_dek_def)
qed

section \<open>The cache\<close>

lemma cache_trim_subset: "set (cache_trim n cache) \<subseteq> set cache"
  using set_drop_subset [of "n div 2" "sort_key (\<lambda>e. cd_cached_at (snd e)) cache"]
  by (auto simp: cache_trim_def)

lemma cache_trim_length: "2 \<le> n \<Longrightarrow> length cache \<le> n \<Longrightarrow> length (cache_trim n cache) < n"
  by (auto simp: cache_trim_def)

lemma cache_trim_distinct:
  assumes "distinct (map fst cache)"
  shows "distinct (map fst (cache_trim n cache))"
proof -
  let ?s = "sort_key (\<lambda>e. cd_cached_at (snd e)) cache"
  have "mset (map fst ?s) = mset (map fst cache)"
    by simp
  then have "distinct (map fst ?s)"
    using assms by (metis mset_eq_imp_distinct_iff)
  then show ?thesis
    using assms by (simp add: cache_trim_def drop_map [symmetric])
qed

lemma length_AList_update: "length (AList.update k v al) \<le> Suc (length al)"
  by (induction al) auto

lemma set_AList_update: "set (AList.update k v al) \<subseteq> insert (k, v) (set al)"
  by (induction al) auto

text \<open>The invariant of the provider: every cached key is what the service answers.\<close>

definition kms_inv :: "'b kms_env \<Rightarrow> (string \<Rightarrow> (string, unit) result) \<Rightarrow> GcpKmsKek \<Rightarrow> bool" where
  "kms_inv kms utf8 self \<longleftrightarrow>
     2 \<le> gk_max_entries self \<and> length (gk_cache self) \<le> gk_max_entries self \<and>
     distinct (map fst (gk_cache self)) \<and>
     (\<forall>(k, e)\<in>set (gk_cache self). kms_plain kms utf8 (gk_key_name self) k = Inr (cd_plaintext e))"

lemma kms_inv_new: "kms_inv kms utf8 (gcp_kms_kek_new key_name)"
  by (simp add: kms_inv_def gcp_kms_kek_new_def)

lemma cache_get_inv:
  assumes "kms_inv kms utf8 self" and "cache_get now key self = (res, self')"
  shows "kms_inv kms utf8 self' \<and> gk_key_name self' = gk_key_name self \<and>
    gk_max_entries self' = gk_max_entries self \<and>
    (\<forall>p. res = Some p \<longrightarrow> kms_plain kms utf8 (gk_key_name self) key = Inr p)"
proof -
  have "set (AList.delete key (gk_cache self)) \<subseteq> set (gk_cache self)"
    "length (AList.delete key (gk_cache self)) \<le> length (gk_cache self)"
    "distinct (map fst (gk_cache self)) \<Longrightarrow> distinct (map fst (AList.delete key (gk_cache self)))"
    by (auto simp: AList.delete_eq length_filter_le distinct_map_filter)
  with assms show ?thesis
    by (fastforce simp: cache_get_def kms_inv_def split: option.splits if_splits dest: map_of_SomeD
        intro: le_trans)
qed

lemma cache_put_inv:
  assumes "kms_inv kms utf8 self" and "kms_plain kms utf8 (gk_key_name self) key = Inr plaintext"
  shows "kms_inv kms utf8 (cache_put now key plaintext self)"
proof -
  let ?t = "cache_trim (gk_max_entries self) (gk_cache self)"
  let ?e = "\<lparr>cd_plaintext = plaintext, cd_cached_at = now\<rparr>"
  have "length ?t < gk_max_entries self"
    using assms(1) by (intro cache_trim_length) (simp_all add: kms_inv_def)
  then have "length (AList.update key ?e ?t) \<le> gk_max_entries self"
    using length_AList_update [of key ?e ?t] by simp
  moreover have "distinct (map fst (AList.update key ?e ?t))"
    using assms(1) by (intro AList.distinct_update cache_trim_distinct) (simp add: kms_inv_def)
  moreover have "(k, e) = (key, ?e) \<or> (k, e) \<in> set (gk_cache self)"
    if "(k, e) \<in> set (AList.update key ?e ?t)" for k e
    using that cache_trim_subset set_AList_update by fastforce
  ultimately show ?thesis
    using assms by (fastforce simp: kms_inv_def cache_put_def)
qed

lemma gcp_unwrap_inv:
  assumes "kms_inv kms utf8 self" and "is_gcp_kms_ciphertext c"
  shows "fst (gcp_unwrap_dek kms utf8 now later c self) = kms_plain kms utf8 (gk_key_name self) c \<and>
    kms_inv kms utf8 (snd (gcp_unwrap_dek kms utf8 now later c self)) \<and>
    gk_key_name (snd (gcp_unwrap_dek kms utf8 now later c self)) = gk_key_name self \<and>
    gk_max_entries (snd (gcp_unwrap_dek kms utf8 now later c self)) = gk_max_entries self"
proof (cases "cache_get now c self")
  case (Pair res self')
  note got = cache_get_inv [OF assms(1) Pair]
  show ?thesis
  proof (cases res)
    case None
    show ?thesis
    proof (cases "kms_plain kms utf8 (gk_key_name self') c")
      case (Inr p)
      with got cache_put_inv [of kms utf8 self' c p later] None Pair assms(2) show ?thesis
        by (simp add: gcp_unwrap_dek_def) (simp add: cache_put_def)
    qed (use got None Pair assms(2) in \<open>simp add: gcp_unwrap_dek_def\<close>)
  next
    case (Some p)
    with got Pair assms(2) show ?thesis
      by (simp add: gcp_unwrap_dek_def)
  qed
qed


section \<open>Key providers\<close>

text \<open>
  The interface \<open>KeyProvider\<close>: what was wrapped unwraps.  \<open>good\<close> are the random draws and \<open>inv\<close> the
  states of the provider under which the promise holds.
\<close>

locale key_provider =
  fixes wrap :: "'r \<Rightarrow> string \<Rightarrow> (string, string) result"
    and unwrap :: "'s \<Rightarrow> string \<Rightarrow> (string, string) result"
    and good :: "'r \<Rightarrow> bool" and inv :: "'s \<Rightarrow> bool"
  assumes unwrap_wrap: "good r \<Longrightarrow> inv s \<Longrightarrow> wrap r d = Inr c \<Longrightarrow> unwrap s c = Inr d"
begin

text \<open>Two keys wrapped to the same bytes are the same key, so a stored column is unambiguous.\<close>

lemma wrap_unambiguous:
  "good r \<Longrightarrow> good r' \<Longrightarrow> inv s \<Longrightarrow> wrap r d = Inr c \<Longrightarrow> wrap r' d' = Inr c \<Longrightarrow> d = d'"
  by (metis unwrap_wrap sum.inject(2))

end

definition local_good :: "aead \<Rightarrow> string \<Rightarrow> bool" where
  "local_good aead nonce \<longleftrightarrow>
     aead_ok aead \<and> length nonce = NONCE_SIZE \<and> take 8 nonce \<noteq> GCP_KMS_PREFIX"

lemma local_unwrap_wrap:
  assumes "local_good aead nonce" and "local_wrap_dek aead self nonce d = Inr c"
  shows "local_unwrap_dek aead self c = Inr d"
proof -
  obtain ct where c: "c = nonce @ ct"
    using assms(2) by (auto simp: local_wrap_dek_def encrypt_value_Inr_iff)
  then have "\<not> is_gcp_kms_ciphertext c"
    using assms(1)
    by (simp add: local_good_def is_gcp_kms_ciphertext_def starts_with_take length_GCP_KMS_PREFIX
        NONCE_SIZE_def)
  moreover have "decrypt_value aead c (kek self) = Inr d"
    using assms by (intro decrypt_encrypt_value) (simp_all add: local_wrap_dek_def local_good_def)
  ultimately show ?thesis
    by (simp add: local_unwrap_dek_def)
qed

interpretation local_kek:
  key_provider "local_wrap_dek aead self" "\<lambda>_ :: unit. local_unwrap_dek aead self"
    "local_good aead" "\<lambda>_. True"
  for aead :: aead and self :: LocalKek
  by unfold_locales (rule local_unwrap_wrap)

text \<open>What Cloud KMS promises: decryption undoes encryption, and ciphertexts are text.\<close>

definition kms_ok :: "'b kms_env \<Rightarrow> (string \<Rightarrow> (string, unit) result) \<Rightarrow> bool" where
  "kms_ok kms utf8 \<longleftrightarrow>
     (\<forall>k d c. kms_encrypt kms k d = Inr c \<longrightarrow> kms_decrypt kms k c = Inr d \<and> utf8 c = Inr ())"

lemma gcp_unwrap_wrap:
  assumes "kms_ok kms utf8" and "kms_inv kms utf8 s" and "gk_key_name s = gk_key_name self"
    and "gcp_wrap_dek kms self d = Inr c"
  shows "fst (gcp_unwrap_dek kms utf8 now later c s) = Inr d"
proof -
  obtain ct where ct: "kms_encrypt kms (gk_key_name self) d = Inr ct" "c = GCP_KMS_PREFIX @ ct"
    using assms(4) by (auto simp: gcp_wrap_dek_def result_simps)
  then have "is_gcp_kms_ciphertext c"
    by (simp add: is_gcp_kms_ciphertext_def starts_with_iff)
  moreover have "kms_plain kms utf8 (gk_key_name s) c = Inr d"
    using assms(1,3) ct by (auto simp: kms_plain_def kms_ok_def result_simps)
  ultimately show ?thesis
    using gcp_unwrap_inv [OF assms(2)] by simp
qed

interpretation gcp_kek:
  key_provider "\<lambda>_ :: unit. gcp_wrap_dek kms self"
    "\<lambda>s c. fst (gcp_unwrap_dek kms utf8 now later c s)" "\<lambda>_. kms_ok kms utf8"
    "\<lambda>s. kms_inv kms utf8 s \<and> gk_key_name s = gk_key_name self"
  for kms :: "'b kms_env" and utf8 :: "string \<Rightarrow> (string, unit) result" and self :: GcpKmsKek
    and now later :: int
  by unfold_locales (auto intro: gcp_unwrap_wrap)

section \<open>Instances\<close>

definition plain_aead :: aead where
  "plain_aead = \<lparr>a_encrypt = \<lambda>k n m. Inr m, a_decrypt = \<lambda>k n c. Inr c\<rparr>"

theorem local_kek_roundtrip_witness:
  "local_unwrap_dek plain_aead \<lparr>kek = replicate 32 CHR ''k''\<rparr> ''gcp-kms:0000secret''
   = Inl (''secret was wrapped by GCP Cloud KMS but the API is running with a local ''
          @ ''KEK '' @ em_dash @ '' switch the backend or run the re-wrap migration'')"
proof -
  have ok: "aead_ok plain_aead"
    by (simp add: aead_ok_def plain_aead_def)
  have len: "length ''gcp-kms:0000'' = NONCE_SIZE"
    by (simp add: NONCE_SIZE_def)
  have wrap: "local_wrap_dek plain_aead \<lparr>kek = replicate 32 CHR ''k''\<rparr> ''gcp-kms:0000'' ''secret''
      = Inr ''gcp-kms:0000secret''"
    by (simp add: local_wrap_dek_def encrypt_value_def key_from_def plain_aead_def result_simps)
  have pre: "take 8 ''gcp-kms:0000'' = GCP_KMS_PREFIX"
    by code_simp
  show ?thesis
    unfolding local_kek_roundtrip [OF ok len wrap] pre by simp
qed

text \<open>A key service whose ciphertexts are the plaintexts.\<close>

definition plain_kms :: "string kms_env" where
  "plain_kms = \<lparr>k_token = \<lambda>_. Inr ''t'', k_post = \<lambda>url token field val. Inr (200, val),
     k_field = \<lambda>field body. Inr body, k_text = \<lambda>body. body, k_b64_encode = \<lambda>s. s,
     k_b64_decode = Inr\<rparr>"


end
