(* ===== verification/Totp.thy ===== *)
theory Totp
  imports Envelope_Crypto
begin

text \<open>
  The file \<open>totp.rs\<close> of the crate \<open>auth\<close>: time-based one-time codes and recovery codes.

  The crate \<open>totp-rs\<close> is the argument \<open>lib\<close>: it builds a factor from the parameters the code sets, and
  a factor checks a code at a time and gives the step it matches.  SHA-256 and base64 are
  arguments; the seed is sealed by a key provider of the theory \<open>Envelope_Crypto\<close>.
\<close>

section \<open>Definitions\<close>

abbreviation TOTP_DIGITS :: nat where "TOTP_DIGITS \<equiv> 6"
definition TOTP_STEP_SECS :: nat where "TOTP_STEP_SECS = 30"
definition TOTP_SKEW :: nat where "TOTP_SKEW = 1"
abbreviation SECRET_BYTES :: nat where "SECRET_BYTES \<equiv> 20"
abbreviation DEFAULT_RECOVERY_CODE_COUNT :: nat where "DEFAULT_RECOVERY_CODE_COUNT \<equiv> 10"
definition ISSUER :: string where "ISSUER = ''FerrLabs''"

datatype TotpError = InvalidConfig string | TotpCrypto string | ClockError

record TotpEnrollment =
  te_seed :: string
  te_account :: string

text \<open>
  \<open>l_build algorithm digits skew step secret issuer account\<close> is the builder; \<open>l_check\<close>, \<open>l_url\<close> and
  \<open>l_generate\<close> are the methods of the factor.
\<close>

record 't totp_lib =
  l_build :: "string \<Rightarrow> nat \<Rightarrow> nat \<Rightarrow> nat \<Rightarrow> string \<Rightarrow> string option \<Rightarrow> string \<Rightarrow> (string, 't) result"
  l_check :: "'t \<Rightarrow> string \<Rightarrow> nat \<Rightarrow> nat option"
  l_url :: "'t \<Rightarrow> (string, string) result"
  l_generate :: "'t \<Rightarrow> nat \<Rightarrow> string"

definition totp_generate :: "string \<Rightarrow> string \<Rightarrow> TotpEnrollment" where
  "totp_generate random_seed account_email = \<lparr>te_seed = random_seed, te_account = account_email\<rparr>"

definition totp_from_seed :: "string \<Rightarrow> string \<Rightarrow> TotpEnrollment" where
  "totp_from_seed seed account_email = \<lparr>te_seed = seed, te_account = account_email\<rparr>"

definition totp_totp :: "'t totp_lib \<Rightarrow> TotpEnrollment \<Rightarrow> (TotpError, 't) result" where
  "totp_totp lib self =
     map_err InvalidConfig
       (l_build lib ''SHA1'' TOTP_DIGITS TOTP_SKEW TOTP_STEP_SECS (te_seed self) (Some ISSUER)
         (te_account self))"

definition provisioning_uri :: "'t totp_lib \<Rightarrow> TotpEnrollment \<Rightarrow> (TotpError, string) result" where
  "provisioning_uri lib self =
     try_bind (totp_totp lib self) (\<lambda>t. map_err InvalidConfig (l_url lib t))"

definition seal_seed ::
  "(string \<Rightarrow> (string, string) result) \<Rightarrow> TotpEnrollment \<Rightarrow> (TotpError, string) result" where
  "seal_seed wrap_dek self = map_err TotpCrypto (wrap_dek (te_seed self))"

definition unseal_seed ::
  "(string \<Rightarrow> (string, string) result) \<Rightarrow> string \<Rightarrow> (TotpError, string) result" where
  "unseal_seed unwrap_dek sealed = map_err TotpCrypto (unwrap_dek sealed)"

definition verify_step_at ::
  "'t totp_lib \<Rightarrow> TotpEnrollment \<Rightarrow> string \<Rightarrow> nat \<Rightarrow> nat option \<Rightarrow> (TotpError, nat option) result" where
  "verify_step_at lib self code unix_time last_used_step =
     try_bind (totp_totp lib self) (\<lambda>t.
       Inr (case l_check lib t code unix_time of
              None \<Rightarrow> None
            | Some step \<Rightarrow>
                if (case last_used_step of None \<Rightarrow> True | Some used \<Rightarrow> step > used)
                then Some step else None))"

definition verify_at ::
  "'t totp_lib \<Rightarrow> TotpEnrollment \<Rightarrow> string \<Rightarrow> nat \<Rightarrow> (TotpError, bool) result" where
  "verify_at lib self code unix_time =
     try_bind (verify_step_at lib self code unix_time None) (\<lambda>step. Inr (step \<noteq> None))"

text \<open>The system clock, in seconds since the epoch, which may be before it.\<close>

definition unix_now :: "int \<Rightarrow> (TotpError, nat) result" where
  "unix_now clock = (if clock < 0 then Inl ClockError else Inr (nat clock))"

definition verify_step_now ::
  "'t totp_lib \<Rightarrow> int \<Rightarrow> TotpEnrollment \<Rightarrow> string \<Rightarrow> nat option \<Rightarrow> (TotpError, nat option) result" where
  "verify_step_now lib clock self code last_used_step =
     try_bind (unix_now clock) (\<lambda>t. verify_step_at lib self code t last_used_step)"

definition verify_now ::
  "'t totp_lib \<Rightarrow> int \<Rightarrow> TotpEnrollment \<Rightarrow> string \<Rightarrow> (TotpError, bool) result" where
  "verify_now lib clock self code = try_bind (unix_now clock) (verify_at lib self code)"

definition current_code_at ::
  "'t totp_lib \<Rightarrow> TotpEnrollment \<Rightarrow> nat \<Rightarrow> (TotpError, string) result" where
  "current_code_at lib self unix_time =
     try_bind (totp_totp lib self) (\<lambda>t. Inr (l_generate lib t unix_time))"

section \<open>Recovery codes\<close>

record RecoveryCode =
  rc_plaintext :: string
  rc_hash :: string

definition hash_recovery_code :: "(string \<Rightarrow> string) \<Rightarrow> string \<Rightarrow> string" where
  "hash_recovery_code sha256 code = sha256 code"

text \<open>\<open>draws\<close> are the random bytes, one entry per code.\<close>

definition generate_recovery_codes ::
  "(string \<Rightarrow> string) \<Rightarrow> (string \<Rightarrow> string) \<Rightarrow> string list \<Rightarrow> RecoveryCode list" where
  "generate_recovery_codes sha256 encode draws =
     map (\<lambda>bytes. let plaintext = encode bytes
                  in \<lparr>rc_plaintext = plaintext, rc_hash = hash_recovery_code sha256 plaintext\<rparr>) draws"

fun match_loop :: "string \<Rightarrow> nat \<Rightarrow> nat option \<Rightarrow> string list \<Rightarrow> nat option" where
  "match_loop presented idx matched [] = matched"
| "match_loop presented idx matched (stored # hashes) =
     match_loop presented (Suc idx) (if presented = stored then Some idx else matched) hashes"

definition verify_and_consume :: "(string \<Rightarrow> string) \<Rightarrow> string \<Rightarrow> string list \<Rightarrow> nat option" where
  "verify_and_consume sha256 code hashes = match_loop (hash_recovery_code sha256 code) 0 None hashes"

section \<open>A code is accepted once\<close>

text \<open>
  The logins of one user as the documentation asks the caller to run them: each attempt is checked
  against the last step used, and an accepted step becomes the last one.  The list collects the
  accepted steps.
\<close>

fun login_steps :: "'t totp_lib \<Rightarrow> TotpEnrollment \<Rightarrow> nat option \<Rightarrow> (string \<times> nat) list \<Rightarrow> nat list" where
  "login_steps lib self used [] = []"
| "login_steps lib self used ((code, unix_time) # attempts) =
     (case verify_step_at lib self code unix_time used of
        Inr (Some step) \<Rightarrow> step # login_steps lib self (Some step) attempts
      | _ \<Rightarrow> login_steps lib self used attempts)"

lemma verify_step_at_Some_iff:
  "verify_step_at lib self code t used = Inr (Some step) \<longleftrightarrow>
     (\<exists>f. totp_totp lib self = Inr f \<and> l_check lib f code t = Some step \<and>
        (\<forall>u. used = Some u \<longrightarrow> u < step))"
  by (auto simp: verify_step_at_def result_simps split: option.splits if_splits)

lemma login_steps_reject:
  "\<nexists>step. verify_step_at lib self code t used = Inr (Some step) \<Longrightarrow>
   login_steps lib self used ((code, t) # attempts) = login_steps lib self used attempts"
  by (auto split: sum.split option.split)

lemma login_steps_increase:
  "sorted_wrt (<) (login_steps lib self used attempts) \<and>
   (\<forall>u s. used = Some u \<longrightarrow> s \<in> set (login_steps lib self used attempts) \<longrightarrow> u < s)"
proof (induction attempts arbitrary: used)
  case (Cons a attempts)
  obtain code t where a: "a = (code, t)"
    by (cases a)
  show ?case
  proof (cases "\<exists>step. verify_step_at lib self code t used = Inr (Some step)")
    case True
    then obtain step where step: "verify_step_at lib self code t used = Inr (Some step)"
      by blast
    then have "\<forall>u. used = Some u \<longrightarrow> u < step"
      by (auto simp: verify_step_at_Some_iff)
    with step Cons.IH [of "Some step"] show ?thesis
      by (auto simp: a intro: less_trans)
  next
    case False
    with Cons.IH [of used] show ?thesis
      unfolding a login_steps_reject [OF False] by simp
  qed
qed simp

text \<open>
  C24: a one-time code opens one login.  However often and in whatever order codes are tried, the
  accepted time steps are strictly increasing, so no step is accepted twice, and every accepted
  step lies after the last one used before.
\<close>

theorem totp_step_accepted_once:
  "sorted_wrt (<) (case_option [] (\<lambda>u. [u]) used @ login_steps lib self used attempts)"
  using login_steps_increase [of lib self used attempts] by (cases used) auto

section \<open>Recovery codes are used once\<close>

lemma match_loop_None_iff: "match_loop p i m hs = None \<longleftrightarrow> m = None \<and> p \<notin> set hs"
  by (induction hs arbitrary: i m) auto

lemma match_loop_Some:
  "match_loop p i m hs = Some j \<Longrightarrow>
   (m = Some j \<and> p \<notin> set hs) \<or> (i \<le> j \<and> j < i + length hs \<and> hs ! (j - i) = p)"
proof (induction hs arbitrary: i m)
  case (Cons h hs)
  from Cons.IH [OF Cons.prems [simplified]] show ?case
    by (auto simp: nth_Cons' split: if_splits)
qed simp

lemma verify_and_consume_Some:
  "verify_and_consume sha256 code hashes = Some j \<Longrightarrow> j < length hashes \<and> hashes ! j = sha256 code"
  unfolding verify_and_consume_def hash_recovery_code_def by (drule match_loop_Some) auto

lemma verify_and_consume_None_iff:
  "verify_and_consume sha256 code hashes = None \<longleftrightarrow> sha256 code \<notin> set hashes"
  by (simp add: verify_and_consume_def match_loop_None_iff hash_recovery_code_def)

lemma set_remove_nth:
  assumes "distinct xs" and "j < length xs"
  shows "set (take j xs @ drop (Suc j) xs) = set xs - {xs ! j}"
proof -
  have "xs = take j xs @ xs ! j # drop (Suc j) xs"
    using assms(2) by (rule id_take_nth_drop)
  moreover from this assms(1) have "distinct (take j xs @ xs ! j # drop (Suc j) xs)"
    by simp
  ultimately show ?thesis
    by (metis (no_types, lifting) Diff_insert_absorb Un_insert_right distinct.simps(2) distinct_append
        disjoint_insert(1) list.simps(15) set_append Un_iff)
qed

text \<open>
  A recovery code is good for one use.  With distinct stored hashes the index returned is that of
  the code's own hash; once the caller drops the entry at that index the code is refused, and
  every other code is accepted as before.
\<close>

theorem recovery_code_single_use:
  assumes "distinct hashes" and "verify_and_consume sha256 code hashes = Some j"
  shows "hashes ! j = sha256 code \<and>
    verify_and_consume sha256 code (take j hashes @ drop (Suc j) hashes) = None \<and>
    (\<forall>other. sha256 other \<noteq> sha256 code \<longrightarrow>
       (verify_and_consume sha256 other (take j hashes @ drop (Suc j) hashes) = None \<longleftrightarrow>
        verify_and_consume sha256 other hashes = None))"
proof -
  note j = verify_and_consume_Some [OF assms(2)]
  then show ?thesis
    using set_remove_nth [OF assms(1), of j] by (simp add: verify_and_consume_None_iff del: set_append)
qed

theorem recovery_code_single_use_witness:
  "verify_and_consume (\<lambda>s. s) ''b'' [''a'', ''b''] = Some 1 \<and>
   verify_and_consume (\<lambda>s. s) ''b'' [''a''] = None"
proof -
  have "verify_and_consume (\<lambda>s. s) ''b'' [''a'', ''b''] = Some 1"
    by (simp add: verify_and_consume_def hash_recovery_code_def)
  moreover from recovery_code_single_use [OF _ this]
  have "verify_and_consume (\<lambda>s. s) ''b'' [''a''] = None"
    by simp
  ultimately show ?thesis
    by blast
qed

section \<open>The seed at rest\<close>

context key_provider
begin

lemma unseal_seal:
  "good r \<Longrightarrow> inv s \<Longrightarrow> seal_seed (wrap r) e = Inr c \<Longrightarrow> unseal_seed (unwrap s) c = Inr (te_seed e)"
  by (auto simp: seal_seed_def unseal_seed_def result_simps dest: unwrap_wrap)

end

corollary seed_survives_local_storage:
  "local_good aead nonce \<Longrightarrow> seal_seed (local_wrap_dek aead self nonce) e = Inr c \<Longrightarrow>
   unseal_seed (local_unwrap_dek aead self) c = Inr (te_seed e)"
  by (rule local_kek.unseal_seal) simp_all

corollary seed_survives_kms_storage:
  "kms_ok kms utf8 \<Longrightarrow> kms_inv kms utf8 s \<Longrightarrow> gk_key_name s = gk_key_name self \<Longrightarrow>
   seal_seed (gcp_wrap_dek kms self) e = Inr c \<Longrightarrow>
   unseal_seed (\<lambda>c. fst (gcp_unwrap_dek kms utf8 now later c s)) c = Inr (te_seed e)"
  by (rule gcp_kek.unseal_seal) simp_all

end
