(* ===== verification/Ip_Addr.thy ===== *)
theory Ip_Addr
  imports Kit_Prelude
begin

text \<open>
  The address types of \<open>std::net\<close> the crates use: IPv4 and IPv6 addresses, the predicates on them,
  and the parser behind \<open>parse::<IpAddr>()\<close>, written after the parser of the standard library: each
  reader either consumes its text or leaves the input alone.
\<close>

unbundle bit_operations_syntax

section \<open>Addresses\<close>

datatype Ipv4Addr = Ipv4 "8 word" "8 word" "8 word" "8 word"

text \<open>Eight 16-bit segments.\<close>

datatype Ipv6Addr =
  Ipv6 "16 word" "16 word" "16 word" "16 word" "16 word" "16 word" "16 word" "16 word"

datatype IpAddr = V4 Ipv4Addr | V6 Ipv6Addr

definition hi_byte :: "16 word \<Rightarrow> 8 word" where
  "hi_byte s = ucast (drop_bit 8 s)"

definition lo_byte :: "16 word \<Rightarrow> 8 word" where
  "lo_byte s = ucast s"

definition from_be_bytes :: "8 word \<Rightarrow> 8 word \<Rightarrow> 16 word" where
  "from_be_bytes h l = push_bit 8 (ucast h) OR ucast l"

fun v4_is_unspecified :: "Ipv4Addr \<Rightarrow> bool" where
  "v4_is_unspecified (Ipv4 a b c d) \<longleftrightarrow> a = 0 \<and> b = 0 \<and> c = 0 \<and> d = 0"

fun v4_is_loopback :: "Ipv4Addr \<Rightarrow> bool" where
  "v4_is_loopback (Ipv4 a b c d) \<longleftrightarrow> a = 127"

fun v4_is_private :: "Ipv4Addr \<Rightarrow> bool" where
  "v4_is_private (Ipv4 a b c d) \<longleftrightarrow>
     a = 10 \<or> (a = 172 \<and> 16 \<le> b \<and> b \<le> 31) \<or> (a = 192 \<and> b = 168)"

fun v4_is_link_local :: "Ipv4Addr \<Rightarrow> bool" where
  "v4_is_link_local (Ipv4 a b c d) \<longleftrightarrow> a = 169 \<and> b = 254"

fun v4_is_multicast :: "Ipv4Addr \<Rightarrow> bool" where
  "v4_is_multicast (Ipv4 a b c d) \<longleftrightarrow> 224 \<le> a \<and> a \<le> 239"

fun v4_is_broadcast :: "Ipv4Addr \<Rightarrow> bool" where
  "v4_is_broadcast (Ipv4 a b c d) \<longleftrightarrow> a = 255 \<and> b = 255 \<and> c = 255 \<and> d = 255"

fun v4_is_documentation :: "Ipv4Addr \<Rightarrow> bool" where
  "v4_is_documentation (Ipv4 a b c d) \<longleftrightarrow>
     (a = 192 \<and> b = 0 \<and> c = 2) \<or> (a = 198 \<and> b = 51 \<and> c = 100) \<or> (a = 203 \<and> b = 0 \<and> c = 113)"

fun v6_is_unspecified :: "Ipv6Addr \<Rightarrow> bool" where
  "v6_is_unspecified (Ipv6 a b c d e f g h) \<longleftrightarrow> [a, b, c, d, e, f, g, h] = [0, 0, 0, 0, 0, 0, 0, 0]"

fun v6_is_loopback :: "Ipv6Addr \<Rightarrow> bool" where
  "v6_is_loopback (Ipv6 a b c d e f g h) \<longleftrightarrow> [a, b, c, d, e, f, g, h] = [0, 0, 0, 0, 0, 0, 0, 1]"

fun v6_is_multicast :: "Ipv6Addr \<Rightarrow> bool" where
  "v6_is_multicast (Ipv6 a b c d e f g h) \<longleftrightarrow> a AND 0xff00 = 0xff00"

text \<open>\<open>Ipv6Addr::to_ipv4\<close>: IPv4-compatible and IPv4-mapped addresses.\<close>

fun v6_to_ipv4 :: "Ipv6Addr \<Rightarrow> Ipv4Addr option" where
  "v6_to_ipv4 (Ipv6 a b c d e f g h) =
     (if [a, b, c, d, e] = [0, 0, 0, 0, 0] \<and> (f = 0 \<or> f = 0xffff)
      then Some (Ipv4 (hi_byte g) (lo_byte g) (hi_byte h) (lo_byte h))
      else None)"

section \<open>Printing\<close>

text \<open>\<open>Display\<close> of the address types; \<open>show_hex\<close> is the format \<open>{:x}\<close>.\<close>

definition hex_digit_char :: "nat \<Rightarrow> char" where
  "hex_digit_char d = (if d < 10 then char_of (48 + d) else char_of (87 + d))"

fun show_hex :: "nat \<Rightarrow> string" where
  "show_hex n = (if n < 16 then [hex_digit_char n] else show_hex (n div 16) @ [hex_digit_char (n mod 16)])"

declare show_hex.simps [simp del]

fun v4_to_string :: "Ipv4Addr \<Rightarrow> string" where
  "v4_to_string (Ipv4 a b c d) = join_with ''.'' (map (\<lambda>o8. show_nat (unat o8)) [a, b, c, d])"

text \<open>The first longest run of zero segments, as its start and length.\<close>

fun zero_run :: "nat \<Rightarrow> nat \<times> nat \<Rightarrow> nat \<times> nat \<Rightarrow> 16 word list \<Rightarrow> nat \<times> nat" where
  "zero_run i (start, len) longest [] = longest"
| "zero_run i (start, len) longest (s # ss) =
     (if s = 0
      then (let current = (if len = 0 then i else start, len + 1)
            in zero_run (i + 1) current (if len + 1 > snd longest then current else longest) ss)
      else zero_run (i + 1) (0, 0) longest ss)"

definition show_segments :: "16 word list \<Rightarrow> string" where
  "show_segments ss = join_with '':'' (map (\<lambda>s. show_hex (unat s)) ss)"

fun v6_to_string :: "Ipv6Addr \<Rightarrow> string" where
  "v6_to_string (Ipv6 a b c d e f g h) =
     (if [a, b, c, d, e, f] = [0, 0, 0, 0, 0, 0xffff]
      then ''::ffff:'' @ v4_to_string (Ipv4 (hi_byte g) (lo_byte g) (hi_byte h) (lo_byte h))
      else
        (let ss = [a, b, c, d, e, f, g, h] in
         case zero_run 0 (0, 0) (0, 0) ss of
           (start, len) \<Rightarrow>
             if len > 1 then show_segments (take start ss) @ ''::'' @ show_segments (drop (start + len) ss)
             else show_segments ss))"

definition ip_to_string :: "IpAddr \<Rightarrow> string" where
  "ip_to_string ip = (case ip of V4 v4 \<Rightarrow> v4_to_string v4 | V6 v6 \<Rightarrow> v6_to_string v6)"

section \<open>The parser\<close>

text \<open>A reader consumes a prefix of its input or fails.\<close>

type_synonym 'a reader = "string \<Rightarrow> ('a \<times> string) option"

definition read_given_char :: "char \<Rightarrow> unit reader" where
  "read_given_char c s = (case s of [] \<Rightarrow> None | x # xs \<Rightarrow> if x = c then Some ((), xs) else None)"

definition to_digit :: "nat \<Rightarrow> char \<Rightarrow> nat option" where
  "to_digit radix c =
     (let n = (if 48 \<le> byte c \<and> byte c \<le> 57 then Some (byte c - 48)
               else if 97 \<le> byte c \<and> byte c \<le> 122 then Some (byte c - 87)
               else if 65 \<le> byte c \<and> byte c \<le> 90 then Some (byte c - 55)
               else None)
      in case n of None \<Rightarrow> None | Some d \<Rightarrow> if d < radix then Some d else None)"

text \<open>The digits at the front; the count is checked after each one.\<close>

fun read_digits :: "nat \<Rightarrow> nat \<Rightarrow> nat \<Rightarrow> nat \<Rightarrow> string \<Rightarrow> (nat \<times> nat \<times> string) option" where
  "read_digits radix max_digits count acc [] = Some (count, acc, [])"
| "read_digits radix max_digits count acc (x # xs) =
     (case to_digit radix x of
        None \<Rightarrow> Some (count, acc, x # xs)
      | Some d \<Rightarrow>
          if Suc count > max_digits then None
          else read_digits radix max_digits (Suc count) (acc * radix + d) xs)"

definition read_number :: "nat \<Rightarrow> nat \<Rightarrow> bool \<Rightarrow> nat \<Rightarrow> nat reader" where
  "read_number radix max_digits allow_zero_prefix bound s =
     (case read_digits radix max_digits 0 0 s of
        None \<Rightarrow> None
      | Some (count, n, rest) \<Rightarrow>
          if count = 0 then None
          else if \<not> allow_zero_prefix \<and> s \<noteq> [] \<and> hd s = CHR ''0'' \<and> count > 1 then None
          else if n \<ge> bound then None
          else Some (n, rest))"

definition read_separator :: "char \<Rightarrow> nat \<Rightarrow> 'a reader \<Rightarrow> 'a reader" where
  "read_separator sep index inner s =
     (if index > 0
      then (case read_given_char sep s of None \<Rightarrow> None | Some (_, rest) \<Rightarrow> inner rest)
      else inner s)"

definition read_octet :: "nat \<Rightarrow> nat reader" where
  "read_octet index = read_separator CHR ''.'' index (read_number 10 3 False 256)"

definition read_ipv4_addr :: "Ipv4Addr reader" where
  "read_ipv4_addr s =
     Option.bind (read_octet 0 s) (\<lambda>(a, s).
     Option.bind (read_octet 1 s) (\<lambda>(b, s).
     Option.bind (read_octet 2 s) (\<lambda>(c, s).
     Option.bind (read_octet 3 s) (\<lambda>(d, s).
       Some (Ipv4 (of_nat a) (of_nat b) (of_nat c) (of_nat d), s)))))"

text \<open>
  The groups read from index \<open>i\<close> on into \<open>limit\<close> slots, whether a trailing IPv4 address was read,
  and the rest of the input.
\<close>

function read_groups :: "nat \<Rightarrow> nat \<Rightarrow> string \<Rightarrow> 16 word list \<times> bool \<times> string" where
  "read_groups limit i s =
     (if i \<ge> limit then ([], False, s)
      else
        (case (if i < limit - 1 then read_separator CHR '':'' i read_ipv4_addr s else None) of
           Some (Ipv4 a b c d, rest) \<Rightarrow> ([from_be_bytes a b, from_be_bytes c d], True, rest)
         | None \<Rightarrow>
             (case read_separator CHR '':'' i (read_number 16 4 True 65536) s of
                None \<Rightarrow> ([], False, s)
              | Some (g, rest) \<Rightarrow>
                  (case read_groups limit (Suc i) rest of
                     (gs, v4, rest') \<Rightarrow> (of_nat g # gs, v4, rest')))))"
  by pat_completeness auto
termination
  by (relation "measure (\<lambda>(limit, i, s). limit - i)") auto

declare read_groups.simps [simp del]

definition v6_of_segments :: "16 word list \<Rightarrow> Ipv6Addr" where
  "v6_of_segments g = Ipv6 (g ! 0) (g ! 1) (g ! 2) (g ! 3) (g ! 4) (g ! 5) (g ! 6) (g ! 7)"

definition read_ipv6_addr :: "Ipv6Addr reader" where
  "read_ipv6_addr s =
     (case read_groups 8 0 s of
        (head, head_ipv4, s) \<Rightarrow>
          if length head = 8 then Some (v6_of_segments head, s)
          else if head_ipv4 then None
          else
            Option.bind (read_given_char CHR '':'' s) (\<lambda>(_, s).
            Option.bind (read_given_char CHR '':'' s) (\<lambda>(_, s).
              (let limit = 8 - (length head + 1)
               in case read_groups limit 0 s of
                    (tail, _, s) \<Rightarrow>
                      Some (v6_of_segments
                              (head @ replicate (8 - length head - length tail) 0 @ tail), s)))))"

definition parse_ip :: "string \<Rightarrow> IpAddr option" where
  "parse_ip s =
     (case (case read_ipv4_addr s of
              Some (a, rest) \<Rightarrow> Some (V4 a, rest)
            | None \<Rightarrow> map_option (\<lambda>(a, rest). (V6 a, rest)) (read_ipv6_addr s)) of
        Some (ip, []) \<Rightarrow> Some ip
      | _ \<Rightarrow> None)"

end
