(* ===== verification/Http_Safe.thy ===== *)
theory Http_Safe
  imports Ip_Addr
begin

text \<open>
  The outbound HTTP client of \<open>crates/http\<close>: the test for public addresses, the resolution and
  pinning of a host, the redirect loop and the capped body.

  URLs, DNS and the HTTP library are the fields of \<open>net\<close>.  DNS and the server may answer differently
  at every hop, so both take the hop number.  A body is the sequence of answers of \<open>chunk()\<close>, which
  may never end; a loop that never ends is the value \<^const>\<open>None\<close>.  Next to its result each fetch
  gives the requests it sent, in order.
\<close>

section \<open>Types\<close>

datatype SafeFetchError =
    InvalidUrl string
  | UnsupportedScheme string
  | MissingHost
  | DnsLookup string
  | DnsEmpty
  | BlockedAddress IpAddr
  | TooManyRedirects "8 word"
  | BadRedirect
  | BodyTooLarge "64 word"
  | Timeout
  | HttpError string

fun safe_fetch_error_display :: "SafeFetchError \<Rightarrow> string" where
  "safe_fetch_error_display (InvalidUrl e) = ''invalid url: '' @ e"
| "safe_fetch_error_display (UnsupportedScheme s) = ''scheme `'' @ s @ ''` not allowed (only http/https)''"
| "safe_fetch_error_display MissingHost = ''url has no host''"
| "safe_fetch_error_display (DnsLookup e) = ''dns lookup failed: '' @ e"
| "safe_fetch_error_display DnsEmpty = ''dns returned no addresses''"
| "safe_fetch_error_display (BlockedAddress ip) = ''address '' @ ip_to_string ip @ '' is not a public unicast ip''"
| "safe_fetch_error_display (TooManyRedirects n) = ''redirect limit ('' @ show_nat (unat n) @ '') exceeded''"
| "safe_fetch_error_display BadRedirect = ''redirect missing Location header''"
| "safe_fetch_error_display (BodyTooLarge n) = ''response body exceeded '' @ show_nat (unat n) @ '' bytes''"
| "safe_fetch_error_display Timeout = ''request deadline exceeded''"
| "safe_fetch_error_display (HttpError e) = ''http error: '' @ e"

text \<open>A \<open>Duration\<close> in nanoseconds.\<close>

record SafeFetchOpts =
  fo_timeout :: nat
  fo_max_body_bytes :: "64 word"
  fo_max_redirects :: "8 word"

definition fetch_opts_default :: SafeFetchOpts where
  "fetch_opts_default =
     \<lparr>fo_timeout = 15 * 1000000000, fo_max_body_bytes = 5 * 1024 * 1024, fo_max_redirects = 5\<rparr>"

record SafeResponse =
  sr_status :: "16 word"
  sr_body :: string
  sr_final_url :: string

record SocketAddr =
  sa_ip :: IpAddr
  sa_port :: "16 word"

text \<open>The HTTP client as the builder configures it, and a request given to it.\<close>

record PinnedClient =
  pc_no_proxy :: bool
  pc_redirect_none :: bool
  pc_resolve :: "string \<times> SocketAddr"

record 'u Request =
  rq_method :: string
  rq_url :: 'u
  rq_headers :: "(string \<times> string) list"
  rq_body :: string

record 'v HttpResponse =
  hr_status :: "16 word"
  hr_location :: "'v option"
  hr_url :: string
  hr_chunk :: "nat \<Rightarrow> (string, string option) result"

record ('u, 'v) net =
  url_parse :: "string \<Rightarrow> (string, 'u) result"
  url_scheme :: "'u \<Rightarrow> string"
  url_host_str :: "'u \<Rightarrow> string option"
  url_port_or_known_default :: "'u \<Rightarrow> 16 word option"
  url_join :: "'u \<Rightarrow> string \<Rightarrow> (string, 'u) result"
  url_to_string :: "'u \<Rightarrow> string"
  header_to_str :: "'v \<Rightarrow> string option"
  form_urlencode :: "(string \<times> string) list \<Rightarrow> string"
  lookup_host :: "8 word \<Rightarrow> string \<Rightarrow> (string, SocketAddr list) result"
  client_build :: "PinnedClient \<Rightarrow> string option"
  http_send :: "8 word \<Rightarrow> PinnedClient \<Rightarrow> 'u Request \<Rightarrow> (string, 'v HttpResponse) result"

section \<open>Public addresses\<close>

fun is_public_unicast_v4 :: "Ipv4Addr \<Rightarrow> bool" where
  "is_public_unicast_v4 (Ipv4 a b c d) =
     (let ip = Ipv4 a b c d in
      if v4_is_unspecified ip \<or> v4_is_loopback ip \<or> v4_is_private ip \<or> v4_is_link_local ip
         \<or> v4_is_multicast ip \<or> v4_is_broadcast ip \<or> v4_is_documentation ip then False
      else if a = 0 then False
      else if a = 100 \<and> 64 \<le> b \<and> b \<le> 127 then False
      else if a = 192 \<and> b = 0 \<and> c = 0 then False
      else if a = 192 \<and> b = 0 \<and> c = 2 then False
      else if a = 192 \<and> b = 88 \<and> c = 99 then False
      else if a = 198 \<and> (b = 18 \<or> b = 19) then False
      else if a \<ge> 240 then False
      else True)"

fun embedded_v4 :: "Ipv6Addr \<Rightarrow> Ipv4Addr option" where
  "embedded_v4 (Ipv6 s0 s1 s2 s3 s4 s5 s6 s7) =
     (case v6_to_ipv4 (Ipv6 s0 s1 s2 s3 s4 s5 s6 s7) of
        Some v4 \<Rightarrow> Some v4
      | None \<Rightarrow>
          if s0 = 0x64 \<and> s1 = 0xff9b \<and> list_all (\<lambda>s. s = 0) [s2, s3, s4, s5]
          then Some (Ipv4 (hi_byte s6) (lo_byte s6) (hi_byte s7) (lo_byte s7))
          else if s0 = 0x2002
          then Some (Ipv4 (hi_byte s1) (lo_byte s1) (hi_byte s2) (lo_byte s2))
          else None)"

fun is_public_unicast_v6 :: "Ipv6Addr \<Rightarrow> bool" where
  "is_public_unicast_v6 (Ipv6 s0 s1 s2 s3 s4 s5 s6 s7) =
     (let ip = Ipv6 s0 s1 s2 s3 s4 s5 s6 s7 in
      if v6_is_unspecified ip \<or> v6_is_loopback ip \<or> v6_is_multicast ip then False
      else if s0 AND 0xfe00 = 0xfc00 \<or> s0 AND 0xffc0 = 0xfe80 \<or> s0 AND 0xffc0 = 0xfec0 then False
      else if s0 = 0x2001 \<and> (s1 AND 0xfe00 = 0 \<or> s1 = 0xdb8) then False
      else if s0 = 0x3fff \<and> s1 AND 0xf000 = 0 then False
      else if s0 = 0x0100 \<and> s1 = 0 \<and> s2 = 0 \<and> s3 = 0 then False
      else if s0 = 0x64 \<and> s1 = 0xff9b \<and> s2 = 1 then False
      else (case embedded_v4 ip of Some v4 \<Rightarrow> is_public_unicast_v4 v4 | None \<Rightarrow> True))"

definition is_public_unicast :: "IpAddr \<Rightarrow> bool" where
  "is_public_unicast ip =
     (case ip of V4 v4 \<Rightarrow> is_public_unicast_v4 v4 | V6 v6 \<Rightarrow> is_public_unicast_v6 v6)"

section \<open>Resolving and pinning\<close>

text \<open>The loop over the resolved addresses: the first that is not public is reported.\<close>

fun check_addrs :: "SocketAddr list \<Rightarrow> (SafeFetchError, unit) result" where
  "check_addrs [] = Inr ()"
| "check_addrs (a # as) =
     (if \<not> is_public_unicast (sa_ip a) then Inl (BlockedAddress (sa_ip a)) else check_addrs as)"

definition resolve_and_validate ::
  "('u, 'v) net \<Rightarrow> 8 word \<Rightarrow> string \<Rightarrow> 16 word \<Rightarrow> (SafeFetchError, SocketAddr) result" where
  "resolve_and_validate net hop host port =
     (case parse_ip host of
        Some ip \<Rightarrow>
          if \<not> is_public_unicast ip then Inl (BlockedAddress ip)
          else Inr \<lparr>sa_ip = ip, sa_port = port\<rparr>
      | None \<Rightarrow>
          try_bind (map_err DnsLookup (lookup_host net hop (host @ '':'' @ show_nat (unat port)))) (\<lambda>addrs.
          if addrs = [] then Inl DnsEmpty
          else try_bind (check_addrs addrs) (\<lambda>_. Inr (hd addrs))))"

text \<open>
  The steps both fetches begin with: the URL, its scheme, host and port, the validated address and
  the client pinned to it.
\<close>

definition open_target ::
  "('u, 'v) net \<Rightarrow> 8 word \<Rightarrow> string \<Rightarrow> (SafeFetchError, 'u \<times> PinnedClient) result" where
  "open_target net hop url =
     try_bind (map_err InvalidUrl (url_parse net url)) (\<lambda>parsed.
     try_bind (if url_scheme net parsed \<in> {''http'', ''https''} then Inr ()
               else Inl (UnsupportedScheme (url_scheme net parsed))) (\<lambda>_.
     try_bind (ok_or MissingHost (url_host_str net parsed)) (\<lambda>host.
     try_bind (ok_or MissingHost (url_port_or_known_default net parsed)) (\<lambda>port.
     try_bind (resolve_and_validate net hop host port) (\<lambda>pinned.
     let client = \<lparr>pc_no_proxy = True, pc_redirect_none = True, pc_resolve = (host, pinned)\<rparr>
     in case client_build net client of
          Some e \<Rightarrow> Inl (HttpError e)
        | None \<Rightarrow> Inr (parsed, client))))))"

section \<open>The capped body\<close>

partial_function (option) read_chunks ::
  "(nat \<Rightarrow> (string, string option) result) \<Rightarrow> 64 word \<Rightarrow> nat \<Rightarrow> string
     \<Rightarrow> (SafeFetchError, string) result option" where
  "read_chunks chunk max_body_bytes i body =
     (case chunk i of
        Inl e \<Rightarrow> Some (Inl (HttpError e))
      | Inr None \<Rightarrow> Some (Inr body)
      | Inr (Some c) \<Rightarrow>
          if length body + length c > unat max_body_bytes
          then Some (Inl (BodyTooLarge max_body_bytes))
          else read_chunks chunk max_body_bytes (Suc i) (body @ c))"

definition read_capped ::
  "'v HttpResponse \<Rightarrow> 64 word \<Rightarrow> (SafeFetchError, SafeResponse) result option" where
  "read_capped resp max_body_bytes =
     map_option (\<lambda>r. try_bind r (\<lambda>body.
         Inr \<lparr>sr_status = hr_status resp, sr_body = body, sr_final_url = hr_url resp\<rparr>))
       (read_chunks (hr_chunk resp) max_body_bytes 0 [])"

section \<open>Fetching\<close>

type_synonym 'u sent = "(PinnedClient \<times> 'u Request) list"

text \<open>\<open>StatusCode::is_redirection\<close>.\<close>

definition is_redirection :: "16 word \<Rightarrow> bool" where
  "is_redirection status \<longleftrightarrow> 300 \<le> status \<and> status < 400"

definition get_request :: "'u \<Rightarrow> 'u Request" where
  "get_request url = \<lparr>rq_method = ''GET'', rq_url = url, rq_headers = [], rq_body = []\<rparr>"

text \<open>The next URL of a redirect.\<close>

definition redirect_target ::
  "('u, 'v) net \<Rightarrow> 'u \<Rightarrow> 'v HttpResponse \<Rightarrow> (SafeFetchError, string) result" where
  "redirect_target net parsed resp =
     try_bind (ok_or BadRedirect (Option.bind (hr_location resp) (header_to_str net))) (\<lambda>loc.
     try_bind (map_err InvalidUrl (url_join net parsed loc)) (\<lambda>next.
     Inr (url_to_string net next)))"

function safe_get_loop ::
  "('u, 'v) net \<Rightarrow> SafeFetchOpts \<Rightarrow> string \<Rightarrow> 8 word
     \<Rightarrow> (SafeFetchError, SafeResponse) result option \<times> 'u sent" where
  "safe_get_loop net opts current hops =
     (case open_target net hops current of
        Inl e \<Rightarrow> (Some (Inl e), [])
      | Inr (parsed, client) \<Rightarrow>
          (let req = get_request parsed in
           case http_send net hops client req of
             Inl e \<Rightarrow> (Some (Inl (HttpError e)), [(client, req)])
           | Inr resp \<Rightarrow>
               if is_redirection (hr_status resp)
               then if hops \<ge> fo_max_redirects opts
                    then (Some (Inl (TooManyRedirects (fo_max_redirects opts))), [(client, req)])
                    else (case redirect_target net parsed resp of
                            Inl e \<Rightarrow> (Some (Inl e), [(client, req)])
                          | Inr next \<Rightarrow>
                              (case safe_get_loop net opts next (hops + 1) of
                                 (r, sent) \<Rightarrow> (r, (client, req) # sent)))
               else (read_capped resp (fo_max_body_bytes opts), [(client, req)])))"
  by pat_completeness auto
termination
proof (relation "measure (\<lambda>(net, opts, current, hops). unat (fo_max_redirects opts) - unat hops)",
    goal_cases)
  case (2 net opts current hops)
  then have "unat hops < unat (fo_max_redirects opts)"
    by (simp add: word_less_nat_alt not_le)
  moreover from this have "unat (hops + 1) = Suc (unat hops)"
    by (simp add: unat_inc_below word_less_nat_alt)
  ultimately show ?case
    by simp
qed simp

declare safe_get_loop.simps [simp del]

definition safe_get_inner ::
  "('u, 'v) net \<Rightarrow> string \<Rightarrow> SafeFetchOpts
     \<Rightarrow> (SafeFetchError, SafeResponse) result option \<times> 'u sent" where
  "safe_get_inner net url opts = safe_get_loop net opts url 0"

definition safe_post_form_inner ::
  "('u, 'v) net \<Rightarrow> string \<Rightarrow> (string \<times> string) list \<Rightarrow> SafeFetchOpts
     \<Rightarrow> (SafeFetchError, SafeResponse) result option \<times> 'u sent" where
  "safe_post_form_inner net url form opts =
     (case open_target net 0 url of
        Inl e \<Rightarrow> (Some (Inl e), [])
      | Inr (parsed, client) \<Rightarrow>
          (let req = \<lparr>rq_method = ''POST'', rq_url = parsed,
                      rq_headers = [(''content-type'', ''application/x-www-form-urlencoded'')],
                      rq_body = form_urlencode net form\<rparr> in
           case http_send net 0 client req of
             Inl e \<Rightarrow> (Some (Inl (HttpError e)), [(client, req)])
           | Inr resp \<Rightarrow> (read_capped resp (fo_max_body_bytes opts), [(client, req)])))"

text \<open>
  \<open>tokio::time::timeout\<close>: \<open>time_left\<close> says whether a fetch of at most \<open>timeout\<close> ends in time; one
  that never ends does not.
\<close>

definition with_timeout ::
  "(nat \<Rightarrow> bool) \<Rightarrow> nat \<Rightarrow> (SafeFetchError, 'a) result option \<Rightarrow> (SafeFetchError, 'a) result" where
  "with_timeout time_left timeout fut =
     (case fut of Some r \<Rightarrow> if time_left timeout then r else Inl Timeout | None \<Rightarrow> Inl Timeout)"

definition safe_get ::
  "('u, 'v) net \<Rightarrow> (nat \<Rightarrow> bool) \<Rightarrow> string \<Rightarrow> SafeFetchOpts \<Rightarrow> (SafeFetchError, SafeResponse) result" where
  "safe_get net time_left url opts =
     with_timeout time_left (fo_timeout opts) (fst (safe_get_inner net url opts))"

definition safe_post_form ::
  "('u, 'v) net \<Rightarrow> (nat \<Rightarrow> bool) \<Rightarrow> string \<Rightarrow> (string \<times> string) list \<Rightarrow> SafeFetchOpts
     \<Rightarrow> (SafeFetchError, SafeResponse) result" where
  "safe_post_form net time_left url form opts =
     with_timeout time_left (fo_timeout opts) (fst (safe_post_form_inner net url form opts))"

section \<open>The address test against the special-purpose registry\<close>

text \<open>Addresses as numbers, and membership in a prefix.\<close>

definition in_prefix :: "nat \<Rightarrow> nat \<Rightarrow> nat \<Rightarrow> nat \<Rightarrow> bool" where
  "in_prefix width n net len \<longleftrightarrow> n div 2 ^ (width - len) = net div 2 ^ (width - len)"

fun v4_number :: "Ipv4Addr \<Rightarrow> nat" where
  "v4_number (Ipv4 a b c d) = ((unat a * 256 + unat b) * 256 + unat c) * 256 + unat d"

definition special_v4 :: "(Ipv4Addr \<times> nat) list" where
  "special_v4 =
     [(Ipv4 0 0 0 0, 8), (Ipv4 10 0 0 0, 8), (Ipv4 100 64 0 0, 10), (Ipv4 127 0 0 0, 8),
      (Ipv4 169 254 0 0, 16), (Ipv4 172 16 0 0, 12), (Ipv4 192 0 0 0, 24), (Ipv4 192 0 2 0, 24),
      (Ipv4 192 88 99 0, 24), (Ipv4 192 168 0 0, 16), (Ipv4 198 18 0 0, 15),
      (Ipv4 198 51 100 0, 24), (Ipv4 203 0 113 0, 24), (Ipv4 224 0 0 0, 4), (Ipv4 240 0 0 0, 4)]"

definition v4_special :: "Ipv4Addr \<Rightarrow> bool" where
  "v4_special ip \<longleftrightarrow>
     list_ex (\<lambda>(net, len). in_prefix 32 (v4_number ip) (v4_number net) len) special_v4"

lemma unat_octet: "unat (a :: 8 word) < 256"
  using unsigned_less [of a, where ?'a = nat] by simp

lemma v4_number_div:
  "v4_number (Ipv4 a b c d) div (256 * q) = ((unat a * 256 + unat b) * 256 + unat c) div q"
  "v4_number (Ipv4 a b c d) div (256 * (256 * q)) = (unat a * 256 + unat b) div q"
  "v4_number (Ipv4 a b c d) div (256 * (256 * (256 * q))) = unat a div q"
  by (simp_all only: v4_number.simps div_shift_digit [OF unat_octet])

lemma octet_powers:
  "(2::nat) ^ 8 = 256 * 1" "(2::nat) ^ 16 = 256 * (256 * 1)" "(2::nat) ^ 17 = 256 * (256 * 2)"
  "(2::nat) ^ 20 = 256 * (256 * 16)" "(2::nat) ^ 22 = 256 * (256 * 64)"
  "(2::nat) ^ 24 = 256 * (256 * (256 * 1))" "(2::nat) ^ 28 = 256 * (256 * (256 * 16))"
  by simp_all

lemma v4_number_prefix:
  "v4_number (Ipv4 a b c d) div 2 ^ 8 = (unat a * 256 + unat b) * 256 + unat c"
  "v4_number (Ipv4 a b c d) div 2 ^ 16 = unat a * 256 + unat b"
  "v4_number (Ipv4 a b c d) div 2 ^ 17 = (unat a * 256 + unat b) div 2"
  "v4_number (Ipv4 a b c d) div 2 ^ 20 = (unat a * 256 + unat b) div 16"
  "v4_number (Ipv4 a b c d) div 2 ^ 22 = (unat a * 256 + unat b) div 64"
  "v4_number (Ipv4 a b c d) div 2 ^ 24 = unat a"
  "v4_number (Ipv4 a b c d) div 2 ^ 28 = unat a div 16"
  by (simp_all only: octet_powers v4_number_div div_shift_digit [OF unat_octet] div_by_1)

lemma octet_block:
  assumes "b < 256" and "hi \<le> 256"
  shows "u * 256 + lo \<le> a * 256 + b \<and> a * 256 + b < u * 256 + hi \<longleftrightarrow> a = u \<and> lo \<le> b \<and> b < (hi::nat)"
proof
  assume h: "u * 256 + lo \<le> a * 256 + b \<and> a * 256 + b < u * 256 + hi"
  with assms have "a < u + 1" and "u < a + 1"
    by linarith+
  with h show "a = u \<and> lo \<le> b \<and> b < hi"
    by simp
qed simp

lemma octet_ranges:
  assumes "b < 256"
  shows "(a * 256 + b) div 2 = 25353 \<longleftrightarrow> a = 198 \<and> 18 \<le> b \<and> b < (20::nat)"
    and "(a * 256 + b) div 16 = 2753 \<longleftrightarrow> a = 172 \<and> 16 \<le> b \<and> b < 32"
    and "(a * 256 + b) div 64 = 401 \<longleftrightarrow> a = 100 \<and> 64 \<le> b \<and> b < 128"
    and "b div 16 = 14 \<longleftrightarrow> 224 \<le> b \<and> b \<le> 239" and "b div 16 = 15 \<longleftrightarrow> 240 \<le> b"
  using assms octet_block [OF assms, of 20 198 18 a] octet_block [OF assms, of 32 172 16 a]
    octet_block [OF assms, of 128 100 64 a]
  by (simp_all add: div_eq_iff_range) linarith

lemma octet_digits: "b < 256 \<Longrightarrow> v < 256 \<Longrightarrow> a * 256 + b = u * 256 + v \<longleftrightarrow> a = u \<and> b = (v::nat)"
  using octet_block [of b "v + 1" u v a] by auto

lemmas octets_as_nats = word_unat_eq_iff word_le_nat_alt word_less_nat_alt

lemma prefix_lengths:
  "in_prefix 32 n m 4 \<longleftrightarrow> n div 2 ^ 28 = m div 2 ^ 28"
  "in_prefix 32 n m 8 \<longleftrightarrow> n div 2 ^ 24 = m div 2 ^ 24"
  "in_prefix 32 n m 10 \<longleftrightarrow> n div 2 ^ 22 = m div 2 ^ 22"
  "in_prefix 32 n m 12 \<longleftrightarrow> n div 2 ^ 20 = m div 2 ^ 20"
  "in_prefix 32 n m 15 \<longleftrightarrow> n div 2 ^ 17 = m div 2 ^ 17"
  "in_prefix 32 n m 16 \<longleftrightarrow> n div 2 ^ 16 = m div 2 ^ 16"
  "in_prefix 32 n m 24 \<longleftrightarrow> n div 2 ^ 8 = m div 2 ^ 8"
  by (simp_all add: in_prefix_def)

lemma v4_in_whole_octets:
  "in_prefix 32 (v4_number (Ipv4 a b c d)) (v4_number (Ipv4 x y z w)) 8 \<longleftrightarrow> a = x"
  "in_prefix 32 (v4_number (Ipv4 a b c d)) (v4_number (Ipv4 x y z w)) 16 \<longleftrightarrow> a = x \<and> b = y"
  "in_prefix 32 (v4_number (Ipv4 a b c d)) (v4_number (Ipv4 x y z w)) 24 \<longleftrightarrow>
     a = x \<and> b = y \<and> c = z"
  by (simp_all only: prefix_lengths v4_number_prefix octet_digits unat_octet word_unat_eq_iff
      conj_assoc)

lemma v4_in_part_octets:
  "in_prefix 32 (v4_number (Ipv4 a b c d)) (v4_number (Ipv4 198 18 0 0)) 15 \<longleftrightarrow>
     a = 198 \<and> (b = 18 \<or> b = 19)"
  "in_prefix 32 (v4_number (Ipv4 a b c d)) (v4_number (Ipv4 172 16 0 0)) 12 \<longleftrightarrow>
     a = 172 \<and> 16 \<le> b \<and> b \<le> 31"
  "in_prefix 32 (v4_number (Ipv4 a b c d)) (v4_number (Ipv4 100 64 0 0)) 10 \<longleftrightarrow>
     a = 100 \<and> 64 \<le> b \<and> b \<le> 127"
  "in_prefix 32 (v4_number (Ipv4 a b c d)) (v4_number (Ipv4 224 0 0 0)) 4 \<longleftrightarrow> 224 \<le> a \<and> a \<le> 239"
  "in_prefix 32 (v4_number (Ipv4 a b c d)) (v4_number (Ipv4 240 0 0 0)) 4 \<longleftrightarrow> 240 \<le> a"
  unfolding prefix_lengths v4_number_prefix octets_as_nats
  by (auto simp: octet_ranges unat_octet)

lemma public_v4_registry: "is_public_unicast_v4 ip \<longleftrightarrow> \<not> v4_special ip"
proof (cases ip)
  case (Ipv4 a b c d)
  show ?thesis
    unfolding Ipv4 v4_special_def special_v4_def
    by (auto simp: v4_in_whole_octets v4_in_part_octets simp del: v4_number.simps)
qed

section \<open>Where a fetch may connect\<close>

lemma check_addrs_Inr_iff: "check_addrs as = Inr u \<longleftrightarrow> list_all (\<lambda>a. is_public_unicast (sa_ip a)) as"
  by (induction as) auto

lemma resolve_and_validate_public:
  assumes "resolve_and_validate net hop host port = Inr a"
  shows "is_public_unicast (sa_ip a)"
proof (cases "parse_ip host")
  case None
  with assms show ?thesis
    by (auto simp: resolve_and_validate_def result_simps check_addrs_Inr_iff list_all_iff
        split: if_splits)
next
  case (Some ip)
  with assms show ?thesis
    by (auto simp: resolve_and_validate_def split: if_splits)
qed

text \<open>
  A request may be sent when its scheme is allowed, no proxy and no automatic redirect is in the
  way, and the client answers the name of the URL's own host with a public address.
\<close>

definition sent_ok :: "('u, 'v) net \<Rightarrow> PinnedClient \<times> 'u Request \<Rightarrow> bool" where
  "sent_ok net s \<longleftrightarrow>
     (let client = fst s; url = rq_url (snd s) in
      url_scheme net url \<in> {''http'', ''https''} \<and> pc_no_proxy client \<and> pc_redirect_none client \<and>
      url_host_str net url = Some (fst (pc_resolve client)) \<and>
      is_public_unicast (sa_ip (snd (pc_resolve client))))"

lemma open_target_ok:
  "open_target net hop url = Inr (parsed, client) \<Longrightarrow> rq_url req = parsed \<Longrightarrow> sent_ok net (client, req)"
  by (auto simp: open_target_def result_simps Let_def sent_ok_def
      dest: resolve_and_validate_public split: if_splits option.splits)

text \<open>One turn of the redirect loop.\<close>

lemma safe_get_loop_cases:
  obtains (failed) e sent where "safe_get_loop net opts current hops = (Some (Inl e), sent)"
      "sent = [] \<or> (\<exists>parsed client. open_target net hops current = Inr (parsed, client) \<and>
         sent = [(client, get_request parsed)])"
  | (answered) parsed client resp where "open_target net hops current = Inr (parsed, client)"
      "http_send net hops client (get_request parsed) = Inr resp"
      "safe_get_loop net opts current hops
         = (read_capped resp (fo_max_body_bytes opts), [(client, get_request parsed)])"
  | (redirected) parsed client goto where "open_target net hops current = Inr (parsed, client)"
      "hops < fo_max_redirects opts"
      "safe_get_loop net opts current hops
         = apsnd ((#) (client, get_request parsed)) (safe_get_loop net opts goto (hops + 1))"
proof (cases "open_target net hops current")
  case (Inl e)
  then show thesis
    by (intro failed [of e "[]"]) (simp_all add: safe_get_loop.simps)
next
  case (Inr p)
  obtain parsed client where p: "p = (parsed, client)"
    by (cases p)
  note unfold = safe_get_loop.simps [of net opts current hops] Inr p Let_def
  show thesis
  proof (cases "http_send net hops client (get_request parsed)")
    case (Inl e)
    then show thesis
      using Inr p by (intro failed [of "HttpError e" "[(client, get_request parsed)]"]) (simp_all add: unfold)
  next
    case send: (Inr resp)
    consider "\<not> is_redirection (hr_status resp)"
      | e where "is_redirection (hr_status resp)" "\<not> hops < fo_max_redirects opts \<or> redirect_target net parsed resp = Inl e"
      | goto where "is_redirection (hr_status resp)" "hops < fo_max_redirects opts" "redirect_target net parsed resp = Inr goto"
      by (cases "redirect_target net parsed resp") auto
    then show thesis
    proof cases
      case 1
      then show thesis
        using Inr p send by (intro answered) (simp_all add: unfold)
    next
      case 2
      then show thesis
        using Inr p send failed [of _ "[(client, get_request parsed)]"]
        by (cases "fo_max_redirects opts \<le> hops") (auto simp: unfold not_less)
    next
      case 3
      then have "\<not> fo_max_redirects opts \<le> hops"
        by simp
      with 3 show thesis
        using Inr p send by (intro redirected [of parsed client goto]) (simp_all add: unfold apsnd_def map_prod_def split: prod.split)
    qed
  qed
qed

lemma hops_step:
  assumes "hops < fo_max_redirects opts"
  shows "unat (hops + 1) = Suc (unat hops)" and "hops + 1 \<le> fo_max_redirects opts"
    and "unat (fo_max_redirects opts) - unat (hops + 1) < unat (fo_max_redirects opts) - unat hops"
  using assms unat_inc_below [OF assms] by (auto simp: word_less_nat_alt word_le_nat_alt)

lemma safe_get_loop_sent:
  "hops \<le> fo_max_redirects opts \<Longrightarrow>
   list_all (sent_ok net) (snd (safe_get_loop net opts current hops)) \<and>
   length (snd (safe_get_loop net opts current hops))
     \<le> Suc (unat (fo_max_redirects opts) - unat hops)"
proof (induction "unat (fo_max_redirects opts) - unat hops" arbitrary: current hops rule: less_induct)
  case less
  have ok: "sent_ok net (client, get_request parsed)"
    if "open_target net hops current = Inr (parsed, client)" for parsed client
    using that by (rule open_target_ok) (simp add: get_request_def)
  show ?case
  proof (cases rule: safe_get_loop_cases [of net opts current hops])
    case (redirected parsed client goto)
    note step = hops_step [OF redirected(2)]
    from less.hyps [OF step(3) step(2), of goto] redirected step show ?thesis
      by (auto simp: ok word_less_nat_alt)
  qed (use ok in auto)
qed

text \<open>
  C7: a fetch cannot be steered to an internal address.  Whatever the URL, whatever DNS answers at
  each hop and wherever the servers redirect, every request that leaves goes over a client whose
  name resolution is pinned, for the host of that very URL, to a public address, with proxies and
  automatic redirects off; and at most \<open>max_redirects + 1\<close> requests leave.
\<close>

theorem fetch_contacts_only_public:
  "list_all (sent_ok net) (snd (safe_get_inner net url opts)) \<and>
   length (snd (safe_get_inner net url opts)) \<le> unat (fo_max_redirects opts) + 1 \<and>
   list_all (sent_ok net) (snd (safe_post_form_inner net url form opts)) \<and>
   length (snd (safe_post_form_inner net url form opts)) \<le> 1"
proof -
  have "list_all (sent_ok net) (snd (safe_post_form_inner net url form opts)) \<and>
     length (snd (safe_post_form_inner net url form opts)) \<le> 1"
    by (auto simp: safe_post_form_inner_def Let_def intro: open_target_ok
        split: sum.splits prod.splits)
  then show ?thesis
    using safe_get_loop_sent [of 0 opts net url] by (simp add: safe_get_inner_def)
qed

section \<open>Fetches end and bodies are capped\<close>

lemma read_chunks_returns:
  assumes "\<And>j. chunk j \<noteq> Inr (Some [])" and "length body \<le> unat lim"
  shows "\<exists>r. read_chunks chunk lim i body = Some r \<and> (\<forall>b. r = Inr b \<longrightarrow> length b \<le> unat lim)"
  using assms(2)
proof (induction "Suc (unat lim) - length body" arbitrary: i body rule: less_induct)
  case less
  show ?case
  proof (cases "\<exists>c. chunk i = Inr (Some c) \<and> length body + length c \<le> unat lim")
    case True
    then obtain c where c: "chunk i = Inr (Some c)" "length body + length c \<le> unat lim"
      by blast
    with assms(1) [of i] have "0 < length c"
      by auto
    then have "Suc (unat lim) - length (body @ c) < Suc (unat lim) - length body"
      using c(2) unfolding length_append by linarith
    from less(1) [OF this, of "Suc i"] c show ?thesis
      by (subst read_chunks.simps) simp
  next
    case False
    with less(2) show ?thesis
      by (subst read_chunks.simps) (auto split: sum.splits option.splits)
  qed
qed

lemma read_capped_returns:
  assumes "\<And>j. hr_chunk resp j \<noteq> Inr (Some [])"
  shows "\<exists>r. read_capped resp lim = Some r \<and> (\<forall>x. r = Inr x \<longrightarrow> length (sr_body x) \<le> unat lim)"
  using read_chunks_returns [where chunk = "hr_chunk resp" and body = "[]" and i = 0 and lim = lim] assms
  by (auto simp: read_capped_def result_simps)

text \<open>The HTTP library hands out no empty chunk.\<close>

definition chunks_nonempty :: "('u, 'v) net \<Rightarrow> bool" where
  "chunks_nonempty net \<longleftrightarrow>
     (\<forall>hop client req resp j. http_send net hop client req = Inr resp \<longrightarrow> hr_chunk resp j \<noteq> Inr (Some []))"

lemma safe_get_loop_returns:
  assumes "chunks_nonempty net"
  shows "\<exists>r. fst (safe_get_loop net opts current hops) = Some r \<and>
    (\<forall>x. r = Inr x \<longrightarrow> length (sr_body x) \<le> unat (fo_max_body_bytes opts))"
  using assms
proof (induction "unat (fo_max_redirects opts) - unat hops" arbitrary: current hops rule: less_induct)
  case less
  show ?case
  proof (cases rule: safe_get_loop_cases [of net opts current hops])
    case (answered parsed client resp)
    then have "hr_chunk resp j \<noteq> Inr (Some [])" for j
      using less.prems by (auto simp: chunks_nonempty_def)
    from read_capped_returns [OF this] answered show ?thesis
      by simp
  next
    case (redirected parsed client goto)
    with less.hyps [OF hops_step(3) [OF redirected(2)] less.prems] show ?thesis
      by simp
  qed simp
qed


text \<open>A server that sends one byte after the other, for ever.\<close>

definition endless_net :: "(string, string) net" where
  "endless_net =
     \<lparr>url_parse = Inr, url_scheme = (\<lambda>_. ''http''), url_host_str = (\<lambda>_. Some ''8.8.8.8''),
      url_port_or_known_default = (\<lambda>_. Some 80), url_join = (\<lambda>_. Inr), url_to_string = (\<lambda>u. u),
      header_to_str = Some, form_urlencode = (\<lambda>_. []), lookup_host = (\<lambda>_ _. Inr []),
      client_build = (\<lambda>_. None),
      http_send = (\<lambda>_ _ _. Inr \<lparr>hr_status = 200, hr_location = None, hr_url = ''http://8.8.8.8/'',
                                 hr_chunk = (\<lambda>_. Inr (Some ''x''))\<rparr>)\<rparr>"


end
