(* ===== verification/Public_Ipv6.thy ===== *)
theory Public_Ipv6
  imports Http_Safe
begin

text \<open>
  The test for public IPv6 addresses against the registry: the special prefixes, and the four kinds
  of prefix under which an IPv6 address carries an IPv4 one.
\<close>

section \<open>Segments as a number\<close>

definition seg_number :: "16 word list \<Rightarrow> nat" where
  "seg_number = foldl (\<lambda>n s. n * 65536 + unat s) 0"

fun segments :: "Ipv6Addr \<Rightarrow> 16 word list" where
  "segments (Ipv6 a b c d e f g h) = [a, b, c, d, e, f, g, h]"

definition v6_number :: "Ipv6Addr \<Rightarrow> nat" where
  "v6_number ip = seg_number (segments ip)"

lemma unat_segment: "unat (s :: 16 word) < 65536"
  using unsigned_less [of s, where ?'a = nat] by simp

lemma seg_number_snoc: "seg_number (xs @ [x]) = seg_number xs * 65536 + unat x"
  by (simp add: seg_number_def)

lemma seg_number_div: "seg_number (xs @ ys) div (65536 ^ length ys * q) = seg_number xs div q"
proof (induction ys arbitrary: q rule: rev_induct)
  case (snoc y ys)
  have "seg_number (xs @ ys @ [y]) div (65536 * (65536 ^ length ys * q))
      = seg_number (xs @ ys) div (65536 ^ length ys * q)"
    unfolding append_assoc [symmetric] seg_number_snoc by (rule div_shift_digit) (rule unat_segment)
  with snoc show ?case
    by (simp add: mult.assoc)
qed simp

lemma seg_number_snoc_div:
  assumes "k \<le> 16"
  shows "seg_number (xs @ [x]) div 2 ^ k = seg_number xs * 2 ^ (16 - k) + unat x div 2 ^ k"
    and "unat x div 2 ^ k < 2 ^ (16 - k)"
proof -
  have p: "65536 = 2 ^ (16 - k) * (2::nat) ^ k"
    using assms by (simp flip: power_add)
  show "seg_number (xs @ [x]) div 2 ^ k = seg_number xs * 2 ^ (16 - k) + unat x div 2 ^ k"
    unfolding seg_number_snoc p mult.assoc [symmetric] by simp
  show "unat x div 2 ^ k < 2 ^ (16 - k)"
    using unat_segment [of x] unfolding p by (simp add: less_mult_imp_div_less)
qed

lemma digit_unique:
  assumes "y < m" and "v < (m::nat)"
  shows "x * m + y = u * m + v \<longleftrightarrow> x = u \<and> y = v"
proof
  assume eq: "x * m + y = u * m + v"
  have "x = (x * m + y) div m" and "u = (u * m + v) div m"
    using assms by simp_all
  with eq show "x = u \<and> y = v"
    by simp
qed simp

lemma seg_number_inj: "length xs = length ys \<Longrightarrow> seg_number xs = seg_number ys \<longleftrightarrow> xs = ys"
proof (induction xs arbitrary: ys rule: rev_induct)
  case (snoc x xs)
  then obtain us u where "ys = us @ [u]"
    by (cases ys rule: rev_cases) auto
  with snoc show ?case
    by (simp add: seg_number_snoc digit_unique unat_segment word_unat_eq_iff)
qed simp

text \<open>A prefix that ends \<open>k\<close> bits before the end of a segment.\<close>

lemma seg_prefix:
  assumes "length xs = length us" and "length ys = length vs" and "k \<le> 16"
  shows "seg_number (xs @ x # ys) div (65536 ^ length ys * 2 ^ k)
       = seg_number (us @ u # vs) div (65536 ^ length ys * 2 ^ k)
     \<longleftrightarrow> xs = us \<and> unat x div 2 ^ k = unat u div 2 ^ k"
proof -
  have "seg_number (xs @ x # ys) div (65536 ^ length ys * 2 ^ k) = seg_number (xs @ [x]) div 2 ^ k"
    using seg_number_div [of "xs @ [x]" ys] by simp
  moreover have "seg_number (us @ u # vs) div (65536 ^ length ys * 2 ^ k) = seg_number (us @ [u]) div 2 ^ k"
    using seg_number_div [of "us @ [u]" vs] assms(2) by simp
  ultimately show ?thesis
    using assms(1) by (simp add: seg_number_snoc_div [OF assms(3)] digit_unique seg_number_inj)
qed

lemma unat_drop_bit_div: "unat (drop_bit k x) = unat x div 2 ^ k" for x :: "'a::len word"
  using unat_drop_bit_eq [of k x] drop_bit_eq_div [of k "unat x"] by simp

lemma and_high_bits:
  "x AND NOT (mask k) = y AND NOT (mask k) \<longleftrightarrow> unat x div 2 ^ k = unat y div 2 ^ k"
  for x y :: "'a::len word"
proof -
  have "drop_bit k (z AND NOT (mask k)) = drop_bit k z" for z :: "'a word"
    by (rule bit_word_eqI) (auto simp: bit_simps dest: bit_imp_le_length)
  moreover have "push_bit k (drop_bit k z) = z AND NOT (mask k)" for z :: "'a word"
    by (rule bit_word_eqI) (auto simp: bit_simps)
  ultimately have "x AND NOT (mask k) = y AND NOT (mask k) \<longleftrightarrow> drop_bit k x = drop_bit k y"
    by metis
  then show ?thesis
    by (simp add: word_unat_eq_iff unat_drop_bit_div)
qed

lemma masks:
  "s AND 0xff00 = 0xff00 \<longleftrightarrow> unat s div 2 ^ 8 = 0xff"
  "s AND 0xfe00 = 0xfc00 \<longleftrightarrow> unat s div 2 ^ 9 = 0x7e"
  "s AND 0xfe00 = 0 \<longleftrightarrow> unat s div 2 ^ 9 = 0"
  "s AND 0xffc0 = 0xfe80 \<longleftrightarrow> unat s div 2 ^ 6 = 0x3fa"
  "s AND 0xffc0 = 0xfec0 \<longleftrightarrow> unat s div 2 ^ 6 = 0x3fb"
  "s AND 0xf000 = 0 \<longleftrightarrow> unat s div 2 ^ 12 = 0"
  for s :: "16 word"
proof -
  have m: "NOT (mask 8) = (0xff00 :: 16 word)" "NOT (mask 9) = (0xfe00 :: 16 word)"
    "NOT (mask 6) = (0xffc0 :: 16 word)" "NOT (mask 12) = (0xf000 :: 16 word)"
    by code_simp+
  show "s AND 0xff00 = 0xff00 \<longleftrightarrow> unat s div 2 ^ 8 = 0xff"
    "s AND 0xfe00 = 0xfc00 \<longleftrightarrow> unat s div 2 ^ 9 = 0x7e"
    "s AND 0xfe00 = 0 \<longleftrightarrow> unat s div 2 ^ 9 = 0"
    "s AND 0xffc0 = 0xfe80 \<longleftrightarrow> unat s div 2 ^ 6 = 0x3fa"
    "s AND 0xffc0 = 0xfec0 \<longleftrightarrow> unat s div 2 ^ 6 = 0x3fb"
    "s AND 0xf000 = 0 \<longleftrightarrow> unat s div 2 ^ 12 = 0"
    using and_high_bits [of s 8 "0xff00"] and_high_bits [of s 9 "0xfc00"] and_high_bits [of s 9 0]
      and_high_bits [of s 6 "0xfe80"] and_high_bits [of s 6 "0xfec0"] and_high_bits [of s 12 0]
    by (simp_all add: m)
qed

section \<open>The special prefixes\<close>

definition special_v6 :: "(Ipv6Addr \<times> nat) list" where
  "special_v6 =
     [(Ipv6 0 0 0 0 0 0 0 0, 128), (Ipv6 0 0 0 0 0 0 0 1, 128), (Ipv6 0xff00 0 0 0 0 0 0 0, 8),
      (Ipv6 0xfc00 0 0 0 0 0 0 0, 7), (Ipv6 0xfe80 0 0 0 0 0 0 0, 10),
      (Ipv6 0xfec0 0 0 0 0 0 0 0, 10), (Ipv6 0x2001 0 0 0 0 0 0 0, 23),
      (Ipv6 0x2001 0xdb8 0 0 0 0 0 0, 32), (Ipv6 0x3fff 0 0 0 0 0 0 0, 20),
      (Ipv6 0x100 0 0 0 0 0 0 0, 64), (Ipv6 0x64 0xff9b 1 0 0 0 0 0, 48)]"

definition in_v6_prefix :: "Ipv6Addr \<Rightarrow> Ipv6Addr \<Rightarrow> nat \<Rightarrow> bool" where
  "in_v6_prefix ip net len \<longleftrightarrow> in_prefix 128 (v6_number ip) (v6_number net) len"

text \<open>
  The prefixes under which an address carries an IPv4 address, and how many bits follow it:
  compatible, mapped, NAT64 and 6to4.
\<close>

definition v4_carriers :: "(Ipv6Addr \<times> nat \<times> nat) list" where
  "v4_carriers =
     [(Ipv6 0 0 0 0 0 0 0 0, 96, 0), (Ipv6 0 0 0 0 0 0xffff 0 0, 96, 0),
      (Ipv6 0x64 0xff9b 0 0 0 0 0 0, 96, 0), (Ipv6 0x2002 0 0 0 0 0 0 0, 16, 80)]"

definition v4_of_number :: "nat \<Rightarrow> Ipv4Addr" where
  "v4_of_number n = Ipv4 (of_nat (n div 2 ^ 24)) (of_nat (n div 2 ^ 16)) (of_nat (n div 2 ^ 8)) (of_nat n)"

definition carries_special_v4 :: "Ipv6Addr \<Rightarrow> Ipv6Addr \<times> nat \<times> nat \<Rightarrow> bool" where
  "carries_special_v4 ip c \<longleftrightarrow>
     (case c of (net, len, after) \<Rightarrow>
        in_v6_prefix ip net len \<and> v4_special (v4_of_number (v6_number ip div 2 ^ after)))"

lemma in_v6_prefix_whole:
  "in_v6_prefix (Ipv6 a b c d e f g h) (Ipv6 p q r s t u v w) 16 \<longleftrightarrow> a = p"
  "in_v6_prefix (Ipv6 a b c d e f g h) (Ipv6 p q r s t u v w) 32 \<longleftrightarrow> a = p \<and> b = q"
  "in_v6_prefix (Ipv6 a b c d e f g h) (Ipv6 p q r s t u v w) 48 \<longleftrightarrow> a = p \<and> b = q \<and> c = r"
  "in_v6_prefix (Ipv6 a b c d e f g h) (Ipv6 p q r s t u v w) 64 \<longleftrightarrow> a = p \<and> b = q \<and> c = r \<and> d = s"
  "in_v6_prefix (Ipv6 a b c d e f g h) (Ipv6 p q r s t u v w) 96 \<longleftrightarrow>
     a = p \<and> b = q \<and> c = r \<and> d = s \<and> e = t \<and> f = u"
  "in_v6_prefix (Ipv6 a b c d e f g h) (Ipv6 p q r s t u v w) 128 \<longleftrightarrow>
     Ipv6 a b c d e f g h = Ipv6 p q r s t u v w"
  using seg_prefix [of "[]" "[]" "[b, c, d, e, f, g, h]" "[q, r, s, t, u, v, w]" 0 a p]
    seg_prefix [of "[a]" "[p]" "[c, d, e, f, g, h]" "[r, s, t, u, v, w]" 0 b q]
    seg_prefix [of "[a, b]" "[p, q]" "[d, e, f, g, h]" "[s, t, u, v, w]" 0 c r]
    seg_prefix [of "[a, b, c]" "[p, q, r]" "[e, f, g, h]" "[t, u, v, w]" 0 d s]
    seg_prefix [of "[a, b, c, d, e]" "[p, q, r, s, t]" "[g, h]" "[v, w]" 0 f u]
    seg_prefix [of "[a, b, c, d, e, f, g]" "[p, q, r, s, t, u, v]" "[]" "[]" 0 h w]
  by (simp_all add: in_v6_prefix_def in_prefix_def v6_number_def word_unat_eq_iff)

lemma in_v6_prefix_part:
  "in_v6_prefix (Ipv6 a b c d e f g h) (Ipv6 p q r s t u v w) 7 \<longleftrightarrow> unat a div 2 ^ 9 = unat p div 2 ^ 9"
  "in_v6_prefix (Ipv6 a b c d e f g h) (Ipv6 p q r s t u v w) 8 \<longleftrightarrow> unat a div 2 ^ 8 = unat p div 2 ^ 8"
  "in_v6_prefix (Ipv6 a b c d e f g h) (Ipv6 p q r s t u v w) 10 \<longleftrightarrow> unat a div 2 ^ 6 = unat p div 2 ^ 6"
  "in_v6_prefix (Ipv6 a b c d e f g h) (Ipv6 p q r s t u v w) 20 \<longleftrightarrow>
     a = p \<and> unat b div 2 ^ 12 = unat q div 2 ^ 12"
  "in_v6_prefix (Ipv6 a b c d e f g h) (Ipv6 p q r s t u v w) 23 \<longleftrightarrow>
     a = p \<and> unat b div 2 ^ 9 = unat q div 2 ^ 9"
  using seg_prefix [of "[]" "[]" "[b, c, d, e, f, g, h]" "[q, r, s, t, u, v, w]" 9 a p]
    seg_prefix [of "[]" "[]" "[b, c, d, e, f, g, h]" "[q, r, s, t, u, v, w]" 8 a p]
    seg_prefix [of "[]" "[]" "[b, c, d, e, f, g, h]" "[q, r, s, t, u, v, w]" 6 a p]
    seg_prefix [of "[a]" "[p]" "[c, d, e, f, g, h]" "[r, s, t, u, v, w]" 12 b q]
    seg_prefix [of "[a]" "[p]" "[c, d, e, f, g, h]" "[r, s, t, u, v, w]" 9 b q]
  by (simp_all add: in_v6_prefix_def in_prefix_def v6_number_def)

section \<open>The carried IPv4 address\<close>

lemma segment_bytes:
  "of_nat ((n * 65536 + unat s) div 256) = hi_byte s" "of_nat (n * 65536 + unat s) = lo_byte s"
proof -
  have [simp]: "(256::8 word) = 0" "(65536::8 word) = 0"
    by code_simp+
  have "(n * 65536 + unat s) div 256 = n * 256 + unat s div 256"
    by simp
  moreover have "of_nat (unat s div 256) = hi_byte s"
    by (simp add: hi_byte_def word_unat_eq_iff unat_of_nat unsigned_ucast_eq unat_drop_bit_div
        take_bit_eq_mod)
  ultimately show "of_nat ((n * 65536 + unat s) div 256) = hi_byte s"
    by simp
  have "of_nat (unat s) = lo_byte s"
    by (simp add: lo_byte_def)
  then show "of_nat (n * 65536 + unat s) = lo_byte s"
    by simp
qed

lemma v4_of_segments:
  "v4_of_number (seg_number (xs @ [s, t])) = Ipv4 (hi_byte s) (lo_byte s) (hi_byte t) (lo_byte t)"
proof -
  define n where "n = seg_number xs"
  have num: "seg_number (xs @ [s, t]) = (n * 65536 + unat s) * 65536 + unat t"
    using seg_number_snoc [of "xs @ [s]" t] by (simp add: seg_number_snoc n_def)
  have "((n * 65536 + unat s) * 65536 + unat t) div 2 ^ 24 = (n * 65536 + unat s) div 256"
    using div_shift_digit [OF unat_segment, of "n * 65536 + unat s" t 256] by simp
  moreover have "((n * 65536 + unat s) * 65536 + unat t) div 2 ^ 16 = n * 65536 + unat s"
    using div_shift_digit [OF unat_segment, of "n * 65536 + unat s" t 1] by simp
  ultimately show ?thesis
    unfolding num v4_of_number_def
    using segment_bytes [of n s] segment_bytes [of "n * 65536 + unat s" t] by simp
qed

lemma carried_v4:
  "v4_of_number (v6_number (Ipv6 a b c d e f g h) div 2 ^ 0)
     = Ipv4 (hi_byte g) (lo_byte g) (hi_byte h) (lo_byte h)"
  "v4_of_number (v6_number (Ipv6 a b c d e f g h) div 2 ^ 80)
     = Ipv4 (hi_byte b) (lo_byte b) (hi_byte c) (lo_byte c)"
proof -
  show "v4_of_number (v6_number (Ipv6 a b c d e f g h) div 2 ^ 0)
     = Ipv4 (hi_byte g) (lo_byte g) (hi_byte h) (lo_byte h)"
    using v4_of_segments [of "[a, b, c, d, e, f]" g h] by (simp add: v6_number_def)
  have "seg_number [a, b, c, d, e, f, g, h] div 2 ^ 80 = seg_number ([a] @ [b, c])"
    using seg_number_div [of "[a, b, c]" "[d, e, f, g, h]" 1] by simp
  then show "v4_of_number (v6_number (Ipv6 a b c d e f g h) div 2 ^ 80)
     = Ipv4 (hi_byte b) (lo_byte b) (hi_byte c) (lo_byte c)"
    unfolding v6_number_def segments.simps by (simp only: v4_of_segments)
qed

lemma special_v6_iff:
  "list_ex (\<lambda>(net, len). in_v6_prefix (Ipv6 a b c d e f g h) net len) special_v6 \<longleftrightarrow>
     v6_is_unspecified (Ipv6 a b c d e f g h) \<or> v6_is_loopback (Ipv6 a b c d e f g h) \<or>
     v6_is_multicast (Ipv6 a b c d e f g h) \<or>
     a AND 0xfe00 = 0xfc00 \<or> a AND 0xffc0 = 0xfe80 \<or> a AND 0xffc0 = 0xfec0 \<or>
     a = 0x2001 \<and> (b AND 0xfe00 = 0 \<or> b = 0xdb8) \<or> a = 0x3fff \<and> b AND 0xf000 = 0 \<or>
     a = 0x0100 \<and> b = 0 \<and> c = 0 \<and> d = 0 \<or> a = 0x64 \<and> b = 0xff9b \<and> c = 1"
proof -
  have "0xff00 div 2 ^ 8 = (0xff::nat)" "0xfc00 div 2 ^ 9 = (0x7e::nat)"
    "0xfe80 div 2 ^ 6 = (0x3fa::nat)" "0xfec0 div 2 ^ 6 = (0x3fb::nat)"
    by simp_all
  then show ?thesis
    unfolding special_v6_def
    by (simp add: in_v6_prefix_whole in_v6_prefix_part masks conj_disj_distribL disj_assoc
        del: power_numeral div_eq_0_iff)
qed

lemma carries_special_iff:
  "list_ex (carries_special_v4 (Ipv6 a b c d e f g h)) v4_carriers \<longleftrightarrow>
     (\<exists>v4. embedded_v4 (Ipv6 a b c d e f g h) = Some v4 \<and> v4_special v4)"
proof -
  let ?low = "a = 0 \<and> b = 0 \<and> c = 0 \<and> d = 0 \<and> e = 0 \<and> (f = 0 \<or> f = 0xffff)"
  let ?nat64 = "a = 0x64 \<and> b = 0xff9b \<and> c = 0 \<and> d = 0 \<and> e = 0 \<and> f = 0"
  have "list_ex (carries_special_v4 (Ipv6 a b c d e f g h)) v4_carriers \<longleftrightarrow>
      (?low \<or> ?nat64) \<and> v4_special (Ipv4 (hi_byte g) (lo_byte g) (hi_byte h) (lo_byte h)) \<or>
      a = 0x2002 \<and> v4_special (Ipv4 (hi_byte b) (lo_byte b) (hi_byte c) (lo_byte c))"
    by (simp add: v4_carriers_def carries_special_v4_def in_v6_prefix_whole carried_v4
        del: power_0 power_numeral) blast
  moreover have "embedded_v4 (Ipv6 a b c d e f g h) =
      (if ?low \<or> ?nat64 then Some (Ipv4 (hi_byte g) (lo_byte g) (hi_byte h) (lo_byte h))
       else if a = 0x2002 then Some (Ipv4 (hi_byte b) (lo_byte b) (hi_byte c) (lo_byte c)) else None)"
    by simp
  ultimately show ?thesis
    by (simp del: embedded_v4.simps)
qed

lemma public_v6_registry:
  "is_public_unicast_v6 ip \<longleftrightarrow>
     \<not> list_ex (\<lambda>(net, len). in_v6_prefix ip net len) special_v6 \<and>
     \<not> list_ex (carries_special_v4 ip) v4_carriers"
proof (cases ip)
  case (Ipv6 a b c d e f g h)
  show ?thesis
    unfolding Ipv6 special_v6_iff carries_special_iff is_public_unicast_v6.simps Let_def
      public_v4_registry
    by (auto simp del: embedded_v4.simps v6_is_unspecified.simps v6_is_loopback.simps
        v6_is_multicast.simps split: option.splits)
qed

text \<open>The addresses of the two registries.\<close>

fun special_address :: "IpAddr \<Rightarrow> bool" where
  "special_address (V4 ip) = v4_special ip"
| "special_address (V6 ip) =
     (list_ex (\<lambda>(net, len). in_v6_prefix ip net len) special_v6 \<or> list_ex (carries_special_v4 ip) v4_carriers)"


end
