(* ===== verification/Rate_Limit.thy ===== *)
theory Rate_Limit
  imports Ip_Addr Complex_Main
begin

text \<open>
  The token-bucket limiter and the client-address extractor of \<open>crates/ratelimit\<close>.

  A finite \<open>f64\<close> is the real number it stands for, and every operation rounds its exact result to
  the nearest value with 53 significant bits, ties to even, no finer than \<open>2 ^ -1074\<close>.  The range has
  no upper end: a product too large for \<open>f64\<close> is infinite there and merely large here, and the
  \<open>min\<close> with the capacity that follows makes the two the same.
\<close>

section \<open>Rounding of double precision numbers\<close>

definition round_even :: "real \<Rightarrow> int" where
  "round_even x =
     (let n = \<lfloor>x\<rfloor>; d = x - real_of_int n
      in if d < 1 / 2 then n else if d > 1 / 2 then n + 1 else if even n then n else n + 1)"

text \<open>The exponent of the last place of a positive number.\<close>

definition last_place :: "real \<Rightarrow> int" where
  "last_place x = max (- 1074) (\<lfloor>log 2 x\<rfloor> - 52)"

definition rnd_pos :: "real \<Rightarrow> real" where
  "rnd_pos x = real_of_int (round_even (x / 2 powi last_place x)) * 2 powi last_place x"

definition rnd :: "real \<Rightarrow> real" where
  "rnd x = (if x = 0 then 0 else if x > 0 then rnd_pos x else - rnd_pos (- x))"

definition fadd :: "real \<Rightarrow> real \<Rightarrow> real" where "fadd x y = rnd (x + y)"
definition fsub :: "real \<Rightarrow> real \<Rightarrow> real" where "fsub x y = rnd (x - y)"
definition fmul :: "real \<Rightarrow> real \<Rightarrow> real" where "fmul x y = rnd (x * y)"

section \<open>The limiter\<close>

record Quota =
  q_capacity :: "32 word"
  q_refill_per_sec :: real

record Bucket =
  b_tokens :: real
  b_last_refill :: real

record InMemoryRateLimiter =
  l_quota :: Quota
  l_buckets :: "string \<rightharpoonup> Bucket"

definition quota_new :: "32 word \<Rightarrow> real \<Rightarrow> Quota" where
  "quota_new capacity refill_per_sec = \<lparr>q_capacity = capacity, q_refill_per_sec = refill_per_sec\<rparr>"

text \<open>\<open>f64::from(self.quota.capacity)\<close>, which is exact.\<close>

definition f64_capacity :: "Quota \<Rightarrow> real" where
  "f64_capacity q = real (unat (q_capacity q))"

definition limiter_with_clock :: "Quota \<Rightarrow> InMemoryRateLimiter" where
  "limiter_with_clock quota = \<lparr>l_quota = quota, l_buckets = Map.empty\<rparr>"

text \<open>Operations read the clock once; its value is the argument \<open>now\<close>.\<close>

definition try_consume ::
  "real \<Rightarrow> string \<Rightarrow> real \<Rightarrow> InMemoryRateLimiter \<Rightarrow> bool \<times> InMemoryRateLimiter" where
  "try_consume now key cost self =
     (let capacity = f64_capacity (l_quota self);
          entry = (case l_buckets self key of
                     Some b \<Rightarrow> b
                   | None \<Rightarrow> \<lparr>b_tokens = capacity, b_last_refill = now\<rparr>);
          elapsed = max (fsub now (b_last_refill entry)) 0;
          refilled = fmul elapsed (q_refill_per_sec (l_quota self));
          tokens = min (fadd (b_tokens entry) refilled) capacity
      in if tokens \<ge> cost
         then (True, self\<lparr>l_buckets := (l_buckets self)(key \<mapsto>
                 \<lparr>b_tokens = fsub tokens cost, b_last_refill = now\<rparr>)\<rparr>)
         else (False, self\<lparr>l_buckets := (l_buckets self)(key \<mapsto>
                 \<lparr>b_tokens = tokens, b_last_refill = now\<rparr>)\<rparr>))"

definition limiter_check :: "real \<Rightarrow> string \<Rightarrow> InMemoryRateLimiter \<Rightarrow> bool \<times> InMemoryRateLimiter" where
  "limiter_check now key self = try_consume now key 1 self"

text \<open>The test of \<open>retain\<close>: a bucket that is not full yet is kept.\<close>

definition still_filling :: "real \<Rightarrow> Quota \<Rightarrow> Bucket \<Rightarrow> bool" where
  "still_filling now quota bucket \<longleftrightarrow>
     (let elapsed = max (fsub now (b_last_refill bucket)) 0
      in fadd (b_tokens bucket) (fmul elapsed (q_refill_per_sec quota)) < f64_capacity quota)"

definition prune :: "real \<Rightarrow> InMemoryRateLimiter \<Rightarrow> InMemoryRateLimiter" where
  "prune now self =
     self\<lparr>l_buckets := (\<lambda>key. case l_buckets self key of
        Some b \<Rightarrow> if still_filling now (l_quota self) b then Some b else None
      | None \<Rightarrow> None)\<rparr>"

section \<open>The client address\<close>

type_synonym TrustedProxies = nat

definition client_ip :: "IpAddr \<Rightarrow> string option \<Rightarrow> TrustedProxies \<Rightarrow> IpAddr" where
  "client_ip peer xff trusted =
     (if trusted = 0 then peer
      else (case xff of
              None \<Rightarrow> peer
            | Some raw \<Rightarrow>
                (let chain = List.map_filter (\<lambda>part. parse_ip (trim part)) (split_on CHR '','' raw)
                 in if chain = [] then peer
                    else if trusted \<ge> length chain then chain ! 0
                    else chain ! (length chain - trusted))))"

definition ip_key :: "IpAddr \<Rightarrow> string" where
  "ip_key ip = ip_to_string ip"

section \<open>Rounding is monotone\<close>

lemma round_even_near: "\<bar>real_of_int (round_even x) - x\<bar> \<le> 1 / 2"
  unfolding round_even_def Let_def by (auto simp: abs_le_iff)

lemma round_even_mono: "x \<le> y \<Longrightarrow> round_even x \<le> round_even y"
proof -
  assume le: "x \<le> y"
  then have "\<lfloor>x\<rfloor> \<le> \<lfloor>y\<rfloor>"
    by (rule floor_mono)
  then consider "\<lfloor>x\<rfloor> = \<lfloor>y\<rfloor>" | "\<lfloor>x\<rfloor> + 1 \<le> \<lfloor>y\<rfloor>"
    by linarith
  then show ?thesis
  proof cases
    case 1
    with le show ?thesis
      by (auto simp: round_even_def Let_def)
  next
    case 2
    have "round_even x \<le> \<lfloor>x\<rfloor> + 1" and "\<lfloor>y\<rfloor> \<le> round_even y"
      by (auto simp: round_even_def Let_def)
    with 2 show ?thesis
      by linarith
  qed
qed

lemma round_even_of_int [simp]: "round_even (real_of_int n) = n"
  by (simp add: round_even_def)

lemma two_powi_floor_log:
  assumes "0 < x"
  shows "2 powi \<lfloor>log 2 x\<rfloor> \<le> x" and "x < 2 powi (\<lfloor>log 2 x\<rfloor> + 1)"
proof -
  have "2 powr real_of_int \<lfloor>log 2 x\<rfloor> \<le> 2 powr log 2 x"
    by (simp add: powr_mono)
  then show "2 powi \<lfloor>log 2 x\<rfloor> \<le> x"
    using assms by (simp add: powr_real_of_int')
  have "2 powr log 2 x < 2 powr (real_of_int (\<lfloor>log 2 x\<rfloor> + 1))"
    by (rule powr_less_mono) linarith+
  then show "x < 2 powi (\<lfloor>log 2 x\<rfloor> + 1)"
    using assms by (simp add: powr_real_of_int' del: of_int_add)
qed

lemma last_place_mono: "0 < x \<Longrightarrow> x \<le> y \<Longrightarrow> last_place x \<le> last_place y"
proof -
  assume "0 < x" "x \<le> y"
  then have "\<lfloor>log 2 x\<rfloor> \<le> \<lfloor>log 2 y\<rfloor>"
    by (intro floor_mono) simp
  then show ?thesis
    by (simp add: last_place_def)
qed

lemma rnd_pos_le_power:
  assumes "0 < x"
  shows "rnd_pos x \<le> 2 powi (last_place x + 53)"
proof -
  let ?e = "last_place x"
  have "x \<le> 2 powi (?e + 53)"
  proof -
    have "x < 2 powi (\<lfloor>log 2 x\<rfloor> + 1)"
      by (rule two_powi_floor_log [OF assms])
    also have "\<dots> \<le> 2 powi (?e + 53)"
      by (intro power_int_increasing) (auto simp: last_place_def)
    finally show ?thesis by simp
  qed
  then have "x / 2 powi ?e \<le> real_of_int (2 ^ 53)"
    by (simp add: power_int_add divide_le_eq mult.commute)
  then have "round_even (x / 2 powi ?e) \<le> 2 ^ 53"
    using round_even_mono round_even_of_int by metis
  then have "real_of_int (round_even (x / 2 powi ?e)) \<le> real_of_int (2 ^ 53)"
    by (simp only: of_int_le_iff)
  then have "rnd_pos x \<le> real_of_int (2 ^ 53) * 2 powi ?e"
    unfolding rnd_pos_def by (intro mult_right_mono) auto
  then show ?thesis
    by (simp add: power_int_add mult.commute)
qed

lemma rnd_pos_ge_power:
  assumes "0 < x" and "- 1074 < last_place x"
  shows "2 powi (last_place x + 52) \<le> rnd_pos x"
proof -
  let ?e = "last_place x"
  have "?e + 52 = \<lfloor>log 2 x\<rfloor>"
    using assms(2) by (simp add: last_place_def)
  then have "2 powi (?e + 52) \<le> x"
    using two_powi_floor_log [OF assms(1)] by simp
  then have "real_of_int (2 ^ 52) \<le> x / 2 powi ?e"
    by (simp add: power_int_add le_divide_eq mult.commute)
  then have "2 ^ 52 \<le> round_even (x / 2 powi ?e)"
    using round_even_mono round_even_of_int by metis
  then have "real_of_int (2 ^ 52) \<le> real_of_int (round_even (x / 2 powi ?e))"
    by (simp only: of_int_le_iff)
  then have "real_of_int (2 ^ 52) * 2 powi ?e \<le> rnd_pos x"
    unfolding rnd_pos_def by (intro mult_right_mono) auto
  then show ?thesis
    by (simp add: power_int_add mult.commute)
qed

lemma rnd_pos_mono:
  assumes "0 < x" and "x \<le> y"
  shows "rnd_pos x \<le> rnd_pos y"
proof (cases "last_place x = last_place y")
  case True
  have "round_even (x / 2 powi last_place x) \<le> round_even (y / 2 powi last_place x)"
    using assms by (intro round_even_mono divide_right_mono) auto
  with True show ?thesis
    by (simp add: rnd_pos_def)
next
  case False
  with last_place_mono [OF assms] have lt: "last_place x < last_place y"
    by simp
  have "rnd_pos x \<le> 2 powi (last_place x + 53)"
    by (rule rnd_pos_le_power) fact
  also have "\<dots> \<le> 2 powi (last_place y + 52)"
    using lt by (intro power_int_increasing) auto
  also have "\<dots> \<le> rnd_pos y"
    using assms lt by (intro rnd_pos_ge_power) (auto simp: last_place_def)
  finally show ?thesis .
qed

lemma rnd_pos_nonneg: "0 < x \<Longrightarrow> 0 \<le> rnd_pos x"
proof -
  assume "0 < x"
  then have "round_even 0 \<le> round_even (x / 2 powi last_place x)"
    by (intro round_even_mono) simp
  then show ?thesis
    by (simp add: rnd_pos_def round_even_def)
qed

lemma rnd_mono: "x \<le> y \<Longrightarrow> rnd x \<le> rnd y"
  using rnd_pos_mono [of x y] rnd_pos_mono [of "- y" "- x"] rnd_pos_nonneg [of y] rnd_pos_nonneg [of "- x"]
  by (auto simp: rnd_def)

lemma rnd_0 [simp]: "rnd 0 = 0"
  by (simp add: rnd_def)

lemma rnd_nat:
  assumes "n < 2 ^ 53"
  shows "rnd (real n) = real n"
proof (cases "n = 0")
  case False
  define e where "e = last_place (real n)"
  have "log 2 (real n) < 53"
    using False assms by (simp add: log_less_iff powr_numeral)
  then have "e \<le> 0"
    by (simp add: e_def last_place_def)
  then have "real n / 2 powi e = real_of_int (int n * 2 ^ nat (- e))"
    by (simp add: power_int_def field_simps)
  then have "rnd_pos (real n) = real n / 2 powi e * 2 powi e"
    unfolding rnd_pos_def e_def [symmetric] by (simp only: round_even_of_int)
  with False show ?thesis
    by (simp add: rnd_def)
qed simp

section \<open>Pruning is invisible\<close>

lemma capacity_exact [simp]: "rnd (f64_capacity q) = f64_capacity q"
proof -
  have "unat (q_capacity q) < 2 ^ 32"
    using unsigned_less [of "q_capacity q", where ?'a = nat] by simp
  then show ?thesis
    unfolding f64_capacity_def by (intro rnd_nat) simp
qed

lemma fill_mono:
  assumes "now \<le> later" and "0 \<le> r"
  shows "fadd t (fmul (max (fsub now l) 0) r) \<le> fadd t (fmul (max (fsub later l) 0) r)"
  unfolding fadd_def fmul_def fsub_def using assms
  by (intro rnd_mono add_left_mono mult_right_mono max.mono) auto

lemma still_filling_antimono:
  assumes "\<not> still_filling now q b" and "now \<le> later" and "0 \<le> q_refill_per_sec q"
  shows "\<not> still_filling later q b"
  using assms(1) fill_mono [OF assms(2,3), of "b_tokens b" "b_last_refill b"]
  by (simp add: still_filling_def)

text \<open>The decisions of a sequence of checks, each with its time and key.\<close>

fun decisions :: "(real \<times> string) list \<Rightarrow> InMemoryRateLimiter \<Rightarrow> bool list" where
  "decisions [] self = []"
| "decisions ((now, key) # rest) self =
     (case limiter_check now key self of (ok, self') \<Rightarrow> ok # decisions rest self')"

text \<open>Two limiters agree but for buckets that are full by \<open>now\<close> and that the second one has dropped.\<close>

definition same_but_full :: "real \<Rightarrow> InMemoryRateLimiter \<Rightarrow> InMemoryRateLimiter \<Rightarrow> bool" where
  "same_but_full now a b \<longleftrightarrow> l_quota a = l_quota b \<and>
     (\<forall>key. l_buckets a key = l_buckets b key \<or>
        l_buckets b key = None \<and> (\<forall>x. l_buckets a key = Some x \<longrightarrow> \<not> still_filling now (l_quota a) x))"

text \<open>The tokens a check finds after refilling.\<close>

definition tokens_at :: "real \<Rightarrow> Quota \<Rightarrow> Bucket option \<Rightarrow> real" where
  "tokens_at now quota entry =
     (case entry of
        None \<Rightarrow> f64_capacity quota
      | Some b \<Rightarrow> min (fadd (b_tokens b) (fmul (max (fsub now (b_last_refill b)) 0) (q_refill_per_sec quota)))
                   (f64_capacity quota))"

lemma limiter_check_eq:
  "limiter_check now key self =
     (let tk = tokens_at now (l_quota self) (l_buckets self key)
      in (1 \<le> tk, self\<lparr>l_buckets := (l_buckets self)(key \<mapsto>
            \<lparr>b_tokens = (if 1 \<le> tk then fsub tk 1 else tk), b_last_refill = now\<rparr>)\<rparr>))"
  by (auto simp: limiter_check_def try_consume_def Let_def tokens_at_def fsub_def fmul_def fadd_def
      split: option.split)

lemma tokens_at_full: "\<not> still_filling now q b \<Longrightarrow> tokens_at now q (Some b) = tokens_at now q None"
  by (simp add: tokens_at_def still_filling_def)

lemma check_same:
  assumes "same_but_full now a b" and "now \<le> t" and "0 \<le> q_refill_per_sec (l_quota a)"
  shows "fst (limiter_check t key a) = fst (limiter_check t key b)"
    and "same_but_full t (snd (limiter_check t key a)) (snd (limiter_check t key b))"
proof -
  have q: "l_quota b = l_quota a" and full: "l_buckets a k = l_buckets b k \<or> l_buckets b k = None \<and>
      (\<forall>x. l_buckets a k = Some x \<longrightarrow> \<not> still_filling t (l_quota a) x)" for k
    using assms still_filling_antimono unfolding same_but_full_def by metis+
  then have "tokens_at t (l_quota a) (l_buckets a key) = tokens_at t (l_quota a) (l_buckets b key)"
    by (metis not_Some_eq tokens_at_full)
  with q full show "fst (limiter_check t key a) = fst (limiter_check t key b)"
    and "same_but_full t (snd (limiter_check t key a)) (snd (limiter_check t key b))"
    by (auto simp: limiter_check_eq Let_def same_but_full_def)
qed

lemma limiter_check_quota: "l_quota (snd (limiter_check t key a)) = l_quota a"
  by (simp add: limiter_check_eq Let_def)

lemma decisions_same:
  "same_but_full now a b \<Longrightarrow> 0 \<le> q_refill_per_sec (l_quota a) \<Longrightarrow> sorted (now # map fst run) \<Longrightarrow>
   decisions run a = decisions run b"
proof (induction run arbitrary: now a b)
  case (Cons c run)
  obtain t key where c: "c = (t, key)"
    by (cases c)
  with Cons.prems have le: "now \<le> t" and sorted: "sorted (t # map fst run)"
    by auto
  note same = check_same [OF Cons.prems(1) le Cons.prems(2), of key]
  from Cons.IH [OF same(2) _ sorted] Cons.prems(2) same(1) show ?case
    by (simp add: c limiter_check_quota split: prod.split) (metis fst_conv snd_conv limiter_check_quota)
qed simp

text \<open>
  C11: pruning is invisible.  Dropping the buckets that are full again changes no later decision of
  the limiter, however the checks that follow are spread over keys and over a clock that does not
  go back, and although every refill is rounded: the dropped and the kept bucket both come out at
  exactly the capacity.
\<close>

theorem prune_changes_no_decision:
  assumes "0 \<le> q_refill_per_sec (l_quota self)" and "sorted (now # map fst run)"
  shows "decisions run (prune now self) = decisions run self"
proof -
  have "same_but_full now self (prune now self)"
    by (auto simp: same_but_full_def prune_def split: option.splits)
  then show ?thesis
    using decisions_same assms by metis
qed

text \<open>A full bucket and three checks half a second apart, at one token per second.\<close>

theorem prune_changes_no_decision_witness:
  "let self = \<lparr>l_quota = quota_new 1 1, l_buckets = [''k'' \<mapsto> \<lparr>b_tokens = 0, b_last_refill = 0\<rparr>]\<rparr>;
       run = [(1, ''k''), (3 / 2, ''k''), (2, ''k'')]
   in 0 \<le> q_refill_per_sec (l_quota self) \<and> sorted (1 # map fst run) \<and>
      decisions run (prune 1 self) = decisions run self"
  using prune_changes_no_decision
    [where self = "\<lparr>l_quota = quota_new 1 1, l_buckets = [''k'' \<mapsto> \<lparr>b_tokens = 0, b_last_refill = 0\<rparr>]\<rparr>"
      and now = 1 and run = "[(1, ''k''), (3 / 2, ''k''), (2, ''k'')]"]
  by (simp add: quota_new_def Let_def)

section \<open>A burst is bounded by the capacity\<close>

text \<open>What the limiter promises at one instant: each key counts its own checks up to the capacity.\<close>

fun counted :: "nat \<Rightarrow> string list \<Rightarrow> string list \<Rightarrow> bool list" where
  "counted cap earlier [] = []"
| "counted cap earlier (key # keys) = (count_list earlier key < cap) # counted cap (key # earlier) keys"

definition counts_tokens :: "real \<Rightarrow> string list \<Rightarrow> InMemoryRateLimiter \<Rightarrow> bool" where
  "counts_tokens now earlier self \<longleftrightarrow>
     (\<forall>key. tokens_at now (l_quota self) (l_buckets self key)
        = real (unat (q_capacity (l_quota self)) - count_list earlier key))"

lemma capacity_small: "unat (c :: 32 word) - n < 2 ^ 53"
proof -
  have "unat c < 2 ^ 32"
    using unsigned_less [of c, where ?'a = nat] by simp
  then show ?thesis
    by simp
qed

lemma tokens_at_same_instant:
  "n \<le> unat (q_capacity q) \<Longrightarrow>
   tokens_at now q (Some \<lparr>b_tokens = real n, b_last_refill = now\<rparr>) = real n"
  using rnd_nat [of n] capacity_small [of "q_capacity q" 0]
  by (simp add: tokens_at_def fsub_def fmul_def fadd_def f64_capacity_def del: of_nat_unat)

lemma check_counts:
  assumes "counts_tokens now earlier self"
  shows "fst (limiter_check now key self) \<longleftrightarrow> count_list earlier key < unat (q_capacity (l_quota self))"
    and "counts_tokens now (key # earlier) (snd (limiter_check now key self))"
proof -
  let ?cap = "unat (q_capacity (l_quota self))" and ?n = "count_list earlier key"
  have tk: "tokens_at now (l_quota self) (l_buckets self k) = real (?cap - count_list earlier k)" for k
    using assms by (simp add: counts_tokens_def)
  show "fst (limiter_check now key self) \<longleftrightarrow> ?n < ?cap"
    by (simp add: limiter_check_eq tk Let_def) linarith
  have "(if 1 \<le> real (?cap - ?n) then fsub (real (?cap - ?n)) 1 else real (?cap - ?n)) = real (?cap - Suc ?n)"
  proof (cases "?n < ?cap")
    case True
    then obtain m where m: "?cap - ?n = Suc m" "?cap - Suc ?n = m"
      by (metis Suc_diff_Suc)
    then have "rnd (real m) = real m"
      using rnd_nat [OF capacity_small, of "q_capacity (l_quota self)" "Suc ?n"] by simp
    then show ?thesis
      unfolding m by (simp add: fsub_def)
  qed simp
  then show "counts_tokens now (key # earlier) (snd (limiter_check now key self))"
    using tk by (simp add: counts_tokens_def limiter_check_eq Let_def tokens_at_same_instant)
qed

lemma decisions_counted:
  "counts_tokens now earlier self \<Longrightarrow>
   decisions (map (Pair now) keys) self = counted (unat (q_capacity (l_quota self))) earlier keys"
proof (induction keys arbitrary: earlier self)
  case (Cons key keys)
  note step = check_counts [OF Cons.prems, of key]
  from Cons.IH [OF step(2)] step(1) show ?case
    by (simp add: limiter_check_quota split: prod.split) (metis fst_conv snd_conv limiter_check_quota)
qed simp

text \<open>
  A burst is bounded by the capacity, key by key.  At one instant a new limiter allows exactly the
  first \<open>capacity\<close> checks of each key, whatever the refill rate, whatever the order of the keys, and
  with no token lost or gained to rounding.
\<close>

theorem burst_is_counted_per_key:
  "decisions (map (Pair now) keys) (limiter_with_clock quota) = counted (unat (q_capacity quota)) [] keys"
proof -
  have "counts_tokens now [] (limiter_with_clock quota)"
    by (simp add: counts_tokens_def limiter_with_clock_def tokens_at_def f64_capacity_def)
  from decisions_counted [OF this] show ?thesis
    by (simp add: limiter_with_clock_def)
qed

section \<open>The client cannot choose its address\<close>

lemma map_filter_total:
  "\<forall>x\<in>set xs. f x = Some (g x) \<Longrightarrow> List.map_filter f xs = map g xs"
  by (induction xs) (auto simp: List.map_filter_simps)

lemma map_filter_append: "List.map_filter f (xs @ ys) = List.map_filter f xs @ List.map_filter f ys"
  by (simp add: List.map_filter_def)

text \<open>
  A client cannot forge its address.  When each of the \<open>n\<close> trusted proxies appends one address to
  the header, the first of these is the answer, whatever text the client had put into the header
  before.
\<close>

theorem forged_header_ignored:
  assumes "entries \<noteq> []" and "\<forall>e\<in>set entries. CHR '','' \<notin> set e \<and> parse_ip (trim e) = Some (addr e)"
  shows "client_ip peer (Some (forged @ '','' @ join_with '','' entries)) (length entries) = addr (hd entries) \<and>
    client_ip peer (Some (join_with '','' entries)) (length entries) = addr (hd entries)"
proof -
  let ?parse = "\<lambda>part. parse_ip (trim part)"
  have split: "split_on CHR '','' (join_with '','' entries) = entries"
    using assms by (intro split_join) auto
  have chain: "List.map_filter ?parse entries = map addr entries"
    using assms(2) by (intro map_filter_total) auto
  define front where "front = List.map_filter ?parse (split_on CHR '','' forged)"
  have "List.map_filter ?parse (split_on CHR '','' (forged @ '','' @ join_with '','' entries))
      = front @ map addr entries"
    using split_on_append_gen [of "CHR '',''" forged "join_with '','' entries"]
    by (simp add: split front_def map_filter_append chain)
  with assms(1) show ?thesis
    by (auto simp: client_ip_def split chain Let_def nth_append hd_conv_nth)
qed

theorem forged_header_ignored_witness:
  "let entries = [''1.2.3.4'', ''5.6.7.8''];
       addr = (\<lambda>e. if e = ''1.2.3.4'' then V4 (Ipv4 1 2 3 4) else V4 (Ipv4 5 6 7 8))
   in (\<forall>e\<in>set entries. CHR '','' \<notin> set e \<and> parse_ip (trim e) = Some (addr e)) \<and>
      client_ip (V4 (Ipv4 9 9 9 9)) (Some ''6.6.6.6,1.2.3.4,5.6.7.8'') 2 = V4 (Ipv4 1 2 3 4)"
proof -
  let ?addr = "\<lambda>e. if e = ''1.2.3.4'' then V4 (Ipv4 1 2 3 4) else V4 (Ipv4 5 6 7 8)"
  have "parse_ip ''1.2.3.4'' = Some (V4 (Ipv4 1 2 3 4))" "parse_ip ''5.6.7.8'' = Some (V4 (Ipv4 5 6 7 8))"
    by code_simp+
  moreover have "trim ''1.2.3.4'' = ''1.2.3.4''" "trim ''5.6.7.8'' = ''5.6.7.8''"
    by (simp_all add: trim_all_printable printable_def)
  ultimately have "\<forall>e\<in>set [''1.2.3.4'', ''5.6.7.8'']. CHR '','' \<notin> set e \<and> parse_ip (trim e) = Some (?addr e)"
    by simp
  with forged_header_ignored [where entries = "[''1.2.3.4'', ''5.6.7.8'']" and addr = ?addr
      and forged = "''6.6.6.6''" and peer = "V4 (Ipv4 9 9 9 9)"]
  show ?thesis
    by (simp add: Let_def numeral_2_eq_2)
qed

end
