(* ===== verification/Webhook_Sig.thy ===== *)
theory Webhook_Sig
  imports Kit_Prelude
begin

text \<open>
  Inbound webhooks of \<open>crates/webhooks\<close>: HMAC signatures, signatures with a timestamp, and the store
  that keeps a redelivered event from being processed twice.  HMAC-SHA256 and hex coding are the
  fields of \<open>sig_lib\<close>; \<open>sig_lib_ok\<close> says what the hex coding promises.
\<close>

section \<open>The signature library\<close>

record sig_lib =
  hmac_sha256 :: "string \<Rightarrow> string \<Rightarrow> string"
  hex_encode :: "string \<Rightarrow> string"
  hex_decode :: "string \<Rightarrow> string option"

definition is_hex_digit :: "char \<Rightarrow> bool" where
  "is_hex_digit c \<longleftrightarrow>
     is_ascii_digit c \<or> 65 \<le> byte c \<and> byte c \<le> 70 \<or> 97 \<le> byte c \<and> byte c \<le> 102"

definition sig_lib_ok :: "sig_lib \<Rightarrow> bool" where
  "sig_lib_ok lib \<longleftrightarrow>
     (\<forall>b. hex_decode lib (hex_encode lib b) = Some b) \<and>
     (\<forall>s b. hex_decode lib s = Some b \<longrightarrow> list_all is_hex_digit s)"

section \<open>Signatures\<close>

datatype SignatureError = MalformedHeader | Mismatch

fun signature_error_display :: "SignatureError \<Rightarrow> string" where
  "signature_error_display MalformedHeader = ''malformed signature header''"
| "signature_error_display Mismatch = ''signature mismatch''"

definition compute_sig :: "sig_lib \<Rightarrow> string \<Rightarrow> string \<Rightarrow> string" where
  "compute_sig lib secret body = hmac_sha256 lib secret body"

definition ct_eq :: "string \<Rightarrow> string \<Rightarrow> bool" where
  "ct_eq a b = (if length a \<noteq> length b then False else a = b)"

definition verify_hex :: "sig_lib \<Rightarrow> string \<Rightarrow> string \<Rightarrow> string \<Rightarrow> (SignatureError, unit) result" where
  "verify_hex lib secret body signature_hex =
     try_bind (ok_or MalformedHeader (hex_decode lib (trim signature_hex))) (\<lambda>provided.
     let expected = compute_sig lib secret body
     in if ct_eq expected provided then Inr () else Inl Mismatch)"

definition verify_github :: "sig_lib \<Rightarrow> string \<Rightarrow> string \<Rightarrow> string \<Rightarrow> (SignatureError, unit) result" where
  "verify_github lib secret body header =
     try_bind (ok_or MalformedHeader (strip_prefix ''sha256='' (trim header))) (\<lambda>hex_part.
     verify_hex lib secret body hex_part)"

definition sign_github :: "sig_lib \<Rightarrow> string \<Rightarrow> string \<Rightarrow> string" where
  "sign_github lib secret body = ''sha256='' @ hex_encode lib (compute_sig lib secret body)"

section \<open>Signatures with a timestamp\<close>

datatype TimestampedError = MalformedTimestamp | Stale | Signature SignatureError

fun timestamped_error_display :: "TimestampedError \<Rightarrow> string" where
  "timestamped_error_display MalformedTimestamp = ''malformed timestamp header''"
| "timestamped_error_display Stale = ''timestamp outside the accepted window''"
| "timestamped_error_display (Signature e) = signature_error_display e"

definition timestamped_input :: "int \<Rightarrow> string \<Rightarrow> string" where
  "timestamped_input timestamp body = show_int timestamp @ ''.'' @ body"

definition sign_timestamped :: "sig_lib \<Rightarrow> string \<Rightarrow> int \<Rightarrow> string \<Rightarrow> string" where
  "sign_timestamped lib secret timestamp body =
     sign_github lib secret (timestamped_input timestamp body)"

text \<open>\<open>str::trim_start_matches\<close> of a non-empty pattern.\<close>

function trim_start_matches :: "'a list \<Rightarrow> 'a list \<Rightarrow> 'a list" where
  "trim_start_matches p s =
     (if p = [] then s
      else (case strip_prefix p s of None \<Rightarrow> s | Some rest \<Rightarrow> trim_start_matches p rest))"
  by pat_completeness auto
termination
  by (relation "measure (\<lambda>(p, s). length s)") (auto simp: strip_prefix_Some_iff)

declare trim_start_matches.simps [simp del]

definition verify_timestamped ::
  "sig_lib \<Rightarrow> string \<Rightarrow> string \<Rightarrow> string \<Rightarrow> string \<Rightarrow> int \<Rightarrow> int \<Rightarrow> (TimestampedError, string) result" where
  "verify_timestamped lib secret body timestamp_header signature_header now max_skew_secs =
     try_bind (ok_or MalformedTimestamp (parse_i64 (trim timestamp_header))) (\<lambda>timestamp.
     if \<bar>now - timestamp\<bar> > \<bar>max_skew_secs\<bar> then Inl Stale
     else
       try_bind (map_err Signature
         (verify_github lib secret (timestamped_input timestamp body) signature_header)) (\<lambda>_.
       let hex_part = trim_start_matches ''sha256='' (trim signature_header)
       in ok_or (Signature MalformedHeader) (hex_decode lib hex_part)))"

section \<open>Deliveries\<close>

record InMemoryDeliveryStore =
  ds_seen :: "string set"

definition delivery_store_new :: InMemoryDeliveryStore where
  "delivery_store_new = \<lparr>ds_seen = {}\<rparr>"

definition delivery_seen :: "InMemoryDeliveryStore \<Rightarrow> string \<Rightarrow> bool" where
  "delivery_seen self delivery_id \<longleftrightarrow> delivery_id \<in> ds_seen self"

definition delivery_record :: "InMemoryDeliveryStore \<Rightarrow> string \<Rightarrow> bool \<times> InMemoryDeliveryStore" where
  "delivery_record self delivery_id =
     (delivery_id \<notin> ds_seen self, self\<lparr>ds_seen := insert delivery_id (ds_seen self)\<rparr>)"

section \<open>What the checks accept\<close>

lemma ct_eq_iff [simp]: "ct_eq a b \<longleftrightarrow> a = b"
  by (auto simp: ct_eq_def)

lemma hex_printable: "is_hex_digit c \<Longrightarrow> printable c \<and> c \<noteq> CHR ''=''"
  by (auto simp: is_hex_digit_def is_ascii_digit_def printable_def)

lemma hex_decode_trim:
  assumes "sig_lib_ok lib" and "hex_decode lib s = Some b"
  shows "trim s = s" and "CHR ''='' \<notin> set s"
proof -
  have "list_all is_hex_digit s"
    using assms by (simp add: sig_lib_ok_def)
  then have "list_all printable s" and "CHR ''='' \<notin> set s"
    using hex_printable by (auto simp: list_all_iff)
  then show "trim s = s" and "CHR ''='' \<notin> set s"
    by (simp_all add: trim_all_printable)
qed

lemma verify_hex_Inr: "verify_hex lib secret body s = Inr u \<longleftrightarrow> hex_decode lib (trim s) = Some (compute_sig lib secret body)"
  by (auto simp: verify_hex_def result_simps)

lemma trim_start_matches_id: "\<not> starts_with p s \<Longrightarrow> trim_start_matches p s = s"
  by (subst trim_start_matches.simps) (simp add: strip_prefix_None_iff [THEN iffD2])

lemma trim_start_matches_once:
  "p \<noteq> [] \<Longrightarrow> \<not> starts_with p s \<Longrightarrow> trim_start_matches p (p @ s) = s"
  by (subst trim_start_matches.simps) (simp add: trim_start_matches_id)

lemma sha256_prefix_not_hex:
  assumes "sig_lib_ok lib" and "hex_decode lib (trim s) = Some b"
  shows "\<not> starts_with ''sha256='' s"
proof
  assume "starts_with ''sha256='' s"
  then have "CHR ''='' \<in> set (trim s)"
    by (intro trim_keeps) (auto simp: starts_with_iff printable_def)
  with hex_decode_trim(2) [OF assms] show False
    by simp
qed

lemma verify_timestamped_Inr:
  assumes "sig_lib_ok lib"
  shows "verify_timestamped lib secret body th sh now skew = Inr d \<longleftrightarrow>
    (\<exists>ts h. parse_i64 (trim th) = Some ts \<and> \<bar>now - ts\<bar> \<le> \<bar>skew\<bar> \<and> trim sh = ''sha256='' @ h \<and>
       hex_decode lib h = Some d \<and> d = hmac_sha256 lib secret (show_int ts @ ''.'' @ body))"
proof
  assume "verify_timestamped lib secret body th sh now skew = Inr d"
  then obtain ts h where ts: "parse_i64 (trim th) = Some ts" "\<bar>now - ts\<bar> \<le> \<bar>skew\<bar>"
    and h: "trim sh = ''sha256='' @ h"
    and ok: "hex_decode lib (trim h) = Some (hmac_sha256 lib secret (show_int ts @ ''.'' @ body))"
    and d: "hex_decode lib (trim_start_matches ''sha256='' (trim sh)) = Some d"
    by (auto simp: verify_timestamped_def verify_github_def verify_hex_Inr result_simps Let_def
        strip_prefix_Some_iff compute_sig_def timestamped_input_def split: if_splits)
  have "trim_start_matches ''sha256='' (trim sh) = h"
    unfolding h using sha256_prefix_not_hex [OF assms ok] by (intro trim_start_matches_once) auto
  with d have "hex_decode lib h = Some d"
    by simp
  with ts h ok hex_decode_trim(1) [OF assms this] show "\<exists>ts h. parse_i64 (trim th) = Some ts \<and>
      \<bar>now - ts\<bar> \<le> \<bar>skew\<bar> \<and> trim sh = ''sha256='' @ h \<and> hex_decode lib h = Some d \<and>
      d = hmac_sha256 lib secret (show_int ts @ ''.'' @ body)"
    by auto
next
  assume "\<exists>ts h. parse_i64 (trim th) = Some ts \<and> \<bar>now - ts\<bar> \<le> \<bar>skew\<bar> \<and> trim sh = ''sha256='' @ h \<and>
       hex_decode lib h = Some d \<and> d = hmac_sha256 lib secret (show_int ts @ ''.'' @ body)"
  then obtain ts h where ts: "parse_i64 (trim th) = Some ts" "\<bar>now - ts\<bar> \<le> \<bar>skew\<bar>"
    and h: "trim sh = ''sha256='' @ h" "hex_decode lib h = Some d"
    and d: "d = hmac_sha256 lib secret (show_int ts @ ''.'' @ body)"
    by blast
  note trim = hex_decode_trim(1) [OF assms h(2)]
  have "trim_start_matches ''sha256='' (trim sh) = h"
    unfolding h using sha256_prefix_not_hex [OF assms] h(2) trim by (intro trim_start_matches_once) auto
  moreover have "verify_github lib secret (timestamped_input ts body) sh = Inr ()"
    using h trim d
    by (simp add: verify_github_def strip_prefix_def verify_hex_Inr compute_sig_def timestamped_input_def)
  ultimately show "verify_timestamped lib secret body th sh now skew = Inr d"
    using ts h by (simp add: verify_timestamped_def Let_def)
qed

lemma signed_is_accepted:
  assumes "sig_lib_ok lib" and "i64_min \<le> ts" and "ts \<le> i64_max" and "\<bar>now - ts\<bar> \<le> \<bar>skew\<bar>"
  shows "verify_timestamped lib secret body (show_int ts) (sign_timestamped lib secret ts body) now skew
    = Inr (hmac_sha256 lib secret (timestamped_input ts body))"
proof -
  let ?d = "hmac_sha256 lib secret (timestamped_input ts body)"
  have dec: "hex_decode lib (hex_encode lib ?d) = Some ?d"
    using assms(1) by (simp add: sig_lib_ok_def)
  then have "list_all is_hex_digit (hex_encode lib ?d)"
    using assms(1) by (simp add: sig_lib_ok_def)
  then have "list_all printable (''sha256='' @ hex_encode lib ?d)"
    using hex_printable by (auto simp: list_all_iff printable_def)
  then have "trim (sign_timestamped lib secret ts body) = ''sha256='' @ hex_encode lib ?d"
    unfolding sign_timestamped_def sign_github_def compute_sig_def by (rule trim_all_printable)
  with dec assms show ?thesis
    unfolding verify_timestamped_Inr [OF assms(1)]
    by (intro exI [of _ ts] exI [of _ "hex_encode lib ?d"]) (simp add: parse_i64_show_int timestamped_input_def)
qed

text \<open>
  C10: what the timestamped check accepts, and what it returns.  A delivery passes exactly when its
  timestamp parses and lies within the window on either side of the clock, and the signature
  header is \<open>sha256=\<close> followed by the hex form of the HMAC over that timestamp and that body.  The
  value returned is that HMAC: a caller that keeps it as a replay marker keeps one marker per
  signed message, however the headers were padded.
\<close>

theorem timestamped_accepts_iff:
  assumes "sig_lib_ok lib"
  shows "verify_timestamped lib secret body th sh now skew = Inr d \<longleftrightarrow>
    (\<exists>ts h. parse_i64 (trim th) = Some ts \<and> \<bar>now - ts\<bar> \<le> \<bar>skew\<bar> \<and> trim sh = ''sha256='' @ h \<and>
       hex_decode lib h = Some d \<and> d = hmac_sha256 lib secret (show_int ts @ ''.'' @ body))"
  using assms by (rule verify_timestamped_Inr)

section \<open>An instance of the library\<close>

text \<open>Hex coding as the library documents it; a keyed concatenation stands in for HMAC.\<close>

definition nibble_char :: "nat \<Rightarrow> char" where
  "nibble_char n = char_of (if n < 10 then 48 + n else 87 + n)"

definition nibble_val :: "char \<Rightarrow> nat option" where
  "nibble_val c =
     (if is_ascii_digit c then Some (byte c - 48)
      else if 65 \<le> byte c \<and> byte c \<le> 70 then Some (byte c - 55)
      else if 97 \<le> byte c \<and> byte c \<le> 102 then Some (byte c - 87)
      else None)"

fun plain_hex_encode :: "string \<Rightarrow> string" where
  "plain_hex_encode [] = []"
| "plain_hex_encode (c # cs) = nibble_char (byte c div 16) # nibble_char (byte c mod 16) # plain_hex_encode cs"

fun plain_hex_decode :: "string \<Rightarrow> string option" where
  "plain_hex_decode [] = Some []"
| "plain_hex_decode [_] = None"
| "plain_hex_decode (a # b # cs) =
     (case (nibble_val a, nibble_val b, plain_hex_decode cs) of
        (Some x, Some y, Some r) \<Rightarrow> Some (char_of (16 * x + y) # r)
      | _ \<Rightarrow> None)"

definition plain_sig_lib :: sig_lib where
  "plain_sig_lib = \<lparr>hmac_sha256 = (\<lambda>k b. k @ b), hex_encode = plain_hex_encode, hex_decode = plain_hex_decode\<rparr>"

lemma nibble_val_char: "n < 16 \<Longrightarrow> nibble_val (nibble_char n) = Some n"
  by (auto simp: nibble_val_def nibble_char_def is_ascii_digit_def)

lemma plain_hex_roundtrip: "plain_hex_decode (plain_hex_encode b) = Some b"
proof (induction b)
  case (Cons c b)
  have "byte c < 256"
    by simp
  then have "byte c div 16 < 16" "byte c mod 16 < 16" "16 * (byte c div 16) + byte c mod 16 = byte c"
    by (simp_all add: less_mult_imp_div_less)
  with Cons show ?case
    by (simp add: nibble_val_char)
qed simp

lemma plain_hex_decode_hex: "plain_hex_decode s = Some b \<Longrightarrow> list_all is_hex_digit s"
  by (induction s arbitrary: b rule: plain_hex_decode.induct)
    (auto simp: nibble_val_def is_hex_digit_def split: option.splits if_splits)

lemma plain_sig_lib_ok: "sig_lib_ok plain_sig_lib"
  by (simp add: sig_lib_ok_def plain_sig_lib_def plain_hex_roundtrip plain_hex_decode_hex)

theorem timestamped_accepts_iff_witness:
  "sig_lib_ok plain_sig_lib \<and>
   verify_timestamped plain_sig_lib ''k'' ''b'' ''7'' ''sha256=6b372e62'' 9 5 = Inr ''k7.b''"
proof -
  have 1: "parse_i64 (trim ''7'') = Some 7"
    by (simp add: trim_all_printable printable_def parse_i64_def starts_with_def dec_val_def
        digit_val_def is_ascii_digit_def i64_min_def i64_max_def)
  have 2: "trim ''sha256=6b372e62'' = ''sha256='' @ ''6b372e62''"
    by (simp add: trim_all_printable printable_def)
  have 3: "hex_decode plain_sig_lib ''6b372e62'' = Some ''k7.b''"
    unfolding plain_sig_lib_def by code_simp
  have 4: "hmac_sha256 plain_sig_lib ''k'' (show_int 7 @ ''.'' @ ''b'') = ''k7.b''"
    unfolding plain_sig_lib_def by code_simp
  have "verify_timestamped plain_sig_lib ''k'' ''b'' ''7'' ''sha256=6b372e62'' 9 5 = Inr ''k7.b''"
    by (rule timestamped_accepts_iff [OF plain_sig_lib_ok, THEN iffD2], rule exI [of _ 7],
        rule exI [of _ "''6b372e62''"], intro conjI 1 2 3 4 [symmetric]) simp
  then show ?thesis
    using plain_sig_lib_ok by blast
qed

section \<open>Deliveries are processed once\<close>

text \<open>The contract of a delivery store, and what follows for a consumer that acts on new ids only.\<close>

locale delivery_store =
  fixes seen :: "'s \<Rightarrow> string \<Rightarrow> bool"
    and note_delivery :: "'s \<Rightarrow> string \<Rightarrow> bool \<times> 's"
  assumes note_new: "fst (note_delivery s d) \<longleftrightarrow> \<not> seen s d"
    and seen_note: "seen (snd (note_delivery s d)) e \<longleftrightarrow> e = d \<or> seen s e"
begin

fun processed :: "'s \<Rightarrow> string list \<Rightarrow> string list" where
  "processed s [] = []"
| "processed s (d # ds) =
     (case note_delivery s d of (fresh, s') \<Rightarrow> if fresh then d # processed s' ds else processed s' ds)"

lemma processed_once:
  "distinct (processed s ds) \<and> set (processed s ds) = {d \<in> set ds. \<not> seen s d}"
proof (induction ds arbitrary: s)
  case (Cons d ds)
  obtain fresh s' where n: "note_delivery s d = (fresh, s')"
    by (cases "note_delivery s d")
  then have fresh: "fresh \<longleftrightarrow> \<not> seen s d" and s': "\<And>e. seen s' e \<longleftrightarrow> e = d \<or> seen s e"
    using note_new [of s d] seen_note [of s d] by auto
  from Cons.IH [of s'] fresh s' n show ?case
    by auto
qed simp

end

interpretation memory_deliveries: delivery_store delivery_seen delivery_record
  by unfold_locales (auto simp: delivery_seen_def delivery_record_def)

text \<open>The deliveries a consumer acts on.\<close>

fun acted_on :: "InMemoryDeliveryStore \<Rightarrow> string list \<Rightarrow> string list" where
  "acted_on s [] = []"
| "acted_on s (d # ds) =
     (case delivery_record s d of (fresh, s') \<Rightarrow> if fresh then d # acted_on s' ds else acted_on s' ds)"

lemma acted_on_processed: "acted_on s ds = memory_deliveries.processed s ds"
  by (induction ds arbitrary: s) (simp_all split: prod.split)


end
