(* ===== verification/Platform_Types.thy ===== *)
theory Platform_Types
  imports Kit_Prelude
begin

text \<open>
  The shared domain types of \<open>crates/types\<close>: users, organisations, products and plans, and the contact
  form with its checks.  Times are integers, ids are 128-bit words.
\<close>

section \<open>Users, organisations and subscriptions\<close>

record User =
  u_id :: uuid
  u_email :: string
  u_name :: "string option"
  u_created_at :: int
  u_email_verified_at :: "int option"

record Organization =
  og_id :: uuid
  og_slug :: string
  og_name :: string
  og_created_at :: int

datatype Role = Owner | Admin | Member | Viewer

record Membership =
  m_user_id :: uuid
  m_organization_id :: uuid
  m_role :: Role
  m_ferrflow_role :: "Role option"
  m_ferrvault_role :: "Role option"
  m_ferrtrack_role :: "Role option"
  m_ferrgrowth_role :: "Role option"
  m_ferrfleet_role :: "Role option"
  m_joined_at :: int

datatype Plan = Free | Pro | Team | Enterprise

datatype Product = FerrFlow | FerrVault | FerrTrack | FerrGrowth | FerrFleet

fun product_slug :: "Product \<Rightarrow> string" where
  "product_slug FerrFlow = ''ferrflow''"
| "product_slug FerrVault = ''ferrvault''"
| "product_slug FerrTrack = ''ferrtrack''"
| "product_slug FerrGrowth = ''ferrgrowth''"
| "product_slug FerrFleet = ''ferrfleet''"

definition product_all :: "Product list" where
  "product_all = [FerrFlow, FerrVault, FerrTrack, FerrGrowth, FerrFleet]"

definition product_paid :: "Product list" where
  "product_paid = [FerrVault, FerrTrack, FerrGrowth, FerrFleet]"

definition product_is_paid :: "Product \<Rightarrow> bool" where
  "product_is_paid p \<longleftrightarrow> \<not> (case p of FerrFlow \<Rightarrow> True | _ \<Rightarrow> False)"

datatype SubscriptionStatus = Trialing | Active | PastDue | Canceled | Incomplete

record Subscription =
  sb_id :: uuid
  sb_org_id :: uuid
  sb_product :: Product
  sb_tier :: Plan
  sb_status :: SubscriptionStatus
  sb_trial_ends_at :: "int option"
  sb_current_period_end :: "int option"
  sb_stripe_subscription_id :: "string option"
  sb_created_at :: int
  sb_updated_at :: int

section \<open>The contact form\<close>

definition SUBJECT_MAX :: nat where "SUBJECT_MAX = 200"
definition MESSAGE_MAX :: nat where "MESSAGE_MAX = 10000"
definition EMAIL_MAX :: nat where "EMAIL_MAX = 254"
definition NAME_MAX :: nat where "NAME_MAX = 100"
definition FROM_URL_MAX :: nat where "FROM_URL_MAX = 2048"

datatype ContactProduct =
    CpFerrlabs | CpFerrflow | CpFerrvault | CpFerrtrack | CpFerrgrowth | CpFerrfleet | CpFerrlens
  | CpFerrgames | CpAwesomeAlternatives

fun contact_product_label :: "ContactProduct \<Rightarrow> string" where
  "contact_product_label CpFerrlabs = ''ferrlabs''"
| "contact_product_label CpFerrflow = ''ferrflow''"
| "contact_product_label CpFerrvault = ''ferrvault''"
| "contact_product_label CpFerrtrack = ''ferrtrack''"
| "contact_product_label CpFerrgrowth = ''ferrgrowth''"
| "contact_product_label CpFerrfleet = ''ferrfleet''"
| "contact_product_label CpFerrlens = ''ferrlens''"
| "contact_product_label CpFerrgames = ''ferrgames''"
| "contact_product_label CpAwesomeAlternatives = ''awesome-alternatives''"

fun contact_display_name :: "ContactProduct \<Rightarrow> string" where
  "contact_display_name CpFerrlabs = ''FerrLabs''"
| "contact_display_name CpFerrflow = ''FerrFlow''"
| "contact_display_name CpFerrvault = ''FerrVault''"
| "contact_display_name CpFerrtrack = ''FerrTrack''"
| "contact_display_name CpFerrgrowth = ''FerrGrowth''"
| "contact_display_name CpFerrfleet = ''FerrFleet''"
| "contact_display_name CpFerrlens = ''FerrLens''"
| "contact_display_name CpFerrgames = ''FerrGames''"
| "contact_display_name CpAwesomeAlternatives = ''awesome-alternatives''"

datatype RequestKind = RkQuestion | RkBug | RkBilling | RkSecurity | RkPrivacy | RkOther

fun request_kind_label :: "RequestKind \<Rightarrow> string" where
  "request_kind_label RkQuestion = ''question''"
| "request_kind_label RkBug = ''bug''"
| "request_kind_label RkBilling = ''billing''"
| "request_kind_label RkSecurity = ''security''"
| "request_kind_label RkPrivacy = ''privacy''"
| "request_kind_label RkOther = ''other''"

record ContactRequest =
  cr_request_id :: uuid
  cr_product :: ContactProduct
  cr_kind :: RequestKind
  cr_subject :: string
  cr_message :: string
  cr_email :: string
  cr_name :: "string option"
  cr_org_id :: "uuid option"
  cr_from_url :: "string option"

datatype InvalidContact = IcSubject | IcMessage | IcEmail | IcName | IcFromUrl

fun invalid_contact_display :: "InvalidContact \<Rightarrow> string" where
  "invalid_contact_display IcSubject = ''subject must be 1 to '' @ show_nat SUBJECT_MAX @ '' characters''"
| "invalid_contact_display IcMessage = ''message must be 1 to '' @ show_nat MESSAGE_MAX @ '' characters''"
| "invalid_contact_display IcEmail = ''email is not a valid address''"
| "invalid_contact_display IcName = ''name must be at most '' @ show_nat NAME_MAX @ '' characters''"
| "invalid_contact_display IcFromUrl =
     ''from_url must be an https URL of at most '' @ show_nat FROM_URL_MAX @ '' characters''"

definition filled_within :: "string \<Rightarrow> nat \<Rightarrow> bool" where
  "filled_within txt limit \<longleftrightarrow> trim txt \<noteq> [] \<and> char_count txt \<le> limit"

definition plausible_email :: "string \<Rightarrow> bool" where
  "plausible_email email =
     (if char_count email > EMAIL_MAX \<or> has_whitespace email then False
      else (case rsplit_once CHR ''@'' email of
              None \<Rightarrow> False
            | Some (locl, domain) \<Rightarrow>
                locl \<noteq> [] \<and> \<not> starts_with ''.'' domain \<and> \<not> suffix ''.'' domain \<and>
                CHR ''.'' \<in> set domain))"

definition https_url :: "string \<Rightarrow> bool" where
  "https_url url \<longleftrightarrow>
     char_count url \<le> FROM_URL_MAX \<and>
     (case strip_prefix ''https://'' url of
        None \<Rightarrow> False
      | Some rest \<Rightarrow> rest \<noteq> [] \<and> \<not> has_whitespace rest)"

definition contact_check :: "ContactRequest \<Rightarrow> (InvalidContact, unit) result" where
  "contact_check self =
     (if \<not> filled_within (cr_subject self) SUBJECT_MAX then Inl IcSubject
      else if \<not> filled_within (cr_message self) MESSAGE_MAX then Inl IcMessage
      else if \<not> plausible_email (cr_email self) then Inl IcEmail
      else if (case cr_name self of None \<Rightarrow> False | Some name \<Rightarrow> char_count name > NAME_MAX) then Inl IcName
      else if (case cr_from_url self of None \<Rightarrow> False | Some url \<Rightarrow> \<not> https_url url) then Inl IcFromUrl
      else Inr ())"

definition contact_labels :: "ContactRequest \<Rightarrow> string list" where
  "contact_labels self =
     [''contact'', contact_product_label (cr_product self), request_kind_label (cr_kind self)]"

section \<open>Facts\<close>

lemma product_slug_inj: "product_slug p = product_slug q \<longleftrightarrow> p = q"
  by (cases p; cases q) simp_all

lemma product_paid_iff: "p \<in> set product_paid \<longleftrightarrow> product_is_paid p"
  by (cases p) (simp_all add: product_paid_def product_is_paid_def)

lemma contact_product_label_inj: "contact_product_label p = contact_product_label q \<longleftrightarrow> p = q"
  by (cases p; cases q) simp_all

lemma request_kind_label_inj: "request_kind_label p = request_kind_label q \<longleftrightarrow> p = q"
  by (cases p; cases q) simp_all

lemma contact_labels_route:
  "contact_labels a = contact_labels b \<longleftrightarrow> cr_product a = cr_product b \<and> cr_kind a = cr_kind b"
  by (simp add: contact_labels_def contact_product_label_inj request_kind_label_inj)

lemma has_whitespace_ascii:
  "c \<in> {CHR 0x20, CHR 0x09, CHR 0x0A, CHR 0x0D} \<Longrightarrow> c \<in> set s \<Longrightarrow> has_whitespace s"
  unfolding has_whitespace_def ws_chars_def
  by (auto simp: sublist_def dest!: split_list)

text \<open>
  What an accepted address is good for: it can be put into a mail header without a line break, and
  its domain is what follows the last at sign.
\<close>

lemma plausible_email_shape:
  assumes "plausible_email email"
  shows "\<exists>locl domain. email = locl @ ''@'' @ domain \<and> locl \<noteq> [] \<and> CHR ''@'' \<notin> set domain \<and>
    CHR ''.'' \<in> set domain \<and> hd domain \<noteq> CHR ''.'' \<and> last domain \<noteq> CHR ''.'' \<and>
    CHR 0x0A \<notin> set email \<and> CHR 0x0D \<notin> set email"
proof -
  obtain locl domain where split: "rsplit_once CHR ''@'' email = Some (locl, domain)"
    and h: "locl \<noteq> []" "\<not> starts_with ''.'' domain" "\<not> suffix ''.'' domain" "CHR ''.'' \<in> set domain"
      "\<not> has_whitespace email"
    using assms by (auto simp: plausible_email_def simp del: rsplit_once_None_iff split: if_splits option.splits)
  from h(4) have ne: "domain \<noteq> []"
    by auto
  then have "hd domain \<noteq> CHR ''.''"
    using h(2) by (cases domain) (auto simp: starts_with_def)
  moreover from ne have "last domain \<noteq> CHR ''.''"
    using h(3) by (metis append_butlast_last_id suffixI)
  moreover have "CHR 0x0A \<notin> set email" "CHR 0x0D \<notin> set email"
    using h(5) has_whitespace_ascii by blast+
  ultimately show ?thesis
    using split h by (auto simp: rsplit_once_Some_iff)
qed

lemma contact_check_Inr_iff:
  "contact_check r = Inr () \<longleftrightarrow>
     filled_within (cr_subject r) SUBJECT_MAX \<and> filled_within (cr_message r) MESSAGE_MAX \<and> plausible_email (cr_email r) \<and>
     pred_option (\<lambda>n. char_count n \<le> NAME_MAX) (cr_name r) \<and> pred_option https_url (cr_from_url r)"
  by (auto simp: contact_check_def not_less split: option.splits)

lemma no_blank: "\<not> has_whitespace s \<Longrightarrow> CHR '' '' \<notin> set s"
  using has_whitespace_ascii [of "CHR 0x20" s] by auto

lemma https_url_shape: "https_url u \<Longrightarrow> \<exists>rest. u = ''https://'' @ rest \<and> rest \<noteq> [] \<and> CHR '' '' \<notin> set rest \<and> char_count u \<le> FROM_URL_MAX"
  by (auto simp: https_url_def strip_prefix_Some_iff split: option.splits dest: no_blank)


end
