(* ===== verification/Billing.thy ===== *)
theory Billing
  imports Webhook_Sig Platform_Types Api_Errors
begin

text \<open>
  Stripe billing of \<open>crates/billing\<close>: the signature check of a webhook, the parsing of its event, the
  client calls, and the metadata that ties the two together.  HMAC and hex coding come from
  \<open>sig_lib\<close>, JSON decoding and the Stripe API are parameters.
\<close>

section \<open>Errors\<close>

datatype StripeSignatureError = StMissingHeader | StMalformedHeader | StTimestampOutOfTolerance | StNoMatch

datatype BillingError =
    StripeFailed string
  | SignatureVerification StripeSignatureError
  | MalformedPayload string
  | MissingField string

fun api_error_from_billing :: "BillingError \<Rightarrow> ApiError" where
  "api_error_from_billing (SignatureVerification _) = Unauthorized"
| "api_error_from_billing (MalformedPayload msg) = BadRequest msg"
| "api_error_from_billing (MissingField field) = BadRequest field"
| "api_error_from_billing (StripeFailed e) = InternalError (''stripe: '' @ e)"

section \<open>The signature of a webhook\<close>

abbreviation DEFAULT_TOLERANCE_SECS :: int where "DEFAULT_TOLERANCE_SECS \<equiv> 300"

record ParsedHeader =
  ph_timestamp :: int
  ph_v1_signatures :: "string list"

text \<open>The loop over the pairs of the header, with the timestamp and the signatures found so far.\<close>

fun parse_pairs ::
  "sig_lib \<Rightarrow> int option \<Rightarrow> string list \<Rightarrow> string list
     \<Rightarrow> (StripeSignatureError, int option \<times> string list) result" where
  "parse_pairs lib ts sigs [] = Inr (ts, sigs)"
| "parse_pairs lib ts sigs (pair # pairs) =
     try_bind (ok_or StMalformedHeader (split_once CHR ''='' pair)) (\<lambda>(key, val).
     if trim key = ''t'' then
       try_bind (ok_or StMalformedHeader (parse_i64 (trim val))) (\<lambda>t. parse_pairs lib (Some t) sigs pairs)
     else if trim key = ''v1'' then
       try_bind (ok_or StMalformedHeader (hex_decode lib (trim val))) (\<lambda>b. parse_pairs lib ts (sigs @ [b]) pairs)
     else parse_pairs lib ts sigs pairs)"

definition parse_signature_header :: "sig_lib \<Rightarrow> string \<Rightarrow> (StripeSignatureError, ParsedHeader) result" where
  "parse_signature_header lib header =
     try_bind (parse_pairs lib None [] (split_on CHR '','' header)) (\<lambda>(timestamp, v1_signatures).
     try_bind (ok_or StMalformedHeader timestamp) (\<lambda>timestamp.
     if v1_signatures = [] then Inl StMalformedHeader
     else Inr \<lparr>ph_timestamp = timestamp, ph_v1_signatures = v1_signatures\<rparr>))"

definition expected_signature :: "sig_lib \<Rightarrow> string \<Rightarrow> int \<Rightarrow> string \<Rightarrow> string" where
  "expected_signature lib secret timestamp body =
     hmac_sha256 lib secret (show_int timestamp @ ''.'' @ body)"

definition verify_signature ::
  "sig_lib \<Rightarrow> string \<Rightarrow> string \<Rightarrow> string \<Rightarrow> int \<Rightarrow> int \<Rightarrow> (StripeSignatureError, int) result" where
  "verify_signature lib payload signature_header secret now tolerance_secs =
     try_bind (parse_signature_header lib signature_header) (\<lambda>parsed.
     let tolerance = max tolerance_secs 0 in
     if \<bar>now - ph_timestamp parsed\<bar> > tolerance then Inl StTimestampOutOfTolerance
     else
       let expected = expected_signature lib secret (ph_timestamp parsed) payload;
           matched = list_ex (\<lambda>candidate. candidate = expected) (ph_v1_signatures parsed)
       in if matched then Inr (ph_timestamp parsed) else Inl StNoMatch)"

definition verify_optional_signature ::
  "sig_lib \<Rightarrow> string \<Rightarrow> string option \<Rightarrow> string \<Rightarrow> int \<Rightarrow> int \<Rightarrow> (StripeSignatureError, int) result" where
  "verify_optional_signature lib payload signature_header secret now tolerance_secs =
     try_bind (ok_or StMissingHeader signature_header) (\<lambda>header.
     verify_signature lib payload header secret now tolerance_secs)"

section \<open>Events\<close>

record SubscriptionChange =
  sc_stripe_subscription_id :: string
  sc_stripe_customer_id :: string
  sc_org_id :: string
  sc_product :: Product
  sc_tier :: Plan
  sc_status :: SubscriptionStatus

datatype WebhookEvent =
    InvoicePaid SubscriptionChange
  | SubscriptionUpdated SubscriptionChange
  | SubscriptionDeleted SubscriptionChange
  | OtherEvent string

record 'j RawEvent =
  re_event_type :: string
  re_object :: 'j

record Metadata =
  md_org_id :: "string option"
  md_product :: "string option"
  md_tier :: "string option"

record RawSubscriptionObject =
  rs_id :: string
  rs_customer :: string
  rs_status :: string
  rs_metadata :: Metadata

record InvoiceLine =
  il_metadata :: Metadata
  il_subscription :: "string option"

record RawInvoiceObject =
  ri_subscription :: "string option"
  ri_customer :: string
  ri_metadata :: Metadata
  ri_lines :: "InvoiceLine list"

text \<open>The JSON decoders of the library, each failing with a message.\<close>

record 'j event_json =
  ej_event :: "string \<Rightarrow> (string, 'j RawEvent) result"
  ej_subscription :: "'j \<Rightarrow> (string, RawSubscriptionObject) result"
  ej_invoice :: "'j \<Rightarrow> (string, RawInvoiceObject) result"

definition product_from_slug :: "string \<Rightarrow> Product option" where
  "product_from_slug slug = find (\<lambda>p. product_slug p = slug) product_all"

definition tier_from_str :: "string \<Rightarrow> Plan" where
  "tier_from_str val =
     (if val = ''pro'' then Pro else if val = ''team'' then Team
      else if val = ''enterprise'' then Enterprise else Free)"

definition status_from_stripe :: "string \<Rightarrow> SubscriptionStatus" where
  "status_from_stripe val =
     (if val = ''trialing'' then Trialing else if val = ''active'' then Active
      else if val = ''past_due'' \<or> val = ''unpaid'' then PastDue
      else if val = ''canceled'' then Canceled else Incomplete)"

definition change_from_subscription ::
  "RawSubscriptionObject \<Rightarrow> SubscriptionStatus option \<Rightarrow> (BillingError, SubscriptionChange) result" where
  "change_from_subscription raw status_override =
     try_bind (ok_or (MissingField ''metadata.org_id'') (md_org_id (rs_metadata raw))) (\<lambda>org_id.
     try_bind (ok_or (MissingField ''metadata.product'') (md_product (rs_metadata raw))) (\<lambda>slug.
     try_bind (ok_or (MissingField ''metadata.product (unknown slug)'') (product_from_slug slug)) (\<lambda>prod.
     let tier = (case md_tier (rs_metadata raw) of None \<Rightarrow> Free | Some t \<Rightarrow> tier_from_str t)
     in Inr \<lparr>sc_stripe_subscription_id = rs_id raw, sc_stripe_customer_id = rs_customer raw,
             sc_org_id = org_id, sc_product = prod, sc_tier = tier,
             sc_status = (case status_override of Some s \<Rightarrow> s | None \<Rightarrow> status_from_stripe (rs_status raw))\<rparr>)))"

definition change_from_invoice :: "RawInvoiceObject \<Rightarrow> (BillingError, SubscriptionChange) result" where
  "change_from_invoice raw =
     (let line_meta = (case ri_lines raw of [] \<Rightarrow> None | l # _ \<Rightarrow> Some l);
          metadata = (if md_org_id (ri_metadata raw) \<noteq> None then ri_metadata raw
                      else (case line_meta of None \<Rightarrow> ri_metadata raw | Some l \<Rightarrow> il_metadata l))
      in try_bind (ok_or (MissingField ''metadata.org_id'') (md_org_id metadata)) (\<lambda>org_id.
         try_bind (ok_or (MissingField ''metadata.product'') (md_product metadata)) (\<lambda>slug.
         try_bind (ok_or (MissingField ''metadata.product (unknown slug)'') (product_from_slug slug)) (\<lambda>prod.
         let tier = (case md_tier metadata of None \<Rightarrow> Free | Some t \<Rightarrow> tier_from_str t)
         in try_bind (ok_or (MissingField ''subscription'')
              (case ri_subscription raw of Some s \<Rightarrow> Some s
               | None \<Rightarrow> Option.bind line_meta il_subscription)) (\<lambda>subscription_id.
            Inr \<lparr>sc_stripe_subscription_id = subscription_id, sc_stripe_customer_id = ri_customer raw,
                 sc_org_id = org_id, sc_product = prod, sc_tier = tier, sc_status = Active\<rparr>)))))"

definition parse_event :: "'j event_json \<Rightarrow> string \<Rightarrow> (BillingError, WebhookEvent) result" where
  "parse_event json payload =
     try_bind (map_err MalformedPayload (ej_event json payload)) (\<lambda>raw.
     if re_event_type raw = ''invoice.paid'' then
       try_bind (map_err MalformedPayload (ej_invoice json (re_object raw))) (\<lambda>invoice.
       try_bind (change_from_invoice invoice) (\<lambda>c. Inr (InvoicePaid c)))
     else if re_event_type raw = ''customer.subscription.updated'' then
       try_bind (map_err MalformedPayload (ej_subscription json (re_object raw))) (\<lambda>sub.
       try_bind (change_from_subscription sub None) (\<lambda>c. Inr (SubscriptionUpdated c)))
     else if re_event_type raw = ''customer.subscription.deleted'' then
       try_bind (map_err MalformedPayload (ej_subscription json (re_object raw))) (\<lambda>sub.
       try_bind (change_from_subscription sub (Some Canceled)) (\<lambda>c. Inr (SubscriptionDeleted c)))
     else Inr (OtherEvent (re_event_type raw)))"

section \<open>The client\<close>

record PlanPrice =
  pp_product :: Product
  pp_tier :: Plan
  pp_price_id :: string

fun tier_slug :: "Plan \<Rightarrow> string" where
  "tier_slug Free = ''free''"
| "tier_slug Pro = ''pro''"
| "tier_slug Team = ''team''"
| "tier_slug Enterprise = ''enterprise''"

definition subscription_metadata :: "string \<Rightarrow> PlanPrice \<Rightarrow> (string \<rightharpoonup> string)" where
  "subscription_metadata org_id plan =
     [''org_id'' \<mapsto> org_id, ''product'' \<mapsto> product_slug (pp_product plan), ''tier'' \<mapsto> tier_slug (pp_tier plan)]"

datatype 'c RetrieveCustomerReturned = ReturnedCustomer 'c | DeletedCustomer

record ('c, 's) stripe_api =
  st_customer_id :: "string \<Rightarrow> string option"
  st_subscription_id :: "string \<Rightarrow> string option"
  st_retrieve_customer :: "string \<Rightarrow> (string, 'c RetrieveCustomerReturned) result"
  st_create_customer :: "string \<Rightarrow> (string \<rightharpoonup> string) \<Rightarrow> (string, 'c) result"
  st_create_subscription :: "string \<Rightarrow> string list \<Rightarrow> (string \<rightharpoonup> string) \<Rightarrow> (string, 's) result"
  st_retrieve_subscription :: "string \<Rightarrow> (string, 's) result"
  st_item_ids :: "'s \<Rightarrow> string list"
  st_update_subscription :: "string \<Rightarrow> (string \<times> string) list \<Rightarrow> (string \<rightharpoonup> string) \<Rightarrow> (string, 's) result"
  st_cancel_subscription :: "string \<Rightarrow> (string, 's) result"

definition ensure_customer ::
  "('c, 's) stripe_api \<Rightarrow> string \<Rightarrow> string \<Rightarrow> string option \<Rightarrow> (BillingError, 'c) result" where
  "ensure_customer api org_id email existing_customer_id =
     (case existing_customer_id of
        Some i \<Rightarrow>
          try_bind (ok_or (MissingField ''stripe_customer_id'') (st_customer_id api i)) (\<lambda>customer_id.
          try_bind (map_err StripeFailed (st_retrieve_customer api customer_id)) (\<lambda>r.
          case r of ReturnedCustomer c \<Rightarrow> Inr c | DeletedCustomer \<Rightarrow> Inl (MissingField ''customer is deleted'')))
      | None \<Rightarrow> map_err StripeFailed (st_create_customer api email [''org_id'' \<mapsto> org_id]))"

definition create_subscription ::
  "('c, 's) stripe_api \<Rightarrow> string \<Rightarrow> string \<Rightarrow> PlanPrice \<Rightarrow> (BillingError, 's) result" where
  "create_subscription api customer_id org_id plan =
     try_bind (ok_or (MissingField ''stripe_customer_id'') (st_customer_id api customer_id)) (\<lambda>customer.
     map_err StripeFailed
       (st_create_subscription api customer [pp_price_id plan] (subscription_metadata org_id plan)))"

definition update_tier ::
  "('c, 's) stripe_api \<Rightarrow> string \<Rightarrow> string \<Rightarrow> PlanPrice \<Rightarrow> (BillingError, 's) result" where
  "update_tier api subscription_id org_id plan =
     try_bind (ok_or (MissingField ''stripe_subscription_id'') (st_subscription_id api subscription_id)) (\<lambda>sub_id.
     try_bind (map_err StripeFailed (st_retrieve_subscription api sub_id)) (\<lambda>current.
     try_bind (ok_or (MissingField ''subscription has no items'')
         (case st_item_ids api current of [] \<Rightarrow> None | i # _ \<Rightarrow> Some i)) (\<lambda>item_id.
     map_err StripeFailed
       (st_update_subscription api sub_id [(item_id, pp_price_id plan)] (subscription_metadata org_id plan)))))"

definition cancel_subscription :: "('c, 's) stripe_api \<Rightarrow> string \<Rightarrow> (BillingError, 's) result" where
  "cancel_subscription api subscription_id =
     try_bind (ok_or (MissingField ''stripe_subscription_id'') (st_subscription_id api subscription_id)) (\<lambda>sub_id.
     map_err StripeFailed (st_cancel_subscription api sub_id))"

definition get_subscription :: "('c, 's) stripe_api \<Rightarrow> string \<Rightarrow> (BillingError, 's) result" where
  "get_subscription api subscription_id =
     try_bind (ok_or (MissingField ''stripe_subscription_id'') (st_subscription_id api subscription_id)) (\<lambda>sub_id.
     map_err StripeFailed (st_retrieve_subscription api sub_id))"

section \<open>Only signed events pass\<close>

definition v1_entry :: "sig_lib \<Rightarrow> string list \<Rightarrow> string \<Rightarrow> bool" where
  "v1_entry lib pairs b \<longleftrightarrow>
     (\<exists>k v. k @ ''='' @ v \<in> set pairs \<and> trim k = ''v1'' \<and> hex_decode lib (trim v) = Some b)"

lemma v1_entry_Cons:
  "v1_entry lib (pair # pairs) b \<longleftrightarrow>
     v1_entry lib pairs b \<or> (\<exists>k v. pair = k @ ''='' @ v \<and> trim k = ''v1'' \<and> hex_decode lib (trim v) = Some b)"
  by (auto simp: v1_entry_def)

lemma parse_pairs_sound:
  "parse_pairs lib ts sigs ps = Inr (ts', sigs') \<Longrightarrow> b \<in> set sigs' \<Longrightarrow> b \<in> set sigs \<or> v1_entry lib ps b"
proof (induction ps arbitrary: ts sigs)
  case (Cons pair ps)
  obtain k v where kv: "split_once CHR ''='' pair = Some (k, v)"
    using Cons.prems(1) by (cases "split_once CHR ''='' pair") (auto simp del: split_once_None_iff)
  then have pair: "pair = k @ ''='' @ v"
    by (simp add: split_once_Some_iff)
  have "(\<exists>ts. parse_pairs lib ts sigs ps = Inr (ts', sigs')) \<or>
      (\<exists>c. trim k = ''v1'' \<and> hex_decode lib (trim v) = Some c \<and>
         parse_pairs lib ts (sigs @ [c]) ps = Inr (ts', sigs'))"
    using Cons.prems(1) kv by (auto simp: result_simps split: if_splits)
  then show ?case
    using Cons.IH [OF _ Cons.prems(2)] pair unfolding v1_entry_Cons
    by (elim disjE exE conjE) fastforce+
qed simp

text \<open>
  C14: only events Stripe signed are accepted.  When a webhook passes, whatever else its header
  contains, one of its \<open>v1\<close> entries is the hex form of the HMAC, under the endpoint's secret, of
  the timestamp returned and of this very body, and that timestamp is within the tolerance of the
  clock; a tolerance below zero counts as zero.
\<close>

theorem accepted_event_is_signed:
  assumes "verify_optional_signature lib payload header secret now tolerance = Inr t"
  shows "\<exists>h. header = Some h \<and> \<bar>now - t\<bar> \<le> max tolerance 0 \<and>
    v1_entry lib (split_on CHR '','' h) (hmac_sha256 lib secret (show_int t @ ''.'' @ payload))"
proof -
  obtain h ts sigs where h: "header = Some h"
    and p: "parse_pairs lib None [] (split_on CHR '','' h) = Inr (Some ts, sigs)"
    and v: "\<bar>now - ts\<bar> \<le> max tolerance 0" "t = ts" "expected_signature lib secret ts payload \<in> set sigs"
    using assms
    by (auto simp: verify_optional_signature_def verify_signature_def parse_signature_header_def
        result_simps Let_def list_ex_iff split: if_splits)
  with parse_pairs_sound [OF p] show ?thesis
    by (auto simp: expected_signature_def)
qed

section \<open>What the client writes, the events read back\<close>

interpretation product_wire: wire_enum product_slug product_from_slug product_all
proof
  fix p :: Product and s
  show "product_from_slug (product_slug p) = Some p"
    by (cases p) (simp_all add: product_from_slug_def product_all_def)
  show "product_from_slug s = Some p \<Longrightarrow> s = product_slug p"
    by (auto simp: product_from_slug_def find_Some_iff)
  show "p \<in> set product_all"
    by (cases p) (simp_all add: product_all_def)
qed

lemma tier_roundtrip: "tier_from_str (tier_slug t) = t"
  by (cases t) (simp_all add: tier_from_str_def)

text \<open>The metadata object as the JSON decoder reads it from the map the client sent.\<close>

definition metadata_of :: "(string \<rightharpoonup> string) \<Rightarrow> Metadata" where
  "metadata_of m = \<lparr>md_org_id = m ''org_id'', md_product = m ''product'', md_tier = m ''tier''\<rparr>"

lemma change_from_own_metadata:
  assumes "rs_metadata raw = metadata_of (subscription_metadata org_id plan)"
  shows "change_from_subscription raw override = Inr
    \<lparr>sc_stripe_subscription_id = rs_id raw, sc_stripe_customer_id = rs_customer raw, sc_org_id = org_id,
     sc_product = pp_product plan, sc_tier = pp_tier plan,
     sc_status = (case override of Some s \<Rightarrow> s | None \<Rightarrow> status_from_stripe (rs_status raw))\<rparr>"
  using assms
  by (simp add: change_from_subscription_def metadata_of_def subscription_metadata_def
      product_wire.parse_as_str tier_roundtrip)


text \<open>A decoder that knows one event, about a paid plan.\<close>

definition one_event_plan :: PlanPrice where
  "one_event_plan = \<lparr>pp_product = FerrVault, pp_tier = Team, pp_price_id = ''price_1''\<rparr>"

definition one_event_raw :: RawSubscriptionObject where
  "one_event_raw = \<lparr>rs_id = ''sub_1'', rs_customer = ''cus_1'', rs_status = ''active'',
     rs_metadata = metadata_of (subscription_metadata ''acme'' one_event_plan)\<rparr>"

definition one_event_json :: "unit event_json" where
  "one_event_json =
     \<lparr>ej_event = (\<lambda>_. Inr \<lparr>re_event_type = ''customer.subscription.deleted'', re_object = ()\<rparr>),
      ej_subscription = (\<lambda>_. Inr one_event_raw), ej_invoice = (\<lambda>_. Inl ''no invoice'')\<rparr>"


theorem accepted_event_is_signed_witness:
  "\<exists>h. Some ''t=7,v1=6b372e62'' = Some h \<and> \<bar>9 - 7\<bar> \<le> max 5 (0::int) \<and>
    v1_entry plain_sig_lib (split_on CHR '','' h) (hmac_sha256 plain_sig_lib ''k'' (show_int 7 @ ''.'' @ ''b''))"
proof -
  have "hex_decode plain_sig_lib ''6b372e62'' = Some ''k7.b''"
    unfolding plain_sig_lib_def by code_simp
  moreover have "expected_signature plain_sig_lib ''k'' 7 ''b'' = ''k7.b''"
    unfolding plain_sig_lib_def by code_simp
  moreover have "parse_i64 ''7'' = Some 7"
    by code_simp
  ultimately have "verify_optional_signature plain_sig_lib ''b'' (Some ''t=7,v1=6b372e62'') ''k'' 9 5 = Inr 7"
    by (simp add: verify_optional_signature_def verify_signature_def parse_signature_header_def
        split_once_def trim_all_printable printable_def Let_def)
  then show ?thesis
    by (rule accepted_event_is_signed)
qed

end
