(* ===== verification/License_Key.thy ===== *)
theory License_Key
  imports Auth_Token
begin

text \<open>
  Offline licences of \<open>crates/license\<close>: the verifier, the signer and the minting tool.

  The JWT library is given by its functions \<open>encode\<close> and \<open>decode\<close>, chrono by \<open>lk_from_timestamp\<close>,
  \<open>lk_timestamp\<close> and \<open>lk_add_days\<close>; \<open>licence_jwt_ok\<close> and \<open>chrono_ok\<close> state what their documentation promises.
\<close>

section \<open>Types\<close>

definition LICENSE_ISSUER :: string where "LICENSE_ISSUER = ''ferrlabs-licensing''"

datatype LicenseError =
    LicInvalid
  | LicExpired
  | LicNotYetValid
  | LicWrongIssuer
  | LicWrongProduct
  | LicKeyLoad string
  | LicInternal

fun license_error_display :: "LicenseError \<Rightarrow> string" where
  "license_error_display LicInvalid = ''license is malformed or signed with the wrong key''"
| "license_error_display LicExpired = ''license has expired''"
| "license_error_display LicNotYetValid = ''license is not valid yet''"
| "license_error_display LicWrongIssuer = ''license issuer does not match''"
| "license_error_display LicWrongProduct = ''license is for a different product''"
| "license_error_display (LicKeyLoad e) = ''failed to load license key: '' @ e"
| "license_error_display LicInternal = ''internal license error''"

datatype LicenseKind = AdminKind | CustomerKind

datatype LicenseTier = FreeTier | ProTier | TeamTier | EnterpriseTier

record LicenseClaims =
  lc_sub :: string
  lc_iss :: string
  lc_aud :: string
  lc_exp :: int
  lc_iat :: int
  lc_nbf :: int
  lc_kind :: LicenseKind
  lc_tier :: LicenseTier
  lc_org :: "string option"
  lc_seats :: "32 word option"
  lc_features :: "string list"

record 't License =
  li_id :: string
  li_product :: string
  li_org :: "string option"
  li_kind :: LicenseKind
  li_tier :: LicenseTier
  li_seats :: "32 word option"
  li_features :: "string list"
  li_issued_at :: 't
  li_expires_at :: 't

text \<open>The fields of a specification are those of a licence.\<close>

type_synonym 't LicenseSpec = "'t License"

record 't chrono =
  lk_from_timestamp :: "int \<Rightarrow> 't option"
  lk_timestamp :: "'t \<Rightarrow> int"
  lk_add_days :: "'t \<Rightarrow> int \<Rightarrow> 't option"

section \<open>What a licence allows\<close>

definition license_is_admin :: "'t License \<Rightarrow> bool" where
  "license_is_admin self = (case li_kind self of AdminKind \<Rightarrow> True | _ \<Rightarrow> False)"

definition license_allows :: "'t License \<Rightarrow> string \<Rightarrow> bool" where
  "license_allows self feature \<longleftrightarrow>
     license_is_admin self \<or> list_ex (\<lambda>f. f = feature) (li_features self)"

definition license_seat_limit :: "'t License \<Rightarrow> 32 word option" where
  "license_seat_limit self = (if license_is_admin self then None else li_seats self)"

section \<open>Verifying\<close>

definition license_verifier_from_pem ::
  "(string \<Rightarrow> (string, 'dk) result) \<Rightarrow> string \<Rightarrow> (LicenseError, 'dk) result" where
  "license_verifier_from_pem decoding_from_pem public_pem =
     map_err (\<lambda>e. LicKeyLoad (''public key: '' @ e)) (decoding_from_pem public_pem)"

definition map_jwt_err :: "ErrorKind \<Rightarrow> LicenseError" where
  "map_jwt_err e =
     (case e of
        ExpiredSignature \<Rightarrow> LicExpired
      | ImmatureSignature \<Rightarrow> LicNotYetValid
      | InvalidIssuer \<Rightarrow> LicWrongIssuer
      | InvalidAudience \<Rightarrow> LicWrongProduct
      | _ \<Rightarrow> LicInvalid)"

definition license_validation :: "Validation \<Rightarrow> string \<Rightarrow> Validation" where
  "license_validation new prd =
     new\<lparr>v_iss := Some [LICENSE_ISSUER], v_aud := Some [prd],
         v_required_spec_claims := [''exp'', ''iss'', ''aud'', ''nbf''],
         v_validate_exp := True, v_validate_nbf := True, v_leeway := 0\<rparr>"

definition license_verify ::
  "(string \<Rightarrow> 'dk \<Rightarrow> Validation \<Rightarrow> (ErrorKind, LicenseClaims) result) \<Rightarrow> Validation \<Rightarrow> 't chrono \<Rightarrow> 'dk
     \<Rightarrow> string \<Rightarrow> string \<Rightarrow> (LicenseError, 't License) result" where
  "license_verify decode new ch dk token prd =
     try_bind (map_err map_jwt_err (decode token dk (license_validation new prd))) (\<lambda>claims.
     try_bind (ok_or LicInvalid (lk_from_timestamp ch (lc_iat claims))) (\<lambda>issued.
     try_bind (ok_or LicInvalid (lk_from_timestamp ch (lc_exp claims))) (\<lambda>expires.
     Inr \<lparr>li_id = lc_sub claims, li_product = lc_aud claims, li_org = lc_org claims,
          li_kind = lc_kind claims, li_tier = lc_tier claims, li_seats = lc_seats claims,
          li_features = lc_features claims, li_issued_at = issued, li_expires_at = expires\<rparr>)))"

section \<open>Signing\<close>

definition license_signer_from_pem ::
  "(string \<Rightarrow> (string, 'ek) result) \<Rightarrow> string \<Rightarrow> (LicenseError, 'ek) result" where
  "license_signer_from_pem encoding_from_pem private_pem =
     map_err (\<lambda>e. LicKeyLoad (''private key: '' @ e)) (encoding_from_pem private_pem)"

definition license_sign ::
  "(LicenseClaims \<Rightarrow> 'ek \<Rightarrow> (ErrorKind, string) result) \<Rightarrow> 't chrono \<Rightarrow> 'ek \<Rightarrow> 't LicenseSpec
     \<Rightarrow> (LicenseError, string) result" where
  "license_sign encode ch ek spec =
     (let claims = \<lparr>lc_sub = li_id spec, lc_iss = LICENSE_ISSUER, lc_aud = li_product spec,
                    lc_exp = lk_timestamp ch (li_expires_at spec),
                    lc_iat = lk_timestamp ch (li_issued_at spec),
                    lc_nbf = lk_timestamp ch (li_issued_at spec),
                    lc_kind = li_kind spec, lc_tier = li_tier spec, lc_org = li_org spec,
                    lc_seats = li_seats spec, lc_features = li_features spec\<rparr>
      in map_err (\<lambda>_. LicInternal) (encode claims ek))"

section \<open>The minting tool\<close>

datatype KindArg = KindAdmin | KindCustomer

datatype TierArg = TierFree | TierPro | TierTeam | TierEnterprise

fun kind_from_arg :: "KindArg \<Rightarrow> LicenseKind" where
  "kind_from_arg KindAdmin = AdminKind"
| "kind_from_arg KindCustomer = CustomerKind"

fun tier_from_arg :: "TierArg \<Rightarrow> LicenseTier" where
  "tier_from_arg TierFree = FreeTier"
| "tier_from_arg TierPro = ProTier"
| "tier_from_arg TierTeam = TeamTier"
| "tier_from_arg TierEnterprise = EnterpriseTier"

record Args =
  a_key :: string
  a_id :: string
  a_product :: string
  a_kind :: KindArg
  a_tier :: TierArg
  a_org :: "string option"
  a_seats :: "32 word option"
  a_features :: string
  a_expires_in_days :: int

definition parse_features :: "string \<Rightarrow> string list" where
  "parse_features raw = filter (\<lambda>f. f \<noteq> []) (map trim (split_on CHR '','' raw))"

text \<open>The outcome of the tool: what it prints, or what it complains about; \<open>None\<close> is a panic of chrono.\<close>

datatype exit_code = Printed string | Complained string

definition licensegen_main ::
  "(string \<Rightarrow> (string, string) result) \<Rightarrow> (string \<Rightarrow> (string, 'ek) result)
     \<Rightarrow> (LicenseClaims \<Rightarrow> 'ek \<Rightarrow> (ErrorKind, string) result) \<Rightarrow> 't chrono \<Rightarrow> 't \<Rightarrow> Args \<Rightarrow> exit_code option" where
  "licensegen_main read_file encoding_from_pem encode ch now args =
     (case read_file (a_key args) of
        Inl e \<Rightarrow> Some (Complained (''reading key '' @ a_key args @ '': '' @ e))
      | Inr key \<Rightarrow>
          (case license_signer_from_pem encoding_from_pem key of
             Inl e \<Rightarrow> Some (Complained (''loading signer: '' @ license_error_display e))
           | Inr signer \<Rightarrow>
               map_option (\<lambda>expires.
                 (let spec = \<lparr>li_id = a_id args, li_product = a_product args, li_org = a_org args,
                              li_kind = kind_from_arg (a_kind args), li_tier = tier_from_arg (a_tier args),
                              li_seats = a_seats args, li_features = parse_features (a_features args),
                              li_issued_at = now, li_expires_at = expires\<rparr>
                  in case license_sign encode ch signer spec of
                       Inr token \<Rightarrow> Printed token
                     | Inl e \<Rightarrow> Complained (''signing: '' @ license_error_display e)))
                 (lk_add_days ch now (a_expires_in_days args))))"

section \<open>What the libraries promise\<close>

text \<open>The checks of a validation on the claims of a licence.\<close>

definition claims_pass :: "int \<Rightarrow> Validation \<Rightarrow> LicenseClaims \<Rightarrow> bool" where
  "claims_pass now v c \<longleftrightarrow>
     (v_validate_exp v \<longrightarrow> now \<le> lc_exp c + int (v_leeway v)) \<and>
     (v_validate_nbf v \<longrightarrow> lc_nbf c \<le> now + int (v_leeway v)) \<and>
     (\<forall>is. v_iss v = Some is \<longrightarrow> lc_iss c \<in> set is) \<and>
     (\<forall>as. v_aud v = Some as \<longrightarrow> lc_aud c \<in> set as)"

text \<open>
  A token carries its claims and the mark of the key that signed it.  Decoding succeeds exactly for a
  token with the mark of the given key whose claims pass, and encoding gives a token with the mark
  of the matching key.
\<close>

definition licence_jwt_ok ::
  "(string \<Rightarrow> 'dk \<Rightarrow> LicenseClaims \<Rightarrow> bool) \<Rightarrow> int
     \<Rightarrow> (LicenseClaims \<Rightarrow> 'ek \<Rightarrow> (ErrorKind, string) result)
     \<Rightarrow> (string \<Rightarrow> 'dk \<Rightarrow> Validation \<Rightarrow> (ErrorKind, LicenseClaims) result) \<Rightarrow> ('ek \<Rightarrow> 'dk) \<Rightarrow> bool" where
  "licence_jwt_ok carries now encode decode public \<longleftrightarrow>
     (\<forall>token key v c. decode token key v = Inr c \<longleftrightarrow> carries token key c \<and> claims_pass now v c) \<and>
     (\<forall>c ek token. encode c ek = Inr token \<longrightarrow> carries token (public ek) c)"

definition chrono_ok :: "'t chrono \<Rightarrow> bool" where
  "chrono_ok ch \<longleftrightarrow> (\<forall>t. \<exists>u. lk_from_timestamp ch (lk_timestamp ch t) = Some u \<and> lk_timestamp ch u = lk_timestamp ch t) \<and>
     (\<forall>s u. lk_from_timestamp ch s = Some u \<longrightarrow> lk_timestamp ch u = s)"

section \<open>Licences open what they were minted for\<close>

lemma claims_pass_license:
  "claims_pass now (license_validation new prd) c \<longleftrightarrow>
     now \<le> lc_exp c \<and> lc_nbf c \<le> now \<and> lc_iss c = LICENSE_ISSUER \<and> lc_aud c = prd"
  by (auto simp: claims_pass_def license_validation_def)


text \<open>
  C31: what the tool mints, the product accepts.  A token printed by the minting tool verifies, with the
  matching public key, for the product it was minted for and at any second from its issue to its
  expiry; the licence has the id, organisation, kind, tier and seats of the command line, and the
  features of its list with white space and empty entries dropped.
\<close>

theorem minted_license_verifies:
  assumes "licence_jwt_ok carries now encode decode public" and "chrono_ok ch"
    and "encoding_from_pem pem = Inr ek" and "read_file (a_key args) = Inr pem"
    and "licensegen_main read_file encoding_from_pem encode ch minted args = Some (Printed token)"
    and "lk_add_days ch minted (a_expires_in_days args) = Some expires"
    and "lk_timestamp ch minted \<le> now" and "now \<le> lk_timestamp ch expires"
  shows "\<exists>l. license_verify decode new ch (public ek) token (a_product args) = Inr l \<and>
    li_id l = a_id args \<and> li_org l = a_org args \<and> li_kind l = kind_from_arg (a_kind args) \<and>
    li_tier l = tier_from_arg (a_tier args) \<and> li_seats l = a_seats args \<and>
    li_features l = filter (\<lambda>f. f \<noteq> []) (map trim (split_on CHR '','' (a_features args)))"
proof -
  define c where "c = \<lparr>lc_sub = a_id args, lc_iss = LICENSE_ISSUER, lc_aud = a_product args,
      lc_exp = lk_timestamp ch expires, lc_iat = lk_timestamp ch minted, lc_nbf = lk_timestamp ch minted,
      lc_kind = kind_from_arg (a_kind args), lc_tier = tier_from_arg (a_tier args), lc_org = a_org args,
      lc_seats = a_seats args, lc_features = parse_features (a_features args)\<rparr>"
  have "encode c ek = Inr token"
    using assms(3-6)
    by (auto simp: licensegen_main_def license_signer_from_pem_def license_sign_def Let_def c_def split: sum.splits)
  then have "decode token (public ek) (license_validation new (a_product args)) = Inr c"
    using assms(1,7,8) by (simp add: licence_jwt_ok_def claims_pass_license c_def)
  moreover obtain i e where "lk_from_timestamp ch (lk_timestamp ch minted) = Some i"
    "lk_from_timestamp ch (lk_timestamp ch expires) = Some e"
    using assms(2) unfolding chrono_ok_def by blast
  ultimately show ?thesis
    by (simp add: license_verify_def c_def parse_features_def)
qed

text \<open>A library that signs one licence, valid in the seconds 0 to 86400.\<close>

definition demo_claims :: LicenseClaims where
  "demo_claims = \<lparr>lc_sub = ''lic_1'', lc_iss = LICENSE_ISSUER, lc_aud = ''ferrvault'', lc_exp = 86400,
     lc_iat = 0, lc_nbf = 0, lc_kind = CustomerKind, lc_tier = TeamTier, lc_org = None, lc_seats = Some 25,
     lc_features = parse_features ''audit''\<rparr>"

definition demo_carries :: "string \<Rightarrow> nat \<Rightarrow> LicenseClaims \<Rightarrow> bool" where
  "demo_carries token key c \<longleftrightarrow> token = ''tok'' \<and> key = 1 \<and> c = demo_claims"

definition demo_encode :: "LicenseClaims \<Rightarrow> nat \<Rightarrow> (ErrorKind, string) result" where
  "demo_encode c ek = (if c = demo_claims \<and> ek = 1 then Inr ''tok'' else Inl (OtherKind ''x''))"

definition demo_decode :: "int \<Rightarrow> string \<Rightarrow> nat \<Rightarrow> Validation \<Rightarrow> (ErrorKind, LicenseClaims) result" where
  "demo_decode now token key v =
     (if token = ''tok'' \<and> key = 1 \<and> claims_pass now v demo_claims then Inr demo_claims else Inl InvalidSignature)"

definition demo_chrono :: "int chrono" where
  "demo_chrono = \<lparr>lk_from_timestamp = Some, lk_timestamp = (\<lambda>t. t), lk_add_days = (\<lambda>t d. Some (t + 86400 * d))\<rparr>"

definition demo_args :: Args where
  "demo_args = \<lparr>a_key = ''k.pem'', a_id = ''lic_1'', a_product = ''ferrvault'', a_kind = KindCustomer,
     a_tier = TierTeam, a_org = None, a_seats = Some 25, a_features = ''audit'', a_expires_in_days = 1\<rparr>"

definition demo_new :: Validation where
  "demo_new = \<lparr>v_iss = None, v_aud = None, v_validate_exp = True, v_validate_nbf = False,
     v_validate_aud = True, v_leeway = 60, v_required_spec_claims = [''exp'']\<rparr>"

lemma demo_ok: "licence_jwt_ok demo_carries now demo_encode (demo_decode now) (\<lambda>ek. ek)" "chrono_ok demo_chrono"
  by (auto simp: licence_jwt_ok_def chrono_ok_def demo_carries_def demo_encode_def demo_decode_def demo_chrono_def)

theorem minted_license_verifies_witness:
  "\<exists>l. license_verify (demo_decode 10) demo_new demo_chrono 1 ''tok'' ''ferrvault'' = Inr l \<and>
    li_id l = ''lic_1'' \<and> li_seats l = Some 25"
proof -
  have "license_sign demo_encode demo_chrono 1 \<lparr>li_id = ''lic_1'', li_product = ''ferrvault'', li_org = None,
      li_kind = CustomerKind, li_tier = TeamTier, li_seats = Some 25, li_features = parse_features ''audit'',
      li_issued_at = 0, li_expires_at = 86400\<rparr> = Inr ''tok''"
    by (simp add: license_sign_def demo_encode_def demo_claims_def demo_chrono_def)
  then have "licensegen_main (\<lambda>_. Inr ''pem'') (\<lambda>_. Inr 1) demo_encode demo_chrono 0 demo_args = Some (Printed ''tok'')"
    by (simp add: licensegen_main_def license_signer_from_pem_def demo_args_def demo_chrono_def)
  from minted_license_verifies [OF demo_ok(1) [of 10] demo_ok(2) _ _ this,
      where ek = 1 and pem = "''pem''" and expires = 86400 and new = demo_new]
  show ?thesis
    by (auto simp: demo_args_def demo_chrono_def)
qed


end
