(* ===== verification/Oauth_Login.thy ===== *)
theory Oauth_Login
  imports Api_Errors
begin

text \<open>
  The authorisation-code login of \<open>crates/oauth/src/lib.rs\<close> for Google, GitHub and Discord.  URLs, form
  coding, base64, SHA-256, JSON and HTTP are the fields of \<open>oauth_lib\<close>; the random bytes a login draws
  are arguments.
\<close>

section \<open>Providers\<close>

datatype OAuthProvider = Google | GitHub | Discord

fun provider_as_str :: "OAuthProvider \<Rightarrow> string" where
  "provider_as_str Google = ''google''"
| "provider_as_str GitHub = ''github''"
| "provider_as_str Discord = ''discord''"

fun authorize_endpoint :: "OAuthProvider \<Rightarrow> string" where
  "authorize_endpoint Google = ''https://accounts.google.com/o/oauth2/v2/auth''"
| "authorize_endpoint GitHub = ''https://github.com/login/oauth/authorize''"
| "authorize_endpoint Discord = ''https://discord.com/api/oauth2/authorize''"

fun token_endpoint :: "OAuthProvider \<Rightarrow> string" where
  "token_endpoint Google = ''https://oauth2.googleapis.com/token''"
| "token_endpoint GitHub = ''https://github.com/login/oauth/access_token''"
| "token_endpoint Discord = ''https://discord.com/api/oauth2/token''"

fun userinfo_endpoint :: "OAuthProvider \<Rightarrow> string" where
  "userinfo_endpoint Google = ''https://openidconnect.googleapis.com/v1/userinfo''"
| "userinfo_endpoint GitHub = ''https://api.github.com/user''"
| "userinfo_endpoint Discord = ''https://discord.com/api/users/@me''"

fun default_scope :: "OAuthProvider \<Rightarrow> string" where
  "default_scope Google = ''openid email profile''"
| "default_scope GitHub = ''read:user user:email''"
| "default_scope Discord = ''identify''"

definition supports_pkce :: "OAuthProvider \<Rightarrow> bool" where
  "supports_pkce p = (case p of Google \<Rightarrow> True | _ \<Rightarrow> False)"

datatype UnknownProvider = UnknownProvider string

definition provider_from_str :: "string \<Rightarrow> (UnknownProvider, OAuthProvider) result" where
  "provider_from_str s =
     (if s = ''google'' then Inr Google
      else if s = ''github'' then Inr GitHub
      else if s = ''discord'' then Inr Discord
      else Inl (UnknownProvider s))"

section \<open>Errors and data\<close>

datatype OAuthError = OaHttp string | OaProvider string | OaMissingField string

fun api_error_from_oauth :: "OAuthError \<Rightarrow> ApiError" where
  "api_error_from_oauth (OaProvider msg) = BadRequest msg"
| "api_error_from_oauth (OaMissingField field) = BadRequest (''oauth: missing '' @ field)"
| "api_error_from_oauth (OaHttp e) = InternalError (''oauth http: '' @ e)"

record OAuthClient =
  oc_provider :: OAuthProvider
  oc_client_id :: string
  oc_client_secret :: string
  oc_redirect_uri :: string
  oc_scope :: string

record AuthorizeRequest =
  ar_url :: string
  ar_state :: string
  ar_pkce_verifier :: "string option"

record OAuthUser =
  ou_provider :: OAuthProvider
  ou_provider_user_id :: string
  ou_email :: "string option"
  ou_email_verified :: bool
  ou_name :: "string option"

record TokenResponse =
  tr_access_token :: "string option"
  tr_error :: "string option"

record GoogleUserInfo =
  gu_sub :: string
  gu_email :: "string option"
  gu_email_verified :: bool
  gu_name :: "string option"

record GitHubUserInfo =
  hu_id :: "64 word"
  hu_email :: "string option"
  hu_name :: "string option"
  hu_login :: "string option"

record DiscordUserInfo =
  du_id :: string
  du_username :: string
  du_global_name :: "string option"
  du_email :: "string option"
  du_verified :: bool

record oauth_http =
  oh_method :: string
  oh_url :: string
  oh_headers :: "(string \<times> string) list"
  oh_body :: string

text \<open>
  The libraries.  \<open>ob_send\<close> is the request with \<open>error_for_status\<close> after it and gives the body;
  \<open>ob_query\<close> appends pairs to the query of a constant URL.
\<close>

record oauth_lib =
  ob_base64url :: "string \<Rightarrow> string"
  ob_sha256 :: "string \<Rightarrow> string"
  ob_query :: "string \<Rightarrow> (string \<times> string) list \<Rightarrow> string"
  ob_form :: "(string \<times> string) list \<Rightarrow> string"
  ob_send :: "oauth_http \<Rightarrow> (string, string) result"
  ob_token_json :: "string \<Rightarrow> (string, TokenResponse) result"
  ob_google_json :: "string \<Rightarrow> (string, GoogleUserInfo) result"
  ob_github_json :: "string \<Rightarrow> (string, GitHubUserInfo) result"
  ob_discord_json :: "string \<Rightarrow> (string, DiscordUserInfo) result"

section \<open>Operations\<close>

definition oauth_client_new ::
  "OAuthProvider \<Rightarrow> string \<Rightarrow> string \<Rightarrow> string \<Rightarrow> string option \<Rightarrow> OAuthClient" where
  "oauth_client_new provider client_id client_secret redirect_uri scope =
     \<lparr>oc_provider = provider, oc_client_id = client_id, oc_client_secret = client_secret,
      oc_redirect_uri = redirect_uri, oc_scope = unwrap_or (default_scope provider) scope\<rparr>"

text \<open>The argument is the 32 random bytes.\<close>

definition random_token :: "oauth_lib \<Rightarrow> string \<Rightarrow> string" where
  "random_token lib bytes = ob_base64url lib bytes"

definition pkce_challenge_s256 :: "oauth_lib \<Rightarrow> string \<Rightarrow> string" where
  "pkce_challenge_s256 lib verifier = ob_base64url lib (ob_sha256 lib verifier)"

definition authorize_params :: "oauth_lib \<Rightarrow> OAuthClient \<Rightarrow> string \<Rightarrow> string option \<Rightarrow> (string \<times> string) list" where
  "authorize_params lib self state pkce_verifier =
     [(''client_id'', oc_client_id self), (''redirect_uri'', oc_redirect_uri self),
      (''response_type'', ''code''), (''scope'', oc_scope self), (''state'', state)] @
     (case pkce_verifier of
        Some v \<Rightarrow> [(''code_challenge'', pkce_challenge_s256 lib v), (''code_challenge_method'', ''S256'')]
      | None \<Rightarrow> [])"

definition authorize_url :: "oauth_lib \<Rightarrow> string \<Rightarrow> string \<Rightarrow> OAuthClient \<Rightarrow> AuthorizeRequest" where
  "authorize_url lib bytes bytes' self =
     (let state = random_token lib bytes;
          pkce_verifier = (if supports_pkce (oc_provider self) then Some (random_token lib bytes') else None)
      in \<lparr>ar_url = ob_query lib (authorize_endpoint (oc_provider self))
                     (authorize_params lib self state pkce_verifier),
          ar_state = state, ar_pkce_verifier = pkce_verifier\<rparr>)"

definition exchange_form :: "OAuthClient \<Rightarrow> string \<Rightarrow> string option \<Rightarrow> (string \<times> string) list" where
  "exchange_form self code pkce_verifier =
     [(''client_id'', oc_client_id self), (''client_secret'', oc_client_secret self), (''code'', code),
      (''grant_type'', ''authorization_code''), (''redirect_uri'', oc_redirect_uri self)] @
     (case pkce_verifier of Some v \<Rightarrow> [(''code_verifier'', v)] | None \<Rightarrow> [])"

definition exchange_code ::
  "oauth_lib \<Rightarrow> OAuthClient \<Rightarrow> string \<Rightarrow> string option \<Rightarrow> (OAuthError, string) result" where
  "exchange_code lib self code pkce_verifier =
     (let body = ob_form lib (exchange_form self code pkce_verifier) in
      try_bind (map_err OaHttp (ob_send lib
        \<lparr>oh_method = ''POST'', oh_url = token_endpoint (oc_provider self),
         oh_headers = [(''accept'', ''application/json''), (''content-type'', ''application/x-www-form-urlencoded'')],
         oh_body = body\<rparr>)) (\<lambda>resp.
      try_bind (map_err OaHttp (ob_token_json lib resp)) (\<lambda>token.
      case tr_error token of
        Some err \<Rightarrow> Inl (OaProvider err)
      | None \<Rightarrow> ok_or (OaMissingField ''access_token'') (tr_access_token token))))"

definition parse_user :: "oauth_lib \<Rightarrow> OAuthProvider \<Rightarrow> string \<Rightarrow> (OAuthError, OAuthUser) result" where
  "parse_user lib provider body =
     (case provider of
        Google \<Rightarrow>
          try_bind (map_err (\<lambda>e. OaProvider (''google userinfo: '' @ e)) (ob_google_json lib body)) (\<lambda>info.
          Inr \<lparr>ou_provider = provider, ou_provider_user_id = gu_sub info, ou_email = gu_email info,
               ou_email_verified = gu_email_verified info, ou_name = gu_name info\<rparr>)
      | GitHub \<Rightarrow>
          try_bind (map_err (\<lambda>e. OaProvider (''github user: '' @ e)) (ob_github_json lib body)) (\<lambda>info.
          Inr \<lparr>ou_provider = provider, ou_provider_user_id = show_nat (unat (hu_id info)),
               ou_email = hu_email info, ou_email_verified = False,
               ou_name = (case hu_name info of Some n \<Rightarrow> Some n | None \<Rightarrow> hu_login info)\<rparr>)
      | Discord \<Rightarrow>
          try_bind (map_err (\<lambda>e. OaProvider (''discord user: '' @ e)) (ob_discord_json lib body)) (\<lambda>info.
          Inr \<lparr>ou_provider = provider, ou_provider_user_id = du_id info, ou_email = du_email info,
               ou_email_verified = du_verified info,
               ou_name = (case du_global_name info of Some n \<Rightarrow> Some n | None \<Rightarrow> Some (du_username info))\<rparr>))"

definition fetch_user :: "oauth_lib \<Rightarrow> OAuthClient \<Rightarrow> string \<Rightarrow> (OAuthError, OAuthUser) result" where
  "fetch_user lib self access_token =
     try_bind (map_err OaHttp (ob_send lib
       \<lparr>oh_method = ''GET'', oh_url = userinfo_endpoint (oc_provider self),
        oh_headers = [(''authorization'', ''Bearer '' @ access_token), (''user-agent'', ''ferrlabs-auth''),
                      (''accept'', ''application/json'')],
        oh_body = []\<rparr>)) (\<lambda>body.
     parse_user lib (oc_provider self) body)"

section \<open>Facts\<close>

interpretation provider_wire: wire_enum provider_as_str "\<lambda>s. res_ok (provider_from_str s)" "[Google, GitHub, Discord]"
proof
  fix p :: OAuthProvider and s
  show "res_ok (provider_from_str (provider_as_str p)) = Some p"
    by (cases p) (simp_all add: provider_from_str_def)
  show "res_ok (provider_from_str s) = Some p \<Longrightarrow> s = provider_as_str p"
    by (cases p) (auto simp: provider_from_str_def split: if_splits)
  show "p \<in> set [Google, GitHub, Discord]"
    by (cases p) simp_all
qed

text \<open>
  The secret never leaves for the browser: the parameters of the authorise URL do not depend on it,
  and of the verifier they show the challenge only.
\<close>

lemma authorize_hides_secret:
  "authorize_url lib bytes bytes' (self\<lparr>oc_client_secret := secret\<rparr>) = authorize_url lib bytes bytes' self"
  by (simp add: authorize_url_def authorize_params_def Let_def)

text \<open>
  The verifier handed back for the callback is the one whose challenge went into the URL, and it is sent
  exactly for the providers that check it.
\<close>

lemma pkce_pair:
  "(case ar_pkce_verifier (authorize_url lib bytes bytes' self) of
      Some v \<Rightarrow> supports_pkce (oc_provider self) \<and>
        (\<exists>params. ar_url (authorize_url lib bytes bytes' self) = ob_query lib (authorize_endpoint (oc_provider self)) params \<and>
           map_of params ''code_challenge'' = Some (ob_base64url lib (ob_sha256 lib v)) \<and>
           map_of params ''state'' = Some (ar_state (authorize_url lib bytes bytes' self)))
    | None \<Rightarrow> \<not> supports_pkce (oc_provider self))"
  by (auto simp: authorize_url_def Let_def authorize_params_def pkce_challenge_s256_def)

text \<open>A verified email is one the provider vouched for; GitHub vouches for none.\<close>

lemma verified_email_vouched:
  assumes "parse_user lib provider body = Inr u" and "ou_email_verified u"
  shows "(provider = Google \<and> (\<exists>i. ob_google_json lib body = Inr i \<and> gu_email_verified i \<and> ou_email u = gu_email i)) \<or>
    (provider = Discord \<and> (\<exists>i. ob_discord_json lib body = Inr i \<and> du_verified i \<and> ou_email u = du_email i))"
  using assms by (cases provider) (auto simp: parse_user_def result_simps)

end
