(* ===== verification/Oidc_Login.thy ===== *)
theory Oidc_Login
  imports Oauth_Login Http_Safe Auth_Token
begin

text \<open>
  OpenID Connect login of \<open>crates/oauth/src/oidc.rs\<close>: discovery, the authorise request, the code exchange
  with the checks on the ID token, and the cache of the issuer's keys.

  Requests go through the safe client of \<open>Http_Safe\<close>; \<open>ol_online n\<close> and \<open>ol_time_left n\<close> are the network
  and the deadline as the discovery (0), the token request (1) and the key request (2) find them.  JSON, JWK and JWT functions are the fields of
  \<open>oidc_lib\<close>; a JSON value is known by what \<open>as_str\<close>, \<open>as_bool\<close> and \<open>as_array\<close> say of it.  Times of the
  monotonic clock are seconds.
\<close>

section \<open>Types\<close>

definition JWKS_MIN_REFRESH :: int where "JWKS_MIN_REFRESH = 60"
definition JWKS_MAX_AGE :: int where "JWKS_MAX_AGE = 3600"
definition CLOCK_LEEWAY_SECS :: nat where "CLOCK_LEEWAY_SECS = 60"
abbreviation DEFAULT_SCOPE :: string where "DEFAULT_SCOPE \<equiv> ''openid email profile''"
abbreviation DISCOVERY_PATH :: string where "DISCOVERY_PATH \<equiv> ''/.well-known/openid-configuration''"
abbreviation ERROR_BODY_CHARS :: nat where "ERROR_BODY_CHARS \<equiv> 300"

datatype OidcError =
    IssuerUrl string
  | Discovery string string
  | IssuerMismatch string string
  | Endpoint string string
  | NoUsableAlgorithm
  | TokenRequest string
  | TokenEndpoint "16 word" string
  | MissingIdToken
  | UnexpectedAlgorithm string
  | UnknownKey string
  | Jwks string string
  | IdToken string
  | NonceMismatch
  | AzpMismatch

fun oidc_error_display :: "OidcError \<Rightarrow> string" where
  "oidc_error_display (IssuerUrl s) = ''issuer must be an absolute https url with no query or fragment: '' @ s"
| "oidc_error_display (Discovery i r) = ''discovery for '' @ i @ '' failed: '' @ r"
| "oidc_error_display (IssuerMismatch e f) = ''discovery document names issuer '' @ f @ '', expected '' @ e"
| "oidc_error_display (Endpoint n v) = n @ '' in the discovery document is not an https url: '' @ v"
| "oidc_error_display NoUsableAlgorithm = ''issuer advertises no id_token signing algorithm this build accepts''"
| "oidc_error_display (TokenRequest s) = ''token request failed: '' @ s"
| "oidc_error_display (TokenEndpoint st b) = ''token endpoint returned '' @ show_nat (unat st) @ '': '' @ b"
| "oidc_error_display MissingIdToken = ''token response carried no id_token''"
| "oidc_error_display (UnexpectedAlgorithm s) = ''id_token is signed with '' @ s @ '', which the issuer does not advertise''"
| "oidc_error_display (UnknownKey s) = ''the issuer's jwks has no key '' @ s"
| "oidc_error_display (Jwks i r) = ''jwks fetch for '' @ i @ '' failed: '' @ r"
| "oidc_error_display (IdToken s) = ''id_token rejected: '' @ s"
| "oidc_error_display NonceMismatch = ''id_token nonce does not match this login attempt''"
| "oidc_error_display AzpMismatch = ''id_token has several audiences and no azp naming this client''"

definition api_error_from_oidc :: "OidcError \<Rightarrow> ApiError" where
  "api_error_from_oidc err =
     (case err of
        IssuerUrl _ \<Rightarrow> BadRequest (oidc_error_display err)
      | IssuerMismatch _ _ \<Rightarrow> BadRequest (oidc_error_display err)
      | Endpoint _ _ \<Rightarrow> BadRequest (oidc_error_display err)
      | NoUsableAlgorithm \<Rightarrow> BadRequest (oidc_error_display err)
      | UnexpectedAlgorithm _ \<Rightarrow> Unauthorized
      | UnknownKey _ \<Rightarrow> Unauthorized
      | IdToken _ \<Rightarrow> Unauthorized
      | NonceMismatch \<Rightarrow> Unauthorized
      | AzpMismatch \<Rightarrow> Unauthorized
      | MissingIdToken \<Rightarrow> Unauthorized
      | Discovery _ _ \<Rightarrow> InternalError (oidc_error_display err)
      | Jwks _ _ \<Rightarrow> InternalError (oidc_error_display err)
      | TokenRequest _ \<Rightarrow> InternalError (oidc_error_display err)
      | TokenEndpoint _ _ \<Rightarrow> InternalError (oidc_error_display err))"

record IssuerMetadata =
  im_issuer :: string
  im_authorization_endpoint :: string
  im_token_endpoint :: string
  im_jwks_uri :: string
  im_id_token_signing_alg_values_supported :: "string list"

record OidcAuthorizeRequest =
  oa_url :: string
  oa_state :: string
  oa_nonce :: string
  oa_pkce_verifier :: string

record OidcIdentity =
  oi_issuer :: string
  oi_subject :: string
  oi_email :: "string option"
  oi_email_verified :: bool
  oi_name :: "string option"

text \<open>The algorithms of the JWT library.\<close>

datatype Algorithm =
  HS256 | HS384 | HS512 | ES256 | ES384 | RS256 | RS384 | RS512 | PS256 | PS384 | PS512 | EdDSA

record IdTokenExpectations =
  ie_issuer :: string
  ie_client_id :: string
  ie_nonce :: string
  ie_algorithms :: "Algorithm list"

record Header =
  hd_alg :: Algorithm
  hd_kid :: "string option"

type_synonym 'j claims = "string \<rightharpoonup> 'j"

record ('u, 'v, 'j, 'k, 'ka, 'dk) oidc_lib =
  ol_oauth :: oauth_lib
  ol_net :: "('u, 'v) net"
  ol_online :: "nat \<Rightarrow> ('u, 'v) net"
  ol_time_left :: "nat \<Rightarrow> nat \<Rightarrow> bool"
  ol_query :: "'u \<Rightarrow> string option"
  ol_fragment :: "'u \<Rightarrow> string option"
  ol_append :: "'u \<Rightarrow> (string \<times> string) list \<Rightarrow> string"
  ol_utf8_lossy :: "string \<Rightarrow> string"
  ol_meta_json :: "string \<Rightarrow> (string, IssuerMetadata) result"
  ol_token_json :: "string \<Rightarrow> (string, string option) result"
  ol_jwks_json :: "string \<Rightarrow> (string, 'k list) result"
  ol_as_str :: "'j \<Rightarrow> string option"
  ol_as_bool :: "'j \<Rightarrow> bool option"
  ol_as_array :: "'j \<Rightarrow> 'j list option"
  ol_alg_from_str :: "string \<Rightarrow> Algorithm option"
  ol_alg_debug :: "Algorithm \<Rightarrow> string"
  ol_key_id :: "'k \<Rightarrow> string option"
  ol_key_algorithm :: "'k \<Rightarrow> 'ka option"
  ol_ka_alg :: "'ka \<Rightarrow> Algorithm option"
  ol_ka_to_string :: "'ka \<Rightarrow> string"
  ol_decode_header :: "string \<Rightarrow> (string, Header) result"
  ol_key_from_jwk :: "'k \<Rightarrow> (string, 'dk) result"
  ol_validation_new :: "Algorithm \<Rightarrow> Validation"
  ol_decode :: "string \<Rightarrow> 'dk \<Rightarrow> Validation \<Rightarrow> (string, 'j claims) result"

section \<open>Discovery\<close>

definition normalize_issuer :: "('u, 'v, 'j, 'k, 'ka, 'dk) oidc_lib \<Rightarrow> string \<Rightarrow> (OidcError, string) result" where
  "normalize_issuer lib raw =
     try_bind (map_err (\<lambda>_. IssuerUrl raw) (url_parse (ol_net lib) (trim raw))) (\<lambda>parsed.
     if url_scheme (ol_net lib) parsed \<noteq> ''https'' \<or> ol_query lib parsed \<noteq> None \<or> ol_fragment lib parsed \<noteq> None
     then Inl (IssuerUrl raw)
     else if url_host_str (ol_net lib) parsed = None then Inl (IssuerUrl raw)
     else Inr (trim_end_byte CHR ''/'' (url_to_string (ol_net lib) parsed)))"

definition discovery_url :: "string \<Rightarrow> string" where
  "discovery_url issr = issr @ DISCOVERY_PATH"

fun check_endpoints ::
  "('u, 'v, 'j, 'k, 'ka, 'dk) oidc_lib \<Rightarrow> (string \<times> string) list \<Rightarrow> (OidcError, unit) result" where
  "check_endpoints lib [] = Inr ()"
| "check_endpoints lib ((name, val) # rest) =
     try_bind (map_err (\<lambda>_. Endpoint name val) (url_parse (ol_net lib) val)) (\<lambda>url.
     if url_scheme (ol_net lib) url \<noteq> ''https'' then Inl (Endpoint name val)
     else check_endpoints lib rest)"

definition check_metadata ::
  "('u, 'v, 'j, 'k, 'ka, 'dk) oidc_lib \<Rightarrow> string \<Rightarrow> IssuerMetadata \<Rightarrow> (OidcError, unit) result" where
  "check_metadata lib expected_issuer meta =
     (let found = trim_end_byte CHR ''/'' (im_issuer meta) in
      if found \<noteq> expected_issuer then Inl (IssuerMismatch expected_issuer (im_issuer meta))
      else check_endpoints lib
        [(''authorization_endpoint'', im_authorization_endpoint meta),
         (''token_endpoint'', im_token_endpoint meta), (''jwks_uri'', im_jwks_uri meta)])"

definition is_asymmetric :: "Algorithm \<Rightarrow> bool" where
  "is_asymmetric alg \<longleftrightarrow> \<not> (case alg of HS256 \<Rightarrow> True | HS384 \<Rightarrow> True | HS512 \<Rightarrow> True | _ \<Rightarrow> False)"

definition signing_algorithms ::
  "('u, 'v, 'j, 'k, 'ka, 'dk) oidc_lib \<Rightarrow> IssuerMetadata \<Rightarrow> (OidcError, Algorithm list) result" where
  "signing_algorithms lib meta =
     (if im_id_token_signing_alg_values_supported meta = [] then Inr [RS256]
      else
        (let usable = filter is_asymmetric
               (List.map_filter (ol_alg_from_str lib) (im_id_token_signing_alg_values_supported meta))
         in if usable = [] then Inl NoUsableAlgorithm else Inr usable))"

definition discover ::
  "('u, 'v, 'j, 'k, 'ka, 'dk) oidc_lib \<Rightarrow> string \<Rightarrow> (OidcError, IssuerMetadata) result" where
  "discover lib raw =
     try_bind (normalize_issuer lib raw) (\<lambda>issr.
     try_bind (map_err (\<lambda>e. Discovery issr (safe_fetch_error_display e))
       (safe_get (ol_online lib 0) (ol_time_left lib 0) (discovery_url issr) fetch_opts_default)) (\<lambda>response.
     if sr_status response \<noteq> 200
     then Inl (Discovery issr (''status '' @ show_nat (unat (sr_status response))))
     else
       try_bind (map_err (Discovery issr) (ol_meta_json lib (sr_body response))) (\<lambda>meta.
       try_bind (check_metadata lib issr meta) (\<lambda>_. Inr meta))))"

section \<open>The ID token\<close>

definition jwks_find :: "('u, 'v, 'j, 'k, 'ka, 'dk) oidc_lib \<Rightarrow> string \<Rightarrow> 'k list \<Rightarrow> 'k option" where
  "jwks_find lib kid jwks = find (\<lambda>k. ol_key_id lib k = Some kid) jwks"

definition select_key ::
  "('u, 'v, 'j, 'k, 'ka, 'dk) oidc_lib \<Rightarrow> 'k list \<Rightarrow> Header \<Rightarrow> (OidcError, 'k) result" where
  "select_key lib jwks header =
     try_bind
       (case hd_kid header of
          Some kid \<Rightarrow> ok_or (UnknownKey kid) (jwks_find lib kid jwks)
        | None \<Rightarrow> (case jwks of [only] \<Rightarrow> Inr only | _ \<Rightarrow> Inl (UnknownKey ''<no kid>''))) (\<lambda>jwk.
     case ol_key_algorithm lib jwk of
       None \<Rightarrow> Inr jwk
     | Some key_alg \<Rightarrow>
         try_bind (ok_or (UnexpectedAlgorithm (ol_ka_to_string lib key_alg)) (ol_ka_alg lib key_alg)) (\<lambda>declared.
         if declared \<noteq> hd_alg header then Inl (UnexpectedAlgorithm (ol_alg_debug lib (hd_alg header)))
         else Inr jwk))"

text \<open>\<open>claims.get(key).and_then(Value::as_str)\<close>.\<close>

definition claim_str :: "('u, 'v, 'j, 'k, 'ka, 'dk) oidc_lib \<Rightarrow> 'j claims \<Rightarrow> string \<Rightarrow> string option" where
  "claim_str lib claims key = Option.bind (claims key) (ol_as_str lib)"

definition check_claims ::
  "('u, 'v, 'j, 'k, 'ka, 'dk) oidc_lib \<Rightarrow> 'j claims \<Rightarrow> IdTokenExpectations \<Rightarrow> (OidcError, unit) result" where
  "check_claims lib claims expectations =
     (if claim_str lib claims ''nonce'' \<noteq> Some (ie_nonce expectations) then Inl NonceMismatch
      else if unwrap_or [] (claim_str lib claims ''sub'') = []
      then Inl (IdToken ''sub is missing or is not a non-empty string'')
      else
        (let several_audiences = (case Option.bind (claims ''aud'') (ol_as_array lib) of
               None \<Rightarrow> False | Some auds \<Rightarrow> length auds > 1)
         in if several_audiences \<and> claim_str lib claims ''azp'' \<noteq> Some (ie_client_id expectations)
            then Inl AzpMismatch
            else Inr ()))"

definition id_token_validation ::
  "('u, 'v, 'j, 'k, 'ka, 'dk) oidc_lib \<Rightarrow> Algorithm \<Rightarrow> IdTokenExpectations \<Rightarrow> Validation" where
  "id_token_validation lib alg expectations =
     (ol_validation_new lib alg)\<lparr>v_leeway := CLOCK_LEEWAY_SECS, v_iss := Some [ie_issuer expectations],
        v_aud := Some [ie_client_id expectations],
        v_required_spec_claims := [''iss'', ''aud'', ''exp'', ''sub'']\<rparr>"

definition validate_id_token ::
  "('u, 'v, 'j, 'k, 'ka, 'dk) oidc_lib \<Rightarrow> string \<Rightarrow> 'k list \<Rightarrow> IdTokenExpectations
     \<Rightarrow> (OidcError, 'j claims) result" where
  "validate_id_token lib token jwks expectations =
     try_bind (map_err IdToken (ol_decode_header lib token)) (\<lambda>header.
     if hd_alg header \<notin> set (ie_algorithms expectations)
     then Inl (UnexpectedAlgorithm (ol_alg_debug lib (hd_alg header)))
     else
       try_bind (select_key lib jwks header) (\<lambda>jwk.
       try_bind (map_err IdToken (ol_key_from_jwk lib jwk)) (\<lambda>key.
       try_bind (map_err IdToken
         (ol_decode lib token key (id_token_validation lib (hd_alg header) expectations))) (\<lambda>claims.
       try_bind (check_claims lib claims expectations) (\<lambda>_. Inr claims)))))"

definition identity_from_claims ::
  "('u, 'v, 'j, 'k, 'ka, 'dk) oidc_lib \<Rightarrow> string \<Rightarrow> 'j claims \<Rightarrow> OidcIdentity" where
  "identity_from_claims lib issr claims =
     \<lparr>oi_issuer = issr, oi_subject = unwrap_or [] (claim_str lib claims ''sub''),
      oi_email = claim_str lib claims ''email'',
      oi_email_verified = unwrap_or False (Option.bind (claims ''email_verified'') (ol_as_bool lib)),
      oi_name = claim_str lib claims ''name''\<rparr>"

section \<open>The client\<close>

record 'k CachedJwks =
  cj_set :: "'k list"
  cj_fetched_at :: int

record 'k OidcClient =
  oc_meta :: IssuerMetadata
  oc_oidc_client_id :: string
  oc_oidc_client_secret :: string
  oc_oidc_redirect_uri :: string
  oc_oidc_scope :: string
  oc_algorithms :: "Algorithm list"
  oc_fetch :: SafeFetchOpts
  oc_jwks :: "'k CachedJwks option"

definition oidc_client_new ::
  "('u, 'v, 'j, 'k, 'ka, 'dk) oidc_lib \<Rightarrow> IssuerMetadata \<Rightarrow> string \<Rightarrow> string \<Rightarrow> string \<Rightarrow> string option
     \<Rightarrow> (OidcError, 'k OidcClient) result" where
  "oidc_client_new lib meta client_id client_secret redirect_uri scope =
     try_bind (signing_algorithms lib meta) (\<lambda>algorithms.
     Inr \<lparr>oc_meta = meta, oc_oidc_client_id = client_id, oc_oidc_client_secret = client_secret,
          oc_oidc_redirect_uri = redirect_uri, oc_oidc_scope = unwrap_or DEFAULT_SCOPE scope,
          oc_algorithms = algorithms, oc_fetch = fetch_opts_default, oc_jwks = None\<rparr>)"

text \<open>
  \<open>None\<close> is the panic of \<open>expect\<close> on an authorisation endpoint that is not a URL.  The arguments
  \<open>b1\<close>, \<open>b2\<close>, \<open>b3\<close> are the random bytes.
\<close>

definition oidc_authorize ::
  "('u, 'v, 'j, 'k, 'ka, 'dk) oidc_lib \<Rightarrow> string \<Rightarrow> string \<Rightarrow> string \<Rightarrow> 'k OidcClient \<Rightarrow> OidcAuthorizeRequest option" where
  "oidc_authorize lib b1 b2 b3 self =
     (let state = random_token (ol_oauth lib) b1;
          nonce = random_token (ol_oauth lib) b2;
          verifier = random_token (ol_oauth lib) b3
      in map_option (\<lambda>url.
           \<lparr>oa_url = ol_append lib url
              [(''client_id'', oc_oidc_client_id self), (''redirect_uri'', oc_oidc_redirect_uri self),
               (''response_type'', ''code''), (''scope'', oc_oidc_scope self), (''state'', state),
               (''nonce'', nonce), (''code_challenge'', pkce_challenge_s256 (ol_oauth lib) verifier),
               (''code_challenge_method'', ''S256'')],
            oa_state = state, oa_nonce = nonce, oa_pkce_verifier = verifier\<rparr>)
         (res_ok (url_parse (ol_net lib) (im_authorization_endpoint (oc_meta self)))))"

definition cached_keys ::
  "('u, 'v, 'j, 'k, 'ka, 'dk) oidc_lib \<Rightarrow> int \<Rightarrow> 'k OidcClient \<Rightarrow> string option \<Rightarrow> 'k list option" where
  "cached_keys lib now self kid =
     Option.bind (oc_jwks self) (\<lambda>cached.
     let age = now - cj_fetched_at cached in
     if age \<ge> JWKS_MAX_AGE then None
     else
       let serves_kid = (case kid of None \<Rightarrow> True | Some k \<Rightarrow> jwks_find lib k (cj_set cached) \<noteq> None) in
       if serves_kid \<or> age < JWKS_MIN_REFRESH then Some (cj_set cached) else None)"

definition fetch_keys ::
  "('u, 'v, 'j, 'k, 'ka, 'dk) oidc_lib \<Rightarrow> 'k OidcClient \<Rightarrow> (OidcError, 'k list) result" where
  "fetch_keys lib self =
     try_bind (map_err (\<lambda>e. Jwks (im_issuer (oc_meta self)) (safe_fetch_error_display e))
       (safe_get (ol_online lib 2) (ol_time_left lib 2) (im_jwks_uri (oc_meta self)) (oc_fetch self))) (\<lambda>response.
     if sr_status response \<noteq> 200
     then Inl (Jwks (im_issuer (oc_meta self)) (''status '' @ show_nat (unat (sr_status response))))
     else map_err (Jwks (im_issuer (oc_meta self))) (ol_jwks_json lib (sr_body response)))"

text \<open>\<open>now\<close> is the time at which the cache is read, \<open>later\<close> the time after the fetch.\<close>

definition keys_for ::
  "('u, 'v, 'j, 'k, 'ka, 'dk) oidc_lib \<Rightarrow> int \<Rightarrow> int \<Rightarrow> string option \<Rightarrow> 'k OidcClient
     \<Rightarrow> (OidcError, 'k list) result \<times> 'k OidcClient" where
  "keys_for lib now later kid self =
     (case cached_keys lib now self kid of
        Some cached \<Rightarrow> (Inr cached, self)
      | None \<Rightarrow>
          (case fetch_keys lib self of
             Inl e \<Rightarrow> (Inl e, self)
           | Inr keys \<Rightarrow>
               (let self' = self\<lparr>oc_jwks := Some \<lparr>cj_set = keys, cj_fetched_at = later\<rparr>\<rparr>
                in case kid of
                     Some k \<Rightarrow> if jwks_find lib k keys = None then (Inl (UnknownKey k), self') else (Inr keys, self')
                   | None \<Rightarrow> (Inr keys, self'))))"

text \<open>The first characters of a text, each with the bytes that continue it.\<close>

fun take_chars :: "nat \<Rightarrow> string \<Rightarrow> string" where
  "take_chars n [] = []"
| "take_chars n (c # cs) =
     (if is_cont_byte c then c # take_chars n cs
      else (case n of 0 \<Rightarrow> [] | Suc m \<Rightarrow> c # take_chars m cs))"

definition truncate_body :: "string \<Rightarrow> string" where
  "truncate_body body = take_chars ERROR_BODY_CHARS body"

definition oidc_exchange_form :: "'k OidcClient \<Rightarrow> string \<Rightarrow> string \<Rightarrow> (string \<times> string) list" where
  "oidc_exchange_form self code pkce_verifier =
     [(''grant_type'', ''authorization_code''), (''code'', code), (''redirect_uri'', oc_oidc_redirect_uri self),
      (''client_id'', oc_oidc_client_id self), (''client_secret'', oc_oidc_client_secret self),
      (''code_verifier'', pkce_verifier)]"

definition oidc_expectations :: "'k OidcClient \<Rightarrow> string \<Rightarrow> IdTokenExpectations" where
  "oidc_expectations self nonce =
     \<lparr>ie_issuer = trim_end_byte CHR ''/'' (im_issuer (oc_meta self)), ie_client_id = oc_oidc_client_id self,
      ie_nonce = nonce, ie_algorithms = oc_algorithms self\<rparr>"

definition request_id_token ::
  "('u, 'v, 'j, 'k, 'ka, 'dk) oidc_lib \<Rightarrow> 'k OidcClient \<Rightarrow> string \<Rightarrow> string \<Rightarrow> (OidcError, string) result" where
  "request_id_token lib self code pkce_verifier =
     try_bind (map_err (\<lambda>e. TokenRequest (safe_fetch_error_display e))
       (safe_post_form (ol_online lib 1) (ol_time_left lib 1) (im_token_endpoint (oc_meta self))
         (oidc_exchange_form self code pkce_verifier) (oc_fetch self))) (\<lambda>response.
     if sr_status response \<noteq> 200
     then Inl (TokenEndpoint (sr_status response) (truncate_body (ol_utf8_lossy lib (sr_body response))))
     else
       try_bind (map_err (TokenEndpoint (sr_status response)) (ol_token_json lib (sr_body response))) (\<lambda>token.
       ok_or MissingIdToken token))"

definition oidc_exchange_code ::
  "('u, 'v, 'j, 'k, 'ka, 'dk) oidc_lib \<Rightarrow> int \<Rightarrow> int \<Rightarrow> string \<Rightarrow> string \<Rightarrow> string \<Rightarrow> 'k OidcClient
     \<Rightarrow> (OidcError, OidcIdentity \<times> 'j claims) result \<times> 'k OidcClient" where
  "oidc_exchange_code lib now later code pkce_verifier nonce self =
     (case request_id_token lib self code pkce_verifier of
        Inl e \<Rightarrow> (Inl e, self)
      | Inr id_token \<Rightarrow>
          (case ol_decode_header lib id_token of
             Inl e \<Rightarrow> (Inl (IdToken e), self)
           | Inr header \<Rightarrow>
               (case keys_for lib now later (hd_kid header) self of
                  (Inl e, self') \<Rightarrow> (Inl e, self')
                | (Inr jwks, self') \<Rightarrow>
                    (try_bind (validate_id_token lib id_token jwks (oidc_expectations self nonce)) (\<lambda>claims.
                       Inr (identity_from_claims lib (im_issuer (oc_meta self)) claims, claims)),
                     self'))))"

section \<open>What a login proves\<close>

text \<open>
  The documented checks of \<open>decode\<close> on an ID token: the signature of the key, and the claims the
  validation requires.  The audience may be one string or an array of strings.
\<close>

definition names_audience :: "('u, 'v, 'j, 'k, 'ka, 'dk) oidc_lib \<Rightarrow> 'j claims \<Rightarrow> string \<Rightarrow> bool" where
  "names_audience lib c a \<longleftrightarrow> claim_str lib c ''aud'' = Some a \<or>
     (\<exists>auds x. Option.bind (c ''aud'') (ol_as_array lib) = Some auds \<and> x \<in> set auds \<and> ol_as_str lib x = Some a)"

definition id_decode_checks ::
  "('u, 'v, 'j, 'k, 'ka, 'dk) oidc_lib \<Rightarrow> (string \<Rightarrow> 'dk \<Rightarrow> bool) \<Rightarrow> bool" where
  "id_decode_checks lib signed_by \<longleftrightarrow>
     (\<forall>token key v c. ol_decode lib token key v = Inr c \<longrightarrow>
        signed_by token key \<and>
        (\<forall>is. v_iss v = Some is \<longrightarrow> ''iss'' \<in> set (v_required_spec_claims v) \<longrightarrow>
           (\<exists>i\<in>set is. claim_str lib c ''iss'' = Some i)) \<and>
        (\<forall>as. v_aud v = Some as \<longrightarrow> ''aud'' \<in> set (v_required_spec_claims v) \<longrightarrow>
           (\<exists>a\<in>set as. names_audience lib c a)))"

lemma signing_algorithms_asymmetric:
  "signing_algorithms lib meta = Inr algs \<Longrightarrow> a \<in> set algs \<Longrightarrow> is_asymmetric a"
  by (auto simp: signing_algorithms_def Let_def is_asymmetric_def split: if_splits)

lemma select_key_mem: "select_key lib jwks header = Inr jwk \<Longrightarrow> jwk \<in> set jwks"
  by (auto simp: select_key_def jwks_find_def result_simps find_Some_iff
      split: option.splits list.splits if_splits)

lemma validate_id_token_Inr_iff:
  "validate_id_token lib token jwks ex = Inr c \<longleftrightarrow>
     (\<exists>header jwk key. ol_decode_header lib token = Inr header \<and> hd_alg header \<in> set (ie_algorithms ex) \<and>
        select_key lib jwks header = Inr jwk \<and> ol_key_from_jwk lib jwk = Inr key \<and>
        ol_decode lib token key (id_token_validation lib (hd_alg header) ex) = Inr c \<and>
        check_claims lib c ex = Inr ())"
  unfolding validate_id_token_def try_bind_Inr_iff map_err_Inr_iff
  by (simp add: try_bind_Inr_iff cong: conj_cong) blast

lemma id_decode_checksD:
  assumes "id_decode_checks lib signed_by"
    and "ol_decode lib token key (id_token_validation lib alg ex) = Inr c"
  shows "signed_by token key" and "claim_str lib c ''iss'' = Some (ie_issuer ex)"
    and "names_audience lib c (ie_client_id ex)"
  using assms(1) [unfolded id_decode_checks_def, rule_format, OF assms(2)]
  by (simp_all add: id_token_validation_def)

text \<open>A cache hit, and the keys in use after the call.\<close>

lemma cached_keys_Some:
  assumes "cached_keys lib now self kid = Some keys"
  shows "\<exists>c. oc_jwks self = Some c \<and> cj_set c = keys \<and> now - cj_fetched_at c < JWKS_MAX_AGE"
proof (cases "oc_jwks self")
  case (Some c)
  with assms show ?thesis
    by (simp add: cached_keys_def Let_def split: if_splits)
qed (use assms in \<open>simp add: cached_keys_def\<close>)

lemma keys_for_Inr:
  assumes "keys_for lib now later kid self = (Inr keys, self')"
  shows "\<exists>c. oc_jwks self' = Some c \<and> cj_set c = keys \<and>
    (self' = self \<and> now - cj_fetched_at c < JWKS_MAX_AGE \<or> cj_fetched_at c = later)"
proof (cases "cached_keys lib now self kid")
  case (Some ks)
  with assms have "self' = self" "keys = ks"
    by (simp_all add: keys_for_def)
  with cached_keys_Some [OF Some] show ?thesis
    by blast
next
  case None
  show ?thesis
  proof (cases "fetch_keys lib self")
    case (Inr ks)
    with None assms have "keys = ks" "self' = self\<lparr>oc_jwks := Some \<lparr>cj_set = ks, cj_fetched_at = later\<rparr>\<rparr>"
      by (auto simp: keys_for_def Let_def split: option.splits if_splits)
    then show ?thesis
      by simp
  qed (use None assms in \<open>simp add: keys_for_def\<close>)
qed

lemma exchange_code_Inr:
  assumes "oidc_exchange_code lib now later code verifier nonce self = (Inr (ident, c), self')"
  shows "\<exists>token header jwks. ol_decode_header lib token = Inr header \<and>
    keys_for lib now later (hd_kid header) self = (Inr jwks, self') \<and>
    validate_id_token lib token jwks (oidc_expectations self nonce) = Inr c \<and>
    ident = identity_from_claims lib (im_issuer (oc_meta self)) c"
proof (cases "request_id_token lib self code verifier")
  case (Inr token)
  show ?thesis
  proof (cases "ol_decode_header lib token")
    case header: (Inr header)
    obtain r s where k: "keys_for lib now later (hd_kid header) self = (r, s)"
      by (cases "keys_for lib now later (hd_kid header) self")
    with assms Inr header show ?thesis
      by (cases r) (auto simp: oidc_exchange_code_def try_bind_Inr_iff)
  qed (use assms Inr in \<open>simp add: oidc_exchange_code_def\<close>)
qed (use assms in \<open>simp add: oidc_exchange_code_def\<close>)

lemma check_claims_Inr:
  "check_claims lib c ex = Inr () \<longleftrightarrow>
     claim_str lib c ''nonce'' = Some (ie_nonce ex) \<and> unwrap_or [] (claim_str lib c ''sub'') \<noteq> [] \<and>
     (\<forall>auds. Option.bind (c ''aud'') (ol_as_array lib) = Some auds \<longrightarrow> 1 < length auds \<longrightarrow>
        claim_str lib c ''azp'' = Some (ie_client_id ex))"
  by (auto simp: check_claims_def Let_def split: option.splits)



section \<open>The key cache spares the issuer\<close>

text \<open>
  The times at which a sequence of key requests fetched keys successfully.  A request comes with the
  library as it finds it, the times before and after, and the key id.
\<close>

fun key_fetches ::
  "(('u, 'v, 'j, 'k, 'ka, 'dk) oidc_lib \<times> int \<times> int \<times> string option) list \<Rightarrow> 'k OidcClient \<Rightarrow> int list" where
  "key_fetches [] self = []"
| "key_fetches ((lib, now, later, kid) # rest) self =
     (case (cached_keys lib now self kid, fetch_keys lib self) of
        (None, Inr _) \<Rightarrow> later # key_fetches rest (snd (keys_for lib now later kid self))
      | _ \<Rightarrow> key_fetches rest (snd (keys_for lib now later kid self)))"

text \<open>The clock does not go back between requests.\<close>

fun clock_ok :: "int \<Rightarrow> ('l \<times> int \<times> int \<times> 'i) list \<Rightarrow> bool" where
  "clock_ok t [] = True"
| "clock_ok t ((lib, now, later, kid) # rest) \<longleftrightarrow> t \<le> now \<and> now \<le> later \<and> clock_ok later rest"

definition last_fetch :: "'k OidcClient \<Rightarrow> int option" where
  "last_fetch self = map_option cj_fetched_at (oc_jwks self)"

lemma keys_for_last_fetch:
  "last_fetch (snd (keys_for lib now later kid self)) =
     (case (cached_keys lib now self kid, fetch_keys lib self) of (None, Inr _) \<Rightarrow> Some later | _ \<Rightarrow> last_fetch self)"
  by (simp add: keys_for_def last_fetch_def Let_def split: option.split sum.split)

lemma fetch_only_when_old:
  "cached_keys lib now self kid = None \<Longrightarrow> last_fetch self = Some t \<Longrightarrow> t + JWKS_MIN_REFRESH \<le> now"
  by (auto simp: cached_keys_def last_fetch_def Let_def JWKS_MIN_REFRESH_def JWKS_MAX_AGE_def split: if_splits)

lemma key_fetches_spaced:
  "clock_ok t0 reqs \<Longrightarrow>
   sorted_wrt (\<lambda>a b. a + JWKS_MIN_REFRESH \<le> b) (case_option [] (\<lambda>t. [t]) (last_fetch self) @ key_fetches reqs self)"
proof (induction reqs arbitrary: t0 self)
  case Nil
  then show ?case
    by (cases "last_fetch self") simp_all
next
  case (Cons r reqs)
  obtain lib now later kid where r: "r = (lib, now, later, kid)"
    by (cases r)
  let ?self = "snd (keys_for lib now later kid self)"
  from Cons.prems r have "now \<le> later" and rest: "clock_ok later reqs"
    by simp_all
  note IH = Cons.IH [OF rest, of ?self]
  show ?case
  proof (cases "\<exists>ks. cached_keys lib now self kid = None \<and> fetch_keys lib self = Inr ks")
    case True
    then have "last_fetch ?self = Some later"
      by (auto simp: keys_for_last_fetch)
    moreover from True have "t + JWKS_MIN_REFRESH \<le> later" if "last_fetch self = Some t" for t
      using fetch_only_when_old that \<open>now \<le> later\<close> by (metis order_trans)
    ultimately show ?thesis
      using True IH by (cases "last_fetch self") (fastforce simp: r JWKS_MIN_REFRESH_def)+
  next
    case False
    then have "last_fetch ?self = last_fetch self" "key_fetches (r # reqs) self = key_fetches reqs ?self"
      by (auto simp: keys_for_last_fetch r split: option.splits sum.splits)
    with IH show ?thesis
      by simp
  qed
qed


section \<open>A concrete issuer\<close>

text \<open>A network whose every host is one public address and whose every answer is a short body.\<close>

definition tiny_net :: "(string, string) net" where
  "tiny_net =
     \<lparr>url_parse = Inr, url_scheme = (\<lambda>_. ''https''), url_host_str = (\<lambda>_. Some ''8.8.8.8''),
      url_port_or_known_default = (\<lambda>_. Some 443), url_join = (\<lambda>_. Inr), url_to_string = (\<lambda>u. u),
      header_to_str = Some, form_urlencode = (\<lambda>_. []), lookup_host = (\<lambda>_ _. Inr []),
      client_build = (\<lambda>_. None),
      http_send = (\<lambda>_ _ _. Inr \<lparr>hr_status = 200, hr_location = None, hr_url = ''u'',
                                 hr_chunk = (\<lambda>i. if i = 0 then Inr (Some ''x'') else Inr None)\<rparr>)\<rparr>"

definition tiny_oauth :: oauth_lib where
  "tiny_oauth =
     \<lparr>ob_base64url = (\<lambda>b. b), ob_sha256 = (\<lambda>b. b), ob_query = (\<lambda>u _. u), ob_form = (\<lambda>_. []),
      ob_send = (\<lambda>_. Inl ''offline''), ob_token_json = (\<lambda>_. Inl ''x''), ob_google_json = (\<lambda>_. Inl ''x''),
      ob_github_json = (\<lambda>_. Inl ''x''), ob_discord_json = (\<lambda>_. Inl ''x'')\<rparr>"

definition tiny_claims :: "string claims" where
  "tiny_claims = [''iss'' \<mapsto> ''https://i'', ''aud'' \<mapsto> ''cid'', ''sub'' \<mapsto> ''u1'', ''nonce'' \<mapsto> ''n'']"

definition tiny_meta :: "string \<Rightarrow> IssuerMetadata" where
  "tiny_meta issr = \<lparr>im_issuer = issr, im_authorization_endpoint = ''https://i/a'', im_token_endpoint = ''https://i/t'',
     im_jwks_uri = ''https://i/k'', im_id_token_signing_alg_values_supported = []\<rparr>"

definition tiny_lib :: "(string, string, string, string, unit, string) oidc_lib" where
  "tiny_lib =
     \<lparr>ol_oauth = tiny_oauth, ol_net = tiny_net, ol_online = (\<lambda>_. tiny_net), ol_time_left = (\<lambda>_ _. True),
      ol_query = (\<lambda>_. None), ol_fragment = (\<lambda>_. None), ol_append = (\<lambda>u _. u), ol_utf8_lossy = (\<lambda>b. b),
      ol_meta_json = (\<lambda>_. Inr (tiny_meta ''https://i'')), ol_token_json = (\<lambda>_. Inr (Some ''tok'')),
      ol_jwks_json = (\<lambda>_. Inr [''k1'']), ol_as_str = Some, ol_as_bool = (\<lambda>_. None), ol_as_array = (\<lambda>_. None),
      ol_alg_from_str = (\<lambda>_. None), ol_alg_debug = (\<lambda>_. []), ol_key_id = Some, ol_key_algorithm = (\<lambda>_. None),
      ol_ka_alg = (\<lambda>_. None), ol_ka_to_string = (\<lambda>_. []),
      ol_decode_header = (\<lambda>_. Inr \<lparr>hd_alg = RS256, hd_kid = Some ''k1''\<rparr>), ol_key_from_jwk = Inr,
      ol_validation_new = (\<lambda>_. \<lparr>v_iss = None, v_aud = None, v_validate_exp = True, v_validate_nbf = False,
         v_validate_aud = True, v_leeway = 60, v_required_spec_claims = [''exp'']\<rparr>),
      ol_decode = (\<lambda>token key v. if token = ''tok'' \<and> key = ''k1'' \<and> v_iss v = Some [''https://i''] \<and> v_aud v = Some [''cid'']
         then Inr tiny_claims else Inl ''rejected'')\<rparr>"

definition tiny_client :: "string \<Rightarrow> string CachedJwks option \<Rightarrow> string OidcClient" where
  "tiny_client issr cache =
     \<lparr>oc_meta = tiny_meta issr, oc_oidc_client_id = ''cid'', oc_oidc_client_secret = ''s'', oc_oidc_redirect_uri = ''https://me'',
      oc_oidc_scope = DEFAULT_SCOPE, oc_algorithms = [RS256], oc_fetch = fetch_opts_default, oc_jwks = cache\<rparr>"

definition tiny_response :: SafeResponse where
  "tiny_response = \<lparr>sr_status = 200, sr_body = ''x'', sr_final_url = ''u''\<rparr>"

lemma tiny_ok: "id_decode_checks tiny_lib (\<lambda>token key. token = ''tok'' \<and> key = ''k1'')"
  by (auto simp: id_decode_checks_def tiny_lib_def tiny_claims_def claim_str_def names_audience_def split: if_splits)

lemma tiny_client_new: "oidc_client_new tiny_lib (tiny_meta issr) ''cid'' ''s'' ''https://me'' None = Inr (tiny_client issr None)"
  by (simp add: oidc_client_new_def signing_algorithms_def tiny_meta_def tiny_client_def unwrap_or_def)

lemma tiny_open: "open_target tiny_net hop url
  = Inr (url, \<lparr>pc_no_proxy = True, pc_redirect_none = True,
      pc_resolve = (''8.8.8.8'', \<lparr>sa_ip = V4 (Ipv4 8 8 8 8), sa_port = 443\<rparr>)\<rparr>)"
proof -
  have "parse_ip ''8.8.8.8'' = Some (V4 (Ipv4 8 8 8 8))" and "is_public_unicast (V4 (Ipv4 8 8 8 8))"
    by code_simp+
  then show ?thesis
    by (simp add: open_target_def tiny_net_def resolve_and_validate_def)
qed

lemma tiny_read:
  "read_capped \<lparr>hr_status = 200, hr_location = (l :: string option), hr_url = ''u'',
     hr_chunk = (\<lambda>i. if i = 0 then Inr (Some ''x'') else Inr None)\<rparr> (fo_max_body_bytes fetch_opts_default)
   = Some (Inr tiny_response)"
  by (simp add: read_capped_def read_chunks.simps fetch_opts_default_def tiny_response_def)

lemma tiny_fetch:
  "safe_get tiny_net (\<lambda>_. True) url fetch_opts_default = Inr tiny_response"
  "safe_post_form tiny_net (\<lambda>_. True) url form fetch_opts_default = Inr tiny_response"
  using tiny_read [of None]
  by (simp_all add: safe_get_def safe_get_inner_def safe_get_loop.simps safe_post_form_def safe_post_form_inner_def
      tiny_open Let_def with_timeout_def is_redirection_def) (simp_all add: tiny_net_def is_redirection_def)

lemma tiny_keys:
  "keys_for tiny_lib 0 1 (Some ''k1'') (tiny_client issr None)
     = (Inr [''k1''], tiny_client issr (Some \<lparr>cj_set = [''k1''], cj_fetched_at = 1\<rparr>))"
  by (simp add: keys_for_def cached_keys_def fetch_keys_def tiny_client_def tiny_lib_def tiny_fetch
      tiny_response_def jwks_find_def)

lemma tiny_request: "request_id_token tiny_lib (tiny_client issr cache) code verifier = Inr ''tok''"
  by (simp add: request_id_token_def tiny_client_def tiny_lib_def tiny_fetch tiny_response_def)

lemma tiny_exchange:
  assumes "issr \<in> {''https://i'', ''https://i/''}"
  shows "oidc_exchange_code tiny_lib 0 1 ''c'' ''v'' ''n'' (tiny_client issr None)
    = (Inr (identity_from_claims tiny_lib issr tiny_claims, tiny_claims),
       tiny_client issr (Some \<lparr>cj_set = [''k1''], cj_fetched_at = 1\<rparr>))"
proof -
  have "trim_end_byte CHR ''/'' issr = ''https://i''"
    using assms by (auto simp: trim_end_byte_def)
  then have "validate_id_token tiny_lib ''tok'' [''k1''] (oidc_expectations (tiny_client issr None) ''n'') = Inr tiny_claims"
    by (simp add: validate_id_token_def oidc_expectations_def tiny_client_def tiny_meta_def tiny_lib_def select_key_def
        jwks_find_def id_token_validation_def check_claims_def claim_str_def tiny_claims_def unwrap_or_def)
  moreover have "ol_decode_header tiny_lib ''tok'' = Inr \<lparr>hd_alg = RS256, hd_kid = Some ''k1''\<rparr>"
    and "im_issuer (oc_meta (tiny_client issr None)) = issr"
    by (simp_all add: tiny_lib_def tiny_client_def tiny_meta_def)
  ultimately show ?thesis
    by (simp add: oidc_exchange_code_def tiny_request tiny_keys)
qed




end
