(* ===== verification/Cache_Url.thy ===== *)
theory Cache_Url
  imports Kit_Prelude
begin

text \<open>
  The connection settings of \<open>crates/cache/src/lib.rs\<close>: reading them from the environment, showing them
  without the password, escaping the credentials in the URL, and what \<open>connect\<close> does with the outcome
  of the first attempt.  Percent coding, the TLS files and the Valkey client are parameters.
\<close>

section \<open>Configuration\<close>

record CacheConfig =
  cc_url :: string
  cc_pool_size :: nat
  cc_ca_cert_path :: "string option"
  cc_password :: "string option"

definition is_query_or_fragment :: "char \<Rightarrow> bool" where
  "is_query_or_fragment c \<longleftrightarrow> c = CHR ''?'' \<or> c = CHR ''#''"

definition ends_host :: "char \<Rightarrow> bool" where
  "ends_host c \<longleftrightarrow> c = CHR ''/'' \<or> c = CHR ''?'' \<or> c = CHR ''#''"

definition redact_url :: "string \<Rightarrow> string" where
  "redact_url url =
     (case find_str ''://'' url of
        None \<Rightarrow> ''<redacted>''
      | Some scheme_end \<Rightarrow>
          (let scheme = take (scheme_end + 3) url;
               rest = drop (scheme_end + 3) url;
               search_end = unwrap_or (length rest) (find_byte is_query_or_fragment rest)
           in case rfind_byte CHR ''@'' (take search_end rest) of
                Some at_pos \<Rightarrow>
                  (let after_userinfo = drop (at_pos + 1) rest;
                       host_end = unwrap_or (length after_userinfo) (find_byte ends_host after_userinfo)
                   in scheme @ take host_end after_userinfo)
              | None \<Rightarrow>
                  if CHR ''@'' \<in> set rest then scheme @ ''<redacted>''
                  else
                    (let host_end = unwrap_or (length rest) (find_byte ends_host rest)
                     in scheme @ take host_end rest)))"

text \<open>The fields of the debug output, the two options printed by presence or path.\<close>

definition config_debug :: "CacheConfig \<Rightarrow> string \<times> nat \<times> string option \<times> string option" where
  "config_debug self =
     (redact_url (cc_url self), cc_pool_size self, cc_ca_cert_path self,
      map_option (\<lambda>_. ''<redacted>'') (cc_password self))"

text \<open>\<open>env\<close> is the environment: the variables that are set to a valid string.\<close>

definition config_from_env :: "(string \<rightharpoonup> string) \<Rightarrow> (string, CacheConfig) result" where
  "config_from_env env =
     try_bind (ok_or ''VALKEY_URL (or REDIS_URL) not set''
       (case env ''VALKEY_URL'' of Some u \<Rightarrow> Some u | None \<Rightarrow> env ''REDIS_URL'')) (\<lambda>url.
     let pool_size = unwrap_or 6 (Option.bind (env ''VALKEY_POOL_SIZE'') (parse_unsigned 64));
         password = Option.bind (env ''VALKEY_PASSWORD'') (\<lambda>v. if v = [] then None else Some v)
     in Inr \<lparr>cc_url = url, cc_pool_size = pool_size, cc_ca_cert_path = env ''VALKEY_CA_CERT'', cc_password = password\<rparr>)"

section \<open>Escaping the credentials\<close>

text \<open>\<open>pct\<close> is \<open>utf8_percent_encode\<close> with the set \<open>NON_ALPHANUMERIC\<close>.\<close>

definition percent_encode_userinfo :: "(string \<Rightarrow> string) \<Rightarrow> string \<Rightarrow> string" where
  "percent_encode_userinfo pct url =
     (case find_str ''://'' url of
        None \<Rightarrow> url
      | Some scheme_end \<Rightarrow>
          (let scheme = take (scheme_end + 3) url;
               rest = drop (scheme_end + 3) url;
               search_end = unwrap_or (length rest) (find_byte is_query_or_fragment rest)
           in case rfind_byte CHR ''@'' (take search_end rest) of
                None \<Rightarrow> url
              | Some at_pos \<Rightarrow>
                  (let userinfo = take at_pos rest;
                       after_at = drop (at_pos + 1) rest;
                       host_end = unwrap_or (length after_at) (find_byte ends_host after_at);
                       host_part = take host_end after_at;
                       tail = drop host_end after_at
                   in case split_once CHR '':'' userinfo of
                        Some (user, pass) \<Rightarrow> scheme @ pct user @ '':'' @ pct pass @ ''@'' @ host_part @ tail
                      | None \<Rightarrow> scheme @ pct userinfo @ ''@'' @ host_part @ tail)))"

section \<open>Connecting\<close>

abbreviation RECONNECT_MIN_DELAY_MS :: nat where "RECONNECT_MIN_DELAY_MS \<equiv> 100"
abbreviation RECONNECT_MAX_DELAY_MS :: nat where "RECONNECT_MAX_DELAY_MS \<equiv> 30000"
abbreviation COMMAND_TIMEOUT :: nat where "COMMAND_TIMEOUT \<equiv> 1"
abbreviation INITIAL_CONNECT_WAIT :: nat where "INITIAL_CONNECT_WAIT \<equiv> 5"

definition TRANSIENT_IO_ERRORS :: "string list" where
  "TRANSIENT_IO_ERRORS =
     [''ConnectionRefused'', ''ConnectionReset'', ''ConnectionAborted'', ''TimedOut'', ''HostUnreachable'',
      ''NetworkUnreachable'', ''NotConnected'', ''BrokenPipe'', ''UnexpectedEof'', ''failed to lookup address'']"

datatype valkey_error_kind = VkTimeout | VkCanceled | VkIo | VkOther

record valkey_error =
  ve_kind :: valkey_error_kind
  ve_details :: string
  ve_display :: string

definition is_transient :: "valkey_error \<Rightarrow> bool" where
  "is_transient error =
     (case ve_kind error of
        VkTimeout \<Rightarrow> True
      | VkCanceled \<Rightarrow> True
      | VkIo \<Rightarrow> list_ex (\<lambda>kind. sublist kind (ve_details error)) TRANSIENT_IO_ERRORS
      | VkOther \<Rightarrow> False)"

text \<open>The part of the client's configuration the code sets.\<close>

record 't client_config =
  vc_password :: "string option"
  vc_tls :: "'t option"
  vc_fail_fast :: bool

text \<open>
  The libraries: reading a file, the certificates of a PEM file, admitting a certificate as a trust
  root, the TLS configuration of a list of roots, the parser of connection URLs, the pool, and the
  outcome of waiting for its first connection, \<open>None\<close> when the wait runs out.
\<close>

type_synonym reconnect_policy = "nat \<times> nat \<times> nat \<times> nat"

record ('c, 't, 'p) valkey =
  vk_read_file :: "string \<Rightarrow> (string, string) result"
  vk_pem_certs :: "string \<Rightarrow> (string, 'c list) result"
  vk_add_root :: "'c \<Rightarrow> (string, unit) result"
  vk_tls_config :: "'c list \<Rightarrow> 't"
  vk_from_url :: "string \<Rightarrow> (string, 't client_config) result"
  vk_pool :: "'t client_config \<Rightarrow> nat \<Rightarrow> reconnect_policy \<Rightarrow> nat \<Rightarrow> (string, 'p) result"
  vk_wait :: "'p \<Rightarrow> nat \<Rightarrow> (valkey_error, unit) result option"

fun add_roots :: "('c \<Rightarrow> (string, unit) result) \<Rightarrow> 'c list \<Rightarrow> 'c list \<Rightarrow> (string, 'c list) result" where
  "add_roots add roots [] = Inr roots"
| "add_roots add roots (cert # certs) =
     try_bind (map_err (\<lambda>e. ''invalid CA certificate in VALKEY_CA_CERT: '' @ e) (add cert))
       (\<lambda>_. add_roots add (roots @ [cert]) certs)"

definition rustls_config_with_ca :: "('c, 't, 'p) valkey \<Rightarrow> string \<Rightarrow> (string, 't) result" where
  "rustls_config_with_ca vk path =
     try_bind (map_err (\<lambda>e. ''failed to read VALKEY_CA_CERT ('' @ path @ ''): '' @ e) (vk_read_file vk path)) (\<lambda>pem.
     try_bind (map_err (\<lambda>e. ''failed to parse VALKEY_CA_CERT PEM: '' @ e) (vk_pem_certs vk pem)) (\<lambda>certs.
     if certs = [] then Inl (''VALKEY_CA_CERT ('' @ path @ '') contains no certificates'')
     else try_bind (add_roots (vk_add_root vk) [] certs) (\<lambda>roots. Inr (vk_tls_config vk roots))))"

definition cache_client_config ::
  "('c, 't, 'p) valkey \<Rightarrow> (string \<Rightarrow> string) \<Rightarrow> CacheConfig \<Rightarrow> (string, 't client_config) result" where
  "cache_client_config vk pct config =
     try_bind (map_err (\<lambda>e. ''invalid VALKEY_URL: '' @ e)
       (vk_from_url vk (percent_encode_userinfo pct (cc_url config)))) (\<lambda>cfg.
     let cfg = (case cc_password config of Some p \<Rightarrow> cfg\<lparr>vc_password := Some p\<rparr> | None \<Rightarrow> cfg)
     in if starts_with ''rediss://'' (cc_url config)
        then (case cc_ca_cert_path config of
                Some path \<Rightarrow> try_bind (rustls_config_with_ca vk path) (\<lambda>t. Inr (cfg\<lparr>vc_tls := Some t\<rparr>))
              | None \<Rightarrow> Inr cfg)
        else Inr cfg)"

definition build_pool ::
  "('c, 't, 'p) valkey \<Rightarrow> nat \<Rightarrow> 't client_config \<Rightarrow> (string, 'p) result" where
  "build_pool vk pool_size cfg =
     map_err (\<lambda>e. ''failed to build Valkey pool: '' @ e)
       (vk_pool vk cfg COMMAND_TIMEOUT (0, RECONNECT_MIN_DELAY_MS, RECONNECT_MAX_DELAY_MS, 2) pool_size)"

text \<open>What \<open>connect\<close> does to its pools, in order, beside its result.\<close>

datatype 'p pool_event = Connect 'p | Quit 'p

definition cache_connect ::
  "('c, 't, 'p) valkey \<Rightarrow> (string \<Rightarrow> string) \<Rightarrow> CacheConfig \<Rightarrow> (string, 'p) result \<times> 'p pool_event list" where
  "cache_connect vk pct config =
     (case cache_client_config vk pct config of
        Inl e \<Rightarrow> (Inl e, [])
      | Inr cfg \<Rightarrow>
          (case build_pool vk (cc_pool_size config) cfg of
             Inl e \<Rightarrow> (Inl e, [])
           | Inr probe \<Rightarrow>
               let background =
                 (case build_pool vk (cc_pool_size config) (cfg\<lparr>vc_fail_fast := False\<rparr>) of
                    Inl e \<Rightarrow> (Inl e, [Connect probe, Quit probe])
                  | Inr pool \<Rightarrow> (Inr pool, [Connect probe, Quit probe, Connect pool]))
               in case vk_wait vk probe INITIAL_CONNECT_WAIT of
                    Some (Inr _) \<Rightarrow> (Inr probe, [Connect probe])
                  | Some (Inl e) \<Rightarrow>
                      if \<not> is_transient e
                      then (Inl (''Valkey connect failed: '' @ ve_display e), [Connect probe, Quit probe])
                      else background
                  | None \<Rightarrow> background))"

section \<open>Finding the pieces of a URL\<close>

lemma find_str_scheme: "CHR '':'' \<notin> set scheme \<Longrightarrow> find_str ''://'' (scheme @ ''://'' @ rest) = Some (length scheme)"
  by (induction scheme) (auto simp: take_Cons')

lemma find_byte_append:
  "find_byte P (xs @ ys) = (if list_ex P xs then find_byte P xs else map_option ((+) (length xs)) (find_byte P ys))"
  by (auto simp: find_byte_def list_ex_iff takeWhile_append1 takeWhile_append2)

lemma find_byte_None: "find_byte P s = None \<longleftrightarrow> \<not> list_ex P s"
  by (simp add: find_byte_def)

lemma find_byte_takeWhile: "take (unwrap_or (length s) (find_byte P s)) s = takeWhile (\<lambda>c. \<not> P c) s"
proof (cases "list_ex P s")
  case True
  then show ?thesis
    by (simp add: find_byte_def unwrap_or_def) (metis takeWhile_eq_take)
next
  case False
  then show ?thesis
    by (simp add: find_byte_def unwrap_or_def list_ex_iff takeWhile_eq_all_conv [THEN iffD2])
qed

lemma takeWhile_before: "d \<notin> set b \<Longrightarrow> takeWhile (\<lambda>c. c \<noteq> d) (b @ d # a) = b"
  by (induction b) auto

lemma rfind_byte_last: "d \<notin> set b \<Longrightarrow> rfind_byte d (a @ d # b) = Some (length a)"
  by (simp add: rfind_byte_def takeWhile_before)

lemma rfind_byte_absent: "d \<notin> set s \<Longrightarrow> rfind_byte d s = None"
  by (simp add: rfind_byte_def)

section \<open>What is shown of a URL\<close>

text \<open>The authority is split at the last \<open>@\<close> that no query or fragment delimiter precedes.\<close>

lemma userinfo_boundary:
  assumes "\<not> list_ex is_query_or_fragment secret"
    and "CHR ''@'' \<notin> set (takeWhile (\<lambda>c. \<not> is_query_or_fragment c) host)"
  shows "rfind_byte CHR ''@'' (takeWhile (\<lambda>c. \<not> is_query_or_fragment c) (secret @ CHR ''@'' # host))
    = Some (length secret)"
proof -
  have "takeWhile (\<lambda>c. \<not> is_query_or_fragment c) (secret @ CHR ''@'' # host)
      = secret @ CHR ''@'' # takeWhile (\<lambda>c. \<not> is_query_or_fragment c) host"
    using assms(1) by (simp add: takeWhile_append2 list_ex_iff is_query_or_fragment_def)
  then show ?thesis
    using assms(2) by (simp add: rfind_byte_last)
qed

lemma no_userinfo_boundary:
  assumes "list_ex is_query_or_fragment secret"
    and "CHR ''@'' \<notin> set (takeWhile (\<lambda>c. \<not> is_query_or_fragment c) secret)"
  shows "rfind_byte CHR ''@'' (takeWhile (\<lambda>c. \<not> is_query_or_fragment c) (secret @ CHR ''@'' # host)) = None"
proof -
  obtain c where "c \<in> set secret" "is_query_or_fragment c"
    using assms(1) by (auto simp: list_ex_iff)
  then have "takeWhile (\<lambda>c. \<not> is_query_or_fragment c) (secret @ CHR ''@'' # host)
      = takeWhile (\<lambda>c. \<not> is_query_or_fragment c) secret"
    by (simp add: takeWhile_append1)
  then show ?thesis
    using assms(2) by (simp add: rfind_byte_absent)
qed

lemma redact_clean_userinfo:
  assumes "CHR '':'' \<notin> set scheme" "\<not> list_ex is_query_or_fragment secret"
    and "CHR ''@'' \<notin> set (takeWhile (\<lambda>c. \<not> is_query_or_fragment c) host)"
  shows "redact_url (scheme @ ''://'' @ secret @ ''@'' @ host)
    = scheme @ ''://'' @ takeWhile (\<lambda>c. \<not> ends_host c) host"
  using userinfo_boundary [OF assms(2,3)]
  by (simp add: redact_url_def find_str_scheme [OF assms(1), simplified] find_byte_takeWhile Let_def)

lemma redact_broken_userinfo:
  assumes "CHR '':'' \<notin> set scheme" "list_ex is_query_or_fragment secret"
    and "CHR ''@'' \<notin> set (takeWhile (\<lambda>c. \<not> is_query_or_fragment c) secret)"
  shows "redact_url (scheme @ ''://'' @ secret @ ''@'' @ host) = scheme @ ''://<redacted>''"
  using no_userinfo_boundary [OF assms(2,3), of host]
  by (simp add: redact_url_def find_str_scheme [OF assms(1), simplified] find_byte_takeWhile Let_def)



text \<open>
  C37: The exception is a leak.  Credentials with an at sign and, after it, a raw \<open>?\<close> or \<open>#\<close> have the bytes
  between the two written to the log as if they were the host: whatever they are, they are the end of
  the output.
\<close>

theorem redaction_leaks_after_at_sign:
  assumes "CHR '':'' \<notin> set scheme" "\<not> list_ex ends_host p" "\<not> list_ex ends_host leaked"
    and "CHR ''@'' \<notin> set leaked" "is_query_or_fragment q"
  shows "redact_url (scheme @ ''://'' @ (p @ ''@'' @ leaked @ [q] @ tail) @ ''@'' @ host) = scheme @ ''://'' @ leaked"
proof -
  have p: "\<not> list_ex is_query_or_fragment p" and l: "\<forall>c \<in> set leaked. \<not> is_query_or_fragment c"
    using assms(2,3) by (auto simp: list_ex_iff is_query_or_fragment_def ends_host_def)
  have "takeWhile (\<lambda>c. \<not> is_query_or_fragment c) (leaked @ q # tail @ CHR ''@'' # host) = leaked"
    using l assms(5) by (simp add: takeWhile_append2)
  with assms(4) have "CHR ''@'' \<notin> set (takeWhile (\<lambda>c. \<not> is_query_or_fragment c) (leaked @ q # tail @ CHR ''@'' # host))"
    by simp
  from redact_clean_userinfo [OF assms(1) p this]
  have "redact_url (scheme @ ''://'' @ (p @ ''@'' @ leaked @ [q] @ tail) @ ''@'' @ host)
      = scheme @ ''://'' @ takeWhile (\<lambda>c. \<not> ends_host c) (leaked @ q # tail @ CHR ''@'' # host)"
    by simp
  moreover have "ends_host q"
    using assms(5) by (auto simp: is_query_or_fragment_def ends_host_def)
  ultimately show ?thesis
    using assms(3) by (simp add: takeWhile_append2 list_ex_iff)
qed

theorem redaction_leaks_after_at_sign_witness:
  "redact_url ''redis://:pass@word?1@cache:6379'' = ''redis://word''"
  using redaction_leaks_after_at_sign [of "''redis''" "'':pass''" "''word''" "CHR ''?''" "''1''" "''cache:6379''"]
  by (simp add: is_query_or_fragment_def ends_host_def)

section \<open>Credentials that survive the URL\<close>

lemma host_and_tail:
  "takeWhile (\<lambda>c. \<not> P c) s @ drop (unwrap_or (length s) (find_byte P s)) s = s"
  unfolding find_byte_takeWhile [symmetric] by (rule append_take_drop_id)

lemma encode_userinfo_shape:
  assumes "CHR '':'' \<notin> set scheme" "\<not> list_ex is_query_or_fragment (user @ '':'' @ pass)"
    and "CHR '':'' \<notin> set user"
    and "CHR ''@'' \<notin> set (takeWhile (\<lambda>c. \<not> is_query_or_fragment c) host)"
  shows "percent_encode_userinfo pct (scheme @ ''://'' @ (user @ '':'' @ pass) @ ''@'' @ host)
    = scheme @ ''://'' @ pct user @ '':'' @ pct pass @ ''@'' @ host"
proof -
  have sp: "split_once CHR '':'' (user @ CHR '':'' # pass) = Some (user, pass)"
    using assms(3) by (simp add: split_once_Some_iff)
  show ?thesis
    using userinfo_boundary [OF assms(2,4)] sp
    by (simp add: percent_encode_userinfo_def find_str_scheme [OF assms(1), simplified] find_byte_takeWhile
        Let_def host_and_tail)
qed

text \<open>
  How a URL is read back: the authority runs to the first \<open>/\<close>, \<open>?\<close> or \<open>#\<close>, its last \<open>@\<close> ends the user
  information, whose first \<open>:\<close> ends the user name, and both parts are percent decoded.
\<close>

definition url_credentials :: "(string \<Rightarrow> string) \<Rightarrow> string \<Rightarrow> (string \<times> string \<times> string) option" where
  "url_credentials dec url =
     (case find_str ''://'' url of
        None \<Rightarrow> None
      | Some i \<Rightarrow>
          (case rsplit_once CHR ''@'' (takeWhile (\<lambda>c. \<not> ends_host c) (drop (i + 3) url)) of
             None \<Rightarrow> None
           | Some (userinfo, host) \<Rightarrow>
               (case split_once CHR '':'' userinfo of
                  None \<Rightarrow> None
                | Some (user, pass) \<Rightarrow> Some (dec user, dec pass, host))))"

text \<open>What percent coding promises: only letters, digits and \<open>%\<close> are written, and decoding inverts it.\<close>

definition pct_ok :: "(string \<Rightarrow> string) \<Rightarrow> (string \<Rightarrow> string) \<Rightarrow> bool" where
  "pct_ok pct dec \<longleftrightarrow>
     (\<forall>s. list_all (\<lambda>c. is_ascii_alphanumeric c \<or> c = CHR ''%'') (pct s)) \<and> (\<forall>s. dec (pct s) = s)"

lemma pct_plain:
  assumes "pct_ok pct dec" "c \<in> set (pct s)"
  shows "c \<noteq> CHR '':'' \<and> c \<noteq> CHR ''@'' \<and> \<not> ends_host c"
proof -
  have "is_ascii_alphanumeric c \<or> c = CHR ''%''"
    using assms by (auto simp: pct_ok_def list_all_iff)
  then show ?thesis
    by (auto simp: is_ascii_alphanumeric_def is_ascii_digit_def ends_host_def)
qed

lemma credentials_of_encoded:
  assumes pct: "pct_ok pct dec" and scheme: "CHR '':'' \<notin> set scheme"
    and host: "CHR ''@'' \<notin> set (takeWhile (\<lambda>c. \<not> ends_host c) host)"
  shows "url_credentials dec (scheme @ ''://'' @ pct user @ '':'' @ pct pass @ ''@'' @ host)
    = Some (user, pass, takeWhile (\<lambda>c. \<not> ends_host c) host)"
proof -
  let ?h = "takeWhile (\<lambda>c. \<not> ends_host c) host"
  let ?u = "pct user @ '':'' @ pct pass"
  have "\<forall>c \<in> set (?u @ ''@''). \<not> ends_host c"
    using pct_plain [OF pct] by (auto simp: ends_host_def)
  then have "takeWhile (\<lambda>c. \<not> ends_host c) ((?u @ ''@'') @ host) = (?u @ ''@'') @ ?h"
    by (intro takeWhile_append2) blast
  moreover have "rsplit_once CHR ''@'' (?u @ CHR ''@'' # ?h) = Some (?u, ?h)"
    using host by (simp only: rsplit_once_Some_iff) simp
  moreover have "split_once CHR '':'' (pct user @ CHR '':'' # pct pass) = Some (pct user, pct pass)"
    using pct_plain [OF pct] by (auto simp: split_once_Some_iff)
  moreover have "dec (pct user) = user" "dec (pct pass) = pass"
    using pct by (simp_all add: pct_ok_def)
  ultimately show ?thesis
    by (simp add: url_credentials_def find_str_scheme [OF scheme, simplified])
qed

lemma at_free_host:
  "CHR ''@'' \<notin> set (takeWhile (\<lambda>c. \<not> is_query_or_fragment c) host) \<Longrightarrow>
   CHR ''@'' \<notin> set (takeWhile (\<lambda>c. \<not> ends_host c) host)"
  by (induction host) (auto simp: is_query_or_fragment_def ends_host_def split: if_splits)

text \<open>
  A raw user name and password put into the URL reach the server as they are: reading the URL that
  \<open>connect\<close> hands to the client gives back the user, the password and the host, for every password
  without a raw \<open>?\<close> or \<open>#\<close>, whatever slashes, colons, at signs or percent signs it has.
\<close>

theorem raw_credentials_survive:
  assumes "pct_ok pct dec" "CHR '':'' \<notin> set scheme" "CHR '':'' \<notin> set user"
    and "\<not> list_ex is_query_or_fragment (user @ '':'' @ pass)"
    and "CHR ''@'' \<notin> set (takeWhile (\<lambda>c. \<not> is_query_or_fragment c) host)"
  shows "url_credentials dec (percent_encode_userinfo pct (scheme @ ''://'' @ (user @ '':'' @ pass) @ ''@'' @ host))
    = Some (user, pass, takeWhile (\<lambda>c. \<not> ends_host c) host)"
  unfolding encode_userinfo_shape [OF assms(2,4,3,5)]
  using credentials_of_encoded [OF assms(1,2) at_free_host [OF assms(5)]] .

text \<open>Percent coding itself, for a concrete instance of the promise.\<close>

definition nibble_char :: "nat \<Rightarrow> char" where
  "nibble_char n = (if n < 10 then char_of (48 + n) else char_of (55 + n))"

definition nibble_val :: "char \<Rightarrow> nat" where
  "nibble_val c = (if byte c < 58 then byte c - 48 else byte c - 55)"

definition pct_encode :: "string \<Rightarrow> string" where
  "pct_encode s =
     concat (map (\<lambda>c. if is_ascii_alphanumeric c then [c]
                      else [CHR ''%'', nibble_char (byte c div 16), nibble_char (byte c mod 16)]) s)"

fun pct_decode :: "string \<Rightarrow> string" where
  "pct_decode (c # a # b # s) =
     (if c = CHR ''%'' then char_of (16 * nibble_val a + nibble_val b) # pct_decode s else c # pct_decode (a # b # s))"
| "pct_decode s = s"

lemma nibble: "n < 16 \<Longrightarrow> nibble_val (nibble_char n) = n \<and> is_ascii_alphanumeric (nibble_char n)"
  by (auto simp: nibble_val_def nibble_char_def is_ascii_alphanumeric_def is_ascii_digit_def)

lemma pct_decode_plain: "c \<noteq> CHR ''%'' \<Longrightarrow> pct_decode (c # s) = c # pct_decode s"
  by (cases s rule: pct_decode.cases) auto

lemma byte_below: "byte c < 256"
  by simp

lemma pct_encode_ok: "pct_ok pct_encode pct_decode"
proof -
  have alnum: "is_ascii_alphanumeric c \<Longrightarrow> c \<noteq> CHR ''%''" for c
    by (auto simp: is_ascii_alphanumeric_def is_ascii_digit_def)
  have "list_all (\<lambda>c. is_ascii_alphanumeric c \<or> c = CHR ''%'') (pct_encode s)" for s
  proof (induction s)
    case (Cons c s)
    have "byte c div 16 < 16"
      using byte_below [of c] by (simp add: less_mult_imp_div_less)
    with Cons show ?case
      by (simp add: pct_encode_def nibble)
  qed (simp add: pct_encode_def)
  moreover have "pct_decode (pct_encode s) = s" for s
  proof (induction s)
    case (Cons c s)
    have "byte c div 16 < 16"
      using byte_below [of c] by (simp add: less_mult_imp_div_less)
    moreover have "char_of (16 * (byte c div 16) + byte c mod 16) = c"
      by simp
    ultimately show ?case
      using Cons by (simp add: pct_encode_def nibble pct_decode_plain alnum)
  qed (simp add: pct_encode_def)
  ultimately show ?thesis
    by (simp add: pct_ok_def)
qed

theorem raw_credentials_survive_witness:
  "url_credentials pct_decode (percent_encode_userinfo pct_encode ''rediss://app:a/b:c@d%=@cache:6379/0'')
     = Some (''app'', ''a/b:c@d%='', ''cache:6379'')"
  using raw_credentials_survive [OF pct_encode_ok, of "''rediss''" "''app''" "''a/b:c@d%=''" "''cache:6379/0''"]
  by (simp add: is_query_or_fragment_def ends_host_def)

section \<open>Connecting\<close>

text \<open>The pools left connected by a run of events.\<close>

fun open_pools :: "'p pool_event list \<Rightarrow> 'p list" where
  "open_pools [] = []"
| "open_pools (Connect p # es) = (if Quit p \<in> set es then open_pools es else p # open_pools es)"
| "open_pools (Quit p # es) = open_pools es"

lemma connect_leaves_one_pool:
  "open_pools (snd (cache_connect vk pct config)) = (case fst (cache_connect vk pct config) of Inl _ \<Rightarrow> [] | Inr p \<Rightarrow> [p])"
  by (auto simp: cache_connect_def Let_def split: sum.splits option.splits)

lemma connect_survives_outage:
  assumes "cache_client_config vk pct config = Inr cfg"
    and "build_pool vk (cc_pool_size config) cfg = Inr probe"
    and "build_pool vk (cc_pool_size config) (cfg\<lparr>vc_fail_fast := False\<rparr>) = Inr pool"
    and "vk_wait vk probe INITIAL_CONNECT_WAIT \<in> {None} \<union> Some ` Inl ` {e. is_transient e}"
  shows "fst (cache_connect vk pct config) = Inr pool"
  using assms by (auto simp: cache_connect_def Let_def)

text \<open>A password of its own replaces the one of the URL, and a CA file is trusted alone.\<close>

lemma client_config_password:
  "cache_client_config vk pct config = Inr cfg \<Longrightarrow> cc_password config = Some p \<Longrightarrow> vc_password cfg = Some p"
  by (auto simp: cache_client_config_def try_bind_Inr_iff Let_def split: if_splits option.splits)

lemma add_roots_all: "add_roots add roots certs = Inr out \<Longrightarrow> out = roots @ certs"
  by (induction certs arbitrary: roots) (fastforce simp: try_bind_Inr_iff)+

lemma ca_trusted_alone:
  "rustls_config_with_ca vk path = Inr t \<Longrightarrow>
   \<exists>pem certs. vk_read_file vk path = Inr pem \<and> vk_pem_certs vk pem = Inr certs \<and> certs \<noteq> [] \<and> t = vk_tls_config vk certs"
  by (auto simp: rustls_config_with_ca_def try_bind_Inr_iff split: if_splits dest!: add_roots_all)

end
