(* ===== verification/Swr_Cache.thy ===== *)
theory Swr_Cache
  imports Kit_Prelude "HOL-Library.Word"
begin

text \<open>
  The stale-while-revalidate cache of \<open>crates/cache/src/swr.rs\<close>.  A run produces its result and the
  steps it took, in order.  What the outside answers at each step (Valkey, the loader, the clock) is
  a function of the position of the step, so that every interleaving with other processes is some
  environment.  Writes and deletions are fire and forget in the code: their outcome is not looked at.
\<close>

section \<open>State and steps\<close>

record 'v Envelope =
  en_ts_ms :: "64 word"
  en_payload :: 'v

text \<open>A \<open>Duration\<close> is its number of nanoseconds.\<close>

record Swr =
  sw_key :: string
  sw_fresh_ttl :: nat
  sw_hard_ttl :: nat
  sw_lock_ttl :: nat
  sw_bypass :: bool

definition as_millis :: "nat \<Rightarrow> nat" where
  "as_millis d = d div 1000000"

definition from_millis :: "64 word \<Rightarrow> nat" where
  "from_millis ms = unat ms * 1000000"

definition saturating_sub :: "'a::len word \<Rightarrow> 'a word \<Rightarrow> 'a word" where
  "saturating_sub x y = (if x < y then 0 else x - y)"

text \<open>The cast to \<open>i64\<close> keeps the low 64 bits.\<close>

definition px_of :: "nat \<Rightarrow> 64 word" where
  "px_of d = of_nat (as_millis d)"

datatype step =
    ReadKey string
  | TryLock string "64 word"
  | Load
  | Store string string "64 word"
  | Unlock string
  | Pause nat
  | SpawnRefresh string string

record 'v swr_env =
  se_get :: "nat \<Rightarrow> (string, string option) result"
  se_lock :: "nat \<Rightarrow> (string, bool) result"
  se_load :: "nat \<Rightarrow> (string, 'v) result"
  se_now :: "nat \<Rightarrow> 64 word"
  se_from_json :: "string \<Rightarrow> 'v Envelope option"
  se_to_json :: "'v Envelope \<Rightarrow> (string, string) result"

section \<open>Operations\<close>

definition store_steps :: "'v swr_env \<Rightarrow> nat \<Rightarrow> string \<Rightarrow> nat \<Rightarrow> 'v \<Rightarrow> step list" where
  "store_steps env i key hard_ttl v =
     (case se_to_json env \<lparr>en_ts_ms = se_now env i, en_payload = v\<rparr> of
        Inl _ \<Rightarrow> []
      | Inr json \<Rightarrow> [Store key json (px_of hard_ttl)])"

definition try_lock :: "'v swr_env \<Rightarrow> nat \<Rightarrow> bool" where
  "try_lock env i = (case se_lock env i of Inr got \<Rightarrow> got | Inl _ \<Rightarrow> False)"

definition is_fresh :: "'v swr_env \<Rightarrow> nat \<Rightarrow> Swr \<Rightarrow> 'v Envelope \<Rightarrow> bool" where
  "is_fresh env i self e \<longleftrightarrow> from_millis (saturating_sub (se_now env i) (en_ts_ms e)) < sw_fresh_ttl self"

definition lock_key :: "Swr \<Rightarrow> string" where
  "lock_key self = sw_key self @ '':lock''"

definition POLL_INTERVAL_MS :: nat where "POLL_INTERVAL_MS = 25"

definition max_polls :: "Swr \<Rightarrow> nat" where
  "max_polls self = max (as_millis (sw_lock_ttl self) div max POLL_INTERVAL_MS 1) 1"

text \<open>The value a read found, when it can be read and decoded.\<close>

definition read_envelope :: "'v swr_env \<Rightarrow> nat \<Rightarrow> 'v Envelope option" where
  "read_envelope env i =
     (case se_get env i of Inr (Some raw) \<Rightarrow> se_from_json env raw | _ \<Rightarrow> None)"

fun poll :: "'v swr_env \<Rightarrow> Swr \<Rightarrow> nat \<Rightarrow> nat \<Rightarrow> 'v option \<times> step list" where
  "poll env self 0 i = (None, [])"
| "poll env self (Suc n) i =
     (let steps = [Pause POLL_INTERVAL_MS, ReadKey (sw_key self)];
          again = (let (r, later) = poll env self n (i + 2) in (r, steps @ later))
      in case read_envelope env (i + 1) of
           Some e \<Rightarrow> if is_fresh env (i + 1) self e then (Some (en_payload e), steps) else again
         | None \<Rightarrow> again)"

definition load_and_store ::
  "'v swr_env \<Rightarrow> Swr \<Rightarrow> step list \<Rightarrow> (string, 'v) result \<times> step list" where
  "load_and_store env self before =
     (let i = length before in
      case se_load env i of
        Inl e \<Rightarrow> (Inl e, before @ [Load])
      | Inr v \<Rightarrow> (Inr v, before @ [Load] @ store_steps env (i + 1) (sw_key self) (sw_hard_ttl self) v))"

text \<open>A miss: the winner of the lock loads, the others wait for its value and load as a last resort.\<close>

definition load_missing :: "'v swr_env \<Rightarrow> Swr \<Rightarrow> (string, 'v) result \<times> step list" where
  "load_missing env self =
     (let steps = [ReadKey (sw_key self), TryLock (lock_key self) (px_of (sw_lock_ttl self))] in
      if try_lock env 1
      then (let (r, done) = load_and_store env self steps in (r, done @ [Unlock (lock_key self)]))
      else
        (case poll env self (max_polls self) 2 of
           (Some v, polled) \<Rightarrow> (Inr v, steps @ polled)
         | (None, polled) \<Rightarrow> load_and_store env self (steps @ polled)))"

definition get_or_load :: "'v swr_env \<Rightarrow> Swr \<Rightarrow> (string, 'v) result \<times> step list" where
  "get_or_load env self =
     (if sw_bypass self then load_and_store env self []
      else
        (case se_get env 0 of
           Inl _ \<Rightarrow> (se_load env 1, [ReadKey (sw_key self), Load])
         | Inr None \<Rightarrow> load_missing env self
         | Inr (Some raw) \<Rightarrow>
             (case se_from_json env raw of
                Some e \<Rightarrow>
                  if is_fresh env 0 self e then (Inr (en_payload e), [ReadKey (sw_key self)])
                  else (Inr (en_payload e), [ReadKey (sw_key self), SpawnRefresh (sw_key self) (lock_key self)])
              | None \<Rightarrow> load_missing env self)))"

definition spawn_refresh :: "'v swr_env \<Rightarrow> string \<Rightarrow> string \<Rightarrow> nat \<Rightarrow> nat \<Rightarrow> step list" where
  "spawn_refresh env key lkey hard_ttl lock_ttl =
     (let steps = [TryLock lkey (px_of lock_ttl)] in
      if \<not> try_lock env 0 then steps
      else
        (case se_load env 1 of
           Inr v \<Rightarrow> steps @ [Load] @ store_steps env 2 key hard_ttl v @ [Unlock lkey]
         | Inl _ \<Rightarrow> steps @ [Load] @ [Unlock lkey]))"

section \<open>Where an answer comes from\<close>

text \<open>The value was loaded, or decoded from what a read returned, at a step of the run.\<close>

definition loaded :: "'v swr_env \<Rightarrow> step list \<Rightarrow> 'v \<Rightarrow> bool" where
  "loaded env steps v \<longleftrightarrow> (\<exists>i < length steps. steps ! i = Load \<and> se_load env i = Inr v)"

definition read_back :: "'v swr_env \<Rightarrow> step list \<Rightarrow> 'v \<Rightarrow> bool" where
  "read_back env steps v \<longleftrightarrow>
     (\<exists>i < length steps. \<exists>e key. steps ! i = ReadKey key \<and> read_envelope env i = Some e \<and> en_payload e = v)"

definition accounted :: "'v swr_env \<Rightarrow> (string, 'v) result \<Rightarrow> step list \<Rightarrow> bool" where
  "accounted env r steps =
     (case r of
        Inl e \<Rightarrow> (\<exists>i < length steps. steps ! i = Load \<and> se_load env i = Inl e)
      | Inr v \<Rightarrow> loaded env steps v \<or> read_back env steps v)"

text \<open>A lock that was taken is released by the last step; the loader runs at most once.\<close>

definition releases :: "'v swr_env \<Rightarrow> Swr \<Rightarrow> step list \<Rightarrow> bool" where
  "releases env self steps \<longleftrightarrow>
     (\<forall>i < length steps. (\<exists>k px. steps ! i = TryLock k px \<and> try_lock env i) \<longrightarrow> last steps = Unlock (lock_key self))"

lemma loads_of_store: "count_list (store_steps env i key h v) Load = 0"
  by (simp add: store_steps_def split: sum.splits)

lemma accounted_append: "accounted env r steps \<Longrightarrow> accounted env r (steps @ later)"
  unfolding accounted_def loaded_def read_back_def
  by (cases r; simp; metis nth_append trans_less_add1)

lemma load_and_store_accounted: "accounted env (fst (load_and_store env self before)) (snd (load_and_store env self before))"
proof (cases "se_load env (length before)")
  case (Inl e)
  then show ?thesis
    by (auto simp: load_and_store_def accounted_def nth_append intro!: exI [of _ "length before"])
next
  case (Inr v)
  then show ?thesis
    by (auto simp: load_and_store_def accounted_def loaded_def nth_append intro!: exI [of _ "length before"])
qed

text \<open>The bounds of a run: one load at most, a bounded number of steps, and no lock left behind.\<close>

definition bounded_run :: "'v swr_env \<Rightarrow> Swr \<Rightarrow> step list \<Rightarrow> bool" where
  "bounded_run env self steps \<longleftrightarrow>
     count_list steps Load \<le> 1 \<and> length steps \<le> 2 * max_polls self + 4 \<and> releases env self steps"

definition takes_lock :: "step \<Rightarrow> bool" where
  "takes_lock s = (case s of TryLock k px \<Rightarrow> True | _ \<Rightarrow> False)"

lemma load_and_store_shape:
  "\<exists>later. snd (load_and_store env self before) = before @ [Load] @ later \<and> count_list later Load = 0
     \<and> length later \<le> 1 \<and> \<not> list_ex takes_lock later"
  by (auto simp: load_and_store_def Let_def store_steps_def takes_lock_def split: sum.splits)

lemma poll_shape:
  "count_list (snd (poll env self n i)) Load = 0 \<and> length (snd (poll env self n i)) \<le> 2 * n
   \<and> \<not> list_ex takes_lock (snd (poll env self n i))"
proof (induction n arbitrary: i)
  case (Suc n)
  show ?case
    using Suc [of "i + 2"]
    by (cases "poll env self n (i + 2)") (auto simp: Let_def takes_lock_def split: option.splits)
qed simp

lemma poll_reads:
  "poll env self n i = (Some v, steps) \<Longrightarrow>
   \<exists>j < length steps. \<exists>e key. steps ! j = ReadKey key \<and> read_envelope env (i + j) = Some e \<and> en_payload e = v
     \<and> is_fresh env (i + j) self e"
proof (induction n arbitrary: i steps)
  case (Suc n)
  show ?case
  proof (cases "\<exists>e. read_envelope env (i + 1) = Some e \<and> is_fresh env (i + 1) self e")
    case True
    with Suc.prems show ?thesis
      by (auto simp: Let_def intro!: exI [of _ 1])
  next
    case False
    then obtain later where p: "poll env self n (i + 2) = (Some v, later)"
      and s: "steps = [Pause POLL_INTERVAL_MS, ReadKey (sw_key self)] @ later"
      using Suc.prems by (cases "poll env self n (i + 2)") (auto simp: Let_def split: option.splits if_splits)
    from Suc.IH [OF p] obtain j e key where j: "j < length later" "later ! j = ReadKey key"
      "read_envelope env (i + 2 + j) = Some e" "en_payload e = v" "is_fresh env (i + 2 + j) self e"
      by blast
    have "i + (j + 2) = i + 2 + j"
      by simp
    with j show ?thesis
      unfolding s by (intro exI [of _ "j + 2"]) (auto simp only: nth_append, auto)
  qed
qed simp


lemma poll_accounted:
  assumes "poll env self n (length before) = (Some v, steps)"
  shows "accounted env (Inr v) (before @ steps)"
proof -
  from poll_reads [OF assms] obtain j e key where "j < length steps" "steps ! j = ReadKey key"
    "read_envelope env (length before + j) = Some e" "en_payload e = v"
    by blast
  then have "read_back env (before @ steps) v"
    unfolding read_back_def by (intro exI [of _ "length before + j"]) (auto simp: nth_append)
  then show ?thesis
    by (simp add: accounted_def)
qed

lemma takes_lock_TryLock [simp]: "takes_lock (TryLock k px)"
  by (simp add: takes_lock_def)

lemma releases_no_lock: "\<not> list_ex takes_lock steps \<Longrightarrow> releases env self steps"
  unfolding releases_def list_ex_iff by (metis nth_mem takes_lock_TryLock)

lemma releases_lost_lock:
  assumes "\<not> try_lock env 1" "\<not> list_ex takes_lock later"
  shows "releases env self ([ReadKey k, TryLock l px] @ later)"
proof -
  have "\<not> try_lock env i" if "i < length ([ReadKey k, TryLock l px] @ later)"
    "([ReadKey k, TryLock l px] @ later) ! i = TryLock k' px'" for i k' px'
  proof (cases "i < 2")
    case True
    with that assms(1) show ?thesis
      by (cases i) auto
  next
    case False
    with that have "later ! (i - 2) = TryLock k' px'" "i - 2 < length later"
      by (auto simp: nth_append numeral_2_eq_2)
    then have "TryLock k' px' \<in> set later"
      by (metis nth_mem)
    with assms(2) show ?thesis
      by (auto simp: list_ex_iff)
  qed
  then show ?thesis
    unfolding releases_def by blast
qed

lemma releases_unlock: "releases env self (steps @ [Unlock (lock_key self)])"
  by (simp add: releases_def)

definition run_ok :: "'v swr_env \<Rightarrow> Swr \<Rightarrow> (string, 'v) result \<times> step list \<Rightarrow> bool" where
  "run_ok env self run \<longleftrightarrow> accounted env (fst run) (snd run) \<and> bounded_run env self (snd run)"

lemma lock_winner_ok:
  assumes "try_lock env 1"
  shows "run_ok env self (load_missing env self)"
proof -
  let ?steps = "[ReadKey (sw_key self), TryLock (lock_key self) (px_of (sw_lock_ttl self))]"
  have polls: "1 \<le> max_polls self"
    by (simp add: max_polls_def)
  obtain later where l: "snd (load_and_store env self ?steps) = ?steps @ [Load] @ later"
    "count_list later Load = 0" "length later \<le> 1"
    using load_and_store_shape [of env self ?steps] by blast
  have m: "load_missing env self = (fst (load_and_store env self ?steps), (?steps @ [Load] @ later) @ [Unlock (lock_key self)])"
    using assms l(1) by (simp add: load_missing_def split_beta)
  show ?thesis
    using load_and_store_accounted [of env self ?steps] l polls releases_unlock [of env self "?steps @ [Load] @ later"]
    unfolding m run_ok_def bounded_run_def by (auto simp only: fst_conv snd_conv intro: accounted_append) simp_all
qed

lemma lock_loser_ok:
  assumes "\<not> try_lock env 1"
  shows "run_ok env self (load_missing env self)"
proof -
  let ?steps = "[ReadKey (sw_key self), TryLock (lock_key self) (px_of (sw_lock_ttl self))]"
  obtain r polled where p: "poll env self (max_polls self) 2 = (r, polled)"
    by fastforce
  note ps = poll_shape [of env self "max_polls self" 2, unfolded p snd_conv]
  note released = releases_lost_lock [OF assms, of _ self "sw_key self" "lock_key self" "px_of (sw_lock_ttl self)"]
  show ?thesis
  proof (cases r)
    case (Some v)
    with assms p have m: "load_missing env self = (Inr v, ?steps @ polled)"
      by (simp add: load_missing_def)
    show ?thesis
      using poll_accounted [of env self "max_polls self" ?steps v polled, simplified, folded numeral_2_eq_2] p Some ps
        released [of polled]
      unfolding m run_ok_def bounded_run_def by simp
  next
    case None
    obtain later where l: "snd (load_and_store env self (?steps @ polled)) = (?steps @ polled) @ [Load] @ later"
      "count_list later Load = 0" "length later \<le> 1" "\<not> list_ex takes_lock later"
      using load_and_store_shape [of env self "?steps @ polled"] by blast
    from None assms p have "load_missing env self = load_and_store env self (?steps @ polled)"
      by (simp add: load_missing_def)
    with l(1) have m: "load_missing env self =
        (fst (load_and_store env self (?steps @ polled)), ?steps @ (polled @ [Load] @ later))"
      by (metis append.assoc prod.collapse)
    have "\<not> list_ex takes_lock (polled @ [Load] @ later)"
      using ps l(4) by (simp add: takes_lock_def)
    from released [OF this] show ?thesis
      using load_and_store_accounted [of env self "?steps @ polled"] l ps
      unfolding m run_ok_def bounded_run_def by simp
  qed
qed

lemma load_missing_ok:
  "accounted env (fst (load_missing env self)) (snd (load_missing env self)) \<and> bounded_run env self (snd (load_missing env self))"
  using lock_winner_ok lock_loser_ok unfolding run_ok_def by blast

lemma load_bypassed_ok: "bounded_run env self (snd (load_and_store env self []))"
proof -
  obtain later where "snd (load_and_store env self []) = [] @ [Load] @ later"
    "count_list later Load = 0" "length later \<le> 1" "\<not> list_ex takes_lock later"
    using load_and_store_shape [of env self "[]"] by blast
  then show ?thesis
    by (auto simp: bounded_run_def takes_lock_def intro!: releases_no_lock)
qed

lemma hit_ok:
  assumes "read_envelope env 0 = Some e" "later \<in> {[], [SpawnRefresh k l]}"
  shows "accounted env (Inr (en_payload e)) (ReadKey key # later) \<and> bounded_run env self (ReadKey key # later)"
  using assms by (auto simp: accounted_def read_back_def bounded_run_def takes_lock_def intro!: releases_no_lock)

text \<open>
  C38: A call of the cache is answered by the loader or by the cache, and ends.  Whatever Valkey does
  (fails, loses the key, returns bytes that do not decode, denies the lock), the call fails only with
  the error of a loader it ran, and a value it returns was loaded by it or decoded from a read it made.
  It runs the loader at most once, takes at most four steps besides two for each poll, and a lock that
  it took is released by its last step, whether the loader succeeded or not.
\<close>

theorem call_answered_within_bounds:
  "accounted env (fst (get_or_load env self)) (snd (get_or_load env self)) \<and> bounded_run env self (snd (get_or_load env self))"
proof (cases "sw_bypass self")
  case True
  then show ?thesis
    using load_and_store_accounted [of env self "[]"] load_bypassed_ok [of env self] by (simp add: get_or_load_def)
next
  case False
  note unbypassed = this
  show ?thesis
  proof (cases "se_get env 0")
    case (Inl e)
    have "releases env self [ReadKey (sw_key self), Load]"
      by (rule releases_no_lock) (simp add: takes_lock_def)
    with Inl False show ?thesis
      by (cases "se_load env 1")
        (auto simp: get_or_load_def accounted_def loaded_def bounded_run_def intro!: exI [of _ 1])
  next
    case (Inr got)
    show ?thesis
    proof (cases "read_envelope env 0")
      case None
      with Inr unbypassed have "get_or_load env self = load_missing env self"
        by (auto simp: get_or_load_def read_envelope_def split: option.splits)
      with load_missing_ok show ?thesis
        by simp
    next
      case (Some e)
      with Inr unbypassed have "get_or_load env self = (Inr (en_payload e), ReadKey (sw_key self) #
          (if is_fresh env 0 self e then [] else [SpawnRefresh (sw_key self) (lock_key self)]))"
        by (auto simp: get_or_load_def read_envelope_def split: option.splits)
      with hit_ok [OF Some] show ?thesis
        by simp
    qed
  qed
qed

section \<open>What is served, and the refresh\<close>

text \<open>A value read while it is fresh is served without a load; a stale one is served and refreshed.\<close>

lemma served_from_cache:
  assumes "\<not> sw_bypass self" "read_envelope env 0 = Some e"
  shows "get_or_load env self = (Inr (en_payload e), ReadKey (sw_key self) #
          (if is_fresh env 0 self e then [] else [SpawnRefresh (sw_key self) (lock_key self)]))"
  using assms by (auto simp: get_or_load_def read_envelope_def split: option.splits sum.splits)

text \<open>A value a waiter picked up is fresh.\<close>

lemma waiter_gets_fresh:
  assumes "poll env self n i = (Some v, steps)"
  shows "\<exists>j e. read_envelope env (i + j) = Some e \<and> en_payload e = v \<and> is_fresh env (i + j) self e"
  using poll_reads [OF assms] by blast

text \<open>The refresh releases the lock exactly when it took it, and loads only under it.\<close>

lemma refresh_under_lock:
  "Load \<in> set (spawn_refresh env key lkey h l) \<longleftrightarrow> try_lock env 0"
  "Unlock lkey \<in> set (spawn_refresh env key lkey h l) \<longleftrightarrow> try_lock env 0"
  "try_lock env 0 \<Longrightarrow> last (spawn_refresh env key lkey h l) = Unlock lkey"
  by (auto simp: spawn_refresh_def Let_def split: sum.splits)

text \<open>What is stored is stamped with the time of the write and expires after the hard lifetime.\<close>

lemma stored_value:
  "Store k json px \<in> set (store_steps env i key h v) \<longleftrightarrow>
     k = key \<and> px = px_of h \<and> se_to_json env \<lparr>en_ts_ms = se_now env i, en_payload = v\<rparr> = Inr json"
  by (auto simp: store_steps_def split: sum.splits)

end
