(* ===== verification/Github_App.thy ===== *)
theory Github_App
  imports Oauth_Login
begin

text \<open>
  GitHub App authentication of \<open>crates/github\<close>: the App token, the cached installation tokens, and
  the proof that a user controls an installation.  Signing, HTTP, JSON and dates are the fields of
  \<open>github_lib\<close>; a call that reads the clock takes its outcome as an argument, \<open>None\<close> for a clock
  before the epoch.  Sums of \<open>u64\<close> wrap, as they do in release builds.
\<close>

section \<open>App tokens\<close>

datatype GithubError =
    GhPrivateKey string
  | GhJwtSigning string
  | GhClock
  | GhHttp string string
  | GhExchange OAuthError

fun github_error_display :: "GithubError \<Rightarrow> string" where
  "github_error_display (GhPrivateKey _) = ''the GitHub App private key is not a valid RSA PEM''"
| "github_error_display (GhJwtSigning _) = ''signing the GitHub App JWT failed''"
| "github_error_display GhClock = ''the system clock is before the unix epoch''"
| "github_error_display (GhHttp context _) = context"
| "github_error_display (GhExchange _) = ''exchanging the GitHub OAuth code''"

definition JWT_LIFETIME_SECS :: "64 word" where "JWT_LIFETIME_SECS = 540"
definition CLOCK_SKEW_SECS :: "64 word" where "CLOCK_SKEW_SECS = 60"
definition REFRESH_MARGIN_SECS :: "64 word" where "REFRESH_MARGIN_SECS = 60"
definition FALLBACK_TTL_SECS :: "64 word" where "FALLBACK_TTL_SECS = 3000"

record AppClaims =
  ac_iat :: "64 word"
  ac_exp :: "64 word"
  ac_iss :: string

definition app_claims :: "64 word \<Rightarrow> 64 word \<Rightarrow> AppClaims" where
  "app_claims app_id now =
     \<lparr>ac_iat = (if now < CLOCK_SKEW_SECS then 0 else now - CLOCK_SKEW_SECS),
      ac_exp = now + JWT_LIFETIME_SECS, ac_iss = show_nat (unat app_id)\<rparr>"

definition token_is_fresh :: "64 word \<Rightarrow> 64 word \<Rightarrow> bool" where
  "token_is_fresh expiry now \<longleftrightarrow> expiry > now + REFRESH_MARGIN_SECS"

record InstallationToken =
  it_token :: string
  it_expires_at :: string

record github_request =
  gr_method :: string
  gr_url :: string
  gr_repositories :: "string list option"
  gr_headers :: "(string \<times> string) list"

text \<open>\<open>gh_status\<close> is \<open>error_for_status\<close>; \<open>gh_rfc3339\<close> gives the timestamp of a date.\<close>

record ('k, 'r, 'j) github_lib =
  gh_rsa_pem :: "string \<Rightarrow> (string, 'k) result"
  gh_encode :: "AppClaims \<Rightarrow> 'k \<Rightarrow> (string, string) result"
  gh_send :: "github_request \<Rightarrow> (string, 'r) result"
  gh_status :: "'r \<Rightarrow> (string, 'r) result"
  gh_token_json :: "'r \<Rightarrow> (string, InstallationToken) result"
  gh_json :: "'r \<Rightarrow> (string, 'j) result"
  gh_rfc3339 :: "string \<Rightarrow> int option"
  gh_field :: "string \<Rightarrow> 'j \<Rightarrow> 'j option"
  gh_array :: "'j \<Rightarrow> 'j list option"
  gh_i64 :: "'j \<Rightarrow> int option"

record 'k GithubAppAuth =
  ga_app_id :: "64 word"
  ga_key :: 'k
  ga_user_agent :: string
  ga_cache :: "int \<times> string \<rightharpoonup> string \<times> 64 word"

definition github_app_new ::
  "('k, 'r, 'j) github_lib \<Rightarrow> 64 word \<Rightarrow> string \<Rightarrow> string \<Rightarrow> (GithubError, 'k GithubAppAuth) result" where
  "github_app_new lib app_id pem user_agent =
     try_bind (map_err GhPrivateKey (gh_rsa_pem lib pem)) (\<lambda>k.
     Inr \<lparr>ga_app_id = app_id, ga_key = k, ga_user_agent = user_agent, ga_cache = Map.empty\<rparr>)"

definition github_now_secs :: "64 word option \<Rightarrow> (GithubError, 64 word) result" where
  "github_now_secs clock = ok_or GhClock clock"

definition app_jwt :: "('k, 'r, 'j) github_lib \<Rightarrow> 'k GithubAppAuth \<Rightarrow> 64 word \<Rightarrow> (GithubError, string) result" where
  "app_jwt lib self now = map_err GhJwtSigning (gh_encode lib (app_claims (ga_app_id self) now) (ga_key self))"

definition github_headers :: "string \<Rightarrow> string \<Rightarrow> (string \<times> string) list" where
  "github_headers token user_agent =
     [(''Authorization'', ''Bearer '' @ token), (''Accept'', ''application/vnd.github+json''),
      (''X-GitHub-Api-Version'', ''2022-11-28''), (''User-Agent'', user_agent)]"

section \<open>Installation tokens\<close>

definition request_installation_token ::
  "('k, 'r, 'j) github_lib \<Rightarrow> 'k GithubAppAuth \<Rightarrow> 64 word \<Rightarrow> int \<Rightarrow> string list \<Rightarrow> (GithubError, InstallationToken) result" where
  "request_installation_token lib self now installation_id repos =
     try_bind (app_jwt lib self now) (\<lambda>jwt.
     try_bind (map_err (GhHttp ''requesting an installation token'') (gh_send lib
       \<lparr>gr_method = ''POST'',
        gr_url = ''https://api.github.com/app/installations/'' @ show_int installation_id @ ''/access_tokens'',
        gr_repositories = (if repos = [] then None else Some repos),
        gr_headers = github_headers jwt (ga_user_agent self)\<rparr>)) (\<lambda>resp.
     try_bind (map_err (GhHttp ''the installation token request returned an error status'') (gh_status lib resp)) (\<lambda>resp.
     map_err (GhHttp ''decoding the installation token'') (gh_token_json lib resp))))"

definition token_expiry :: "('k, 'r, 'j) github_lib \<Rightarrow> 64 word \<Rightarrow> InstallationToken \<Rightarrow> 64 word" where
  "token_expiry lib now token =
     (case gh_rfc3339 lib (it_expires_at token) of
        Some ts \<Rightarrow> of_int \<bar>ts\<bar>
      | None \<Rightarrow> now + FALLBACK_TTL_SECS)"

definition installation_token ::
  "('k, 'r, 'j) github_lib \<Rightarrow> 64 word option \<Rightarrow> int \<Rightarrow> string list \<Rightarrow> 'k GithubAppAuth \<Rightarrow>
   (GithubError, string) result \<times> 'k GithubAppAuth" where
  "installation_token lib clock installation_id repos self =
     (case github_now_secs clock of
        Inl e \<Rightarrow> (Inl e, self)
      | Inr now \<Rightarrow>
          (let k = (installation_id, join_with '','' repos);
               fetch = (case request_installation_token lib self now installation_id repos of
                          Inl e \<Rightarrow> (Inl e, self)
                        | Inr token \<Rightarrow>
                            (Inr (it_token token),
                             self\<lparr>ga_cache := (ga_cache self)(k \<mapsto> (it_token token, token_expiry lib now token))\<rparr>))
           in case ga_cache self k of
                Some (token, expiry) \<Rightarrow> if token_is_fresh expiry now then (Inr token, self) else fetch
              | None \<Rightarrow> fetch))"

section \<open>Ownership of an installation\<close>

definition owns_installation :: "('k, 'r, 'j) github_lib \<Rightarrow> 'j \<Rightarrow> int \<Rightarrow> bool" where
  "owns_installation lib payload installation_id =
     (case Option.bind (gh_field lib ''installations'' payload) (gh_array lib) of
        None \<Rightarrow> False
      | Some installations \<Rightarrow>
          list_ex (\<lambda>i. i = installation_id)
            (List.map_filter (\<lambda>entry. Option.bind (gh_field lib ''id'' entry) (gh_i64 lib)) installations))"

record GithubOauth =
  go_oauth :: OAuthClient
  go_user_agent :: string

definition github_oauth_new :: "string \<Rightarrow> string \<Rightarrow> string \<Rightarrow> string \<Rightarrow> GithubOauth" where
  "github_oauth_new client_id client_secret redirect_uri user_agent =
     \<lparr>go_oauth = oauth_client_new GitHub client_id client_secret redirect_uri None, go_user_agent = user_agent\<rparr>"

definition user_owns_installation ::
  "oauth_lib \<Rightarrow> ('k, 'r, 'j) github_lib \<Rightarrow> GithubOauth \<Rightarrow> string \<Rightarrow> int \<Rightarrow> (GithubError, bool) result" where
  "user_owns_installation olib lib self code installation_id =
     try_bind (map_err GhExchange (exchange_code olib (go_oauth self) code None)) (\<lambda>token.
     try_bind (map_err (GhHttp ''listing the user's installations'') (gh_send lib
       \<lparr>gr_method = ''GET'', gr_url = ''https://api.github.com/user/installations'', gr_repositories = None,
        gr_headers = github_headers token (go_user_agent self)\<rparr>)) (\<lambda>resp.
     try_bind (map_err (GhHttp ''listing the user's installations returned an error status'') (gh_status lib resp)) (\<lambda>resp.
     try_bind (map_err (GhHttp ''decoding the user's installations'') (gh_json lib resp)) (\<lambda>payload.
     Inr (owns_installation lib payload installation_id)))))"

section \<open>Tokens stay in their scope\<close>

text \<open>Repository names as GitHub has them: not empty and without a comma.\<close>

definition proper_repos :: "string list \<Rightarrow> bool" where
  "proper_repos repos \<longleftrightarrow> list_all (\<lambda>r. r \<noteq> [] \<and> CHR '','' \<notin> set r) repos"

lemma join_eq_Nil: "proper_repos repos \<Longrightarrow> join_with '','' repos = [] \<longleftrightarrow> repos = []"
  by (cases repos; cases "tl repos") (auto simp: proper_repos_def)

lemma scope_key_inj:
  assumes "proper_repos a" "proper_repos b" "join_with '','' a = join_with '','' b"
  shows "a = b"
proof (cases "a = []")
  case True
  with assms join_eq_Nil [of b] show ?thesis
    by simp
next
  case False
  with assms join_eq_Nil have "b \<noteq> []"
    by metis
  have "split_on CHR '','' (join_with '','' xs) = xs" if "proper_repos xs" "xs \<noteq> []" for xs
    using that by (intro split_join) (auto simp: proper_repos_def list_all_iff)
  with assms False \<open>b \<noteq> []\<close> show ?thesis
    by metis
qed

text \<open>A call of \<open>installation_token\<close>: what the libraries and the clock do, and its arguments.\<close>

record ('k, 'r, 'j) token_call =
  tc_lib :: "('k, 'r, 'j) github_lib"
  tc_clock :: "64 word option"
  tc_installation :: int
  tc_repos :: "string list"

fun token_run :: "'k GithubAppAuth \<Rightarrow> ('k, 'r, 'j) token_call list \<Rightarrow> (GithubError, string) result list" where
  "token_run self [] = []"
| "token_run self (c # cs) =
     (let (r, self') = installation_token (tc_lib c) (tc_clock c) (tc_installation c) (tc_repos c) self
      in r # token_run self' cs)"

text \<open>GitHub answered the request of this call, for exactly its repositories, with this token.\<close>

definition minted_by :: "'k GithubAppAuth \<Rightarrow> ('k, 'r, 'j) token_call \<Rightarrow> string \<Rightarrow> 64 word \<Rightarrow> bool" where
  "minted_by self c t expiry \<longleftrightarrow>
     (\<exists>now token. tc_clock c = Some now \<and> it_token token = t \<and> expiry = token_expiry (tc_lib c) now token
        \<and> request_installation_token (tc_lib c) self now (tc_installation c) (tc_repos c) = Inr token)"

definition cache_minted :: "('k, 'r, 'j) token_call list \<Rightarrow> 'k GithubAppAuth \<Rightarrow> bool" where
  "cache_minted hist self \<longleftrightarrow>
     (\<forall>i k t expiry. ga_cache self (i, k) = Some (t, expiry) \<longrightarrow>
        (\<exists>c \<in> set hist. tc_installation c = i \<and> join_with '','' (tc_repos c) = k \<and> minted_by self c t expiry))"

text \<open>The identity of the App does not depend on the cache.\<close>

lemma request_ignores_cache:
  "request_installation_token lib (self\<lparr>ga_cache := m\<rparr>) now i repos = request_installation_token lib self now i repos"
  by (simp add: request_installation_token_def app_jwt_def)

lemma minted_ignores_cache: "minted_by (self\<lparr>ga_cache := m\<rparr>) c t e = minted_by self c t e"
  by (simp add: minted_by_def request_ignores_cache)

lemma cache_minted_mono: "cache_minted hist self \<Longrightarrow> set hist \<subseteq> set hist' \<Longrightarrow> cache_minted hist' self"
  by (fastforce simp: cache_minted_def)

lemma installation_token_cases:
  obtains (refused) e where "installation_token lib clock i repos self = (Inl e, self)"
  | (cached) now t expiry where "clock = Some now" "ga_cache self (i, join_with '','' repos) = Some (t, expiry)"
      "token_is_fresh expiry now" "installation_token lib clock i repos self = (Inr t, self)"
  | (minted) now token where "clock = Some now" "request_installation_token lib self now i repos = Inr token"
      "installation_token lib clock i repos self =
         (Inr (it_token token), self\<lparr>ga_cache := (ga_cache self)((i, join_with '','' repos) \<mapsto>
            (it_token token, token_expiry lib now token))\<rparr>)"
proof (cases clock)
  case None
  then show thesis
    using refused by (simp add: installation_token_def github_now_secs_def)
next
  case (Some now)
  show thesis
  proof (cases "\<exists>t expiry. ga_cache self (i, join_with '','' repos) = Some (t, expiry) \<and> token_is_fresh expiry now")
    case True
    then show thesis
      using Some cached by (auto simp: installation_token_def github_now_secs_def)
  next
    case False
    then have "installation_token lib clock i repos self =
        (case request_installation_token lib self now i repos of
           Inl e \<Rightarrow> (Inl e, self)
         | Inr token \<Rightarrow>
             (Inr (it_token token), self\<lparr>ga_cache := (ga_cache self)((i, join_with '','' repos) \<mapsto>
                (it_token token, token_expiry lib now token))\<rparr>))"
      using Some by (auto simp: installation_token_def github_now_secs_def Let_def split: option.splits)
    then show thesis
      using Some refused minted by (cases "request_installation_token lib self now i repos") simp_all
  qed
qed

lemma call_keeps_cache_minted:
  assumes "cache_minted hist self"
    and "installation_token (tc_lib c) (tc_clock c) (tc_installation c) (tc_repos c) self = (r, self')"
  shows "cache_minted (hist @ [c]) self' \<and> (\<exists>m. self' = self\<lparr>ga_cache := m\<rparr>)"
proof (cases "tc_lib c" "tc_clock c" "tc_installation c" "tc_repos c" self rule: installation_token_cases)
  case (minted now token)
  let ?m = "(ga_cache self)((tc_installation c, join_with '','' (tc_repos c)) \<mapsto>
      (it_token token, token_expiry (tc_lib c) now token))"
  have "minted_by self c (it_token token) (token_expiry (tc_lib c) now token)"
    using minted by (auto simp: minted_by_def)
  with assms(1) have "cache_minted (hist @ [c]) (self\<lparr>ga_cache := ?m\<rparr>)"
    by (auto simp: cache_minted_def minted_ignores_cache)
  with assms(2) minted show ?thesis
    by auto
qed (use assms cache_minted_mono [of hist self "hist @ [c]"] in \<open>auto intro: exI [of _ "ga_cache self"]\<close>)

lemma call_serves_minted:
  assumes "cache_minted hist self"
    and "installation_token (tc_lib c) (tc_clock c) (tc_installation c) (tc_repos c) self = (Inr t, self')"
  shows "\<exists>d \<in> set (hist @ [c]). \<exists>expiry. tc_installation d = tc_installation c \<and>
    join_with '','' (tc_repos d) = join_with '','' (tc_repos c) \<and> minted_by self d t expiry \<and>
    (d = c \<or> (\<exists>now. tc_clock c = Some now \<and> token_is_fresh expiry now))"
proof (cases "tc_lib c" "tc_clock c" "tc_installation c" "tc_repos c" self rule: installation_token_cases)
  case (refused e)
  with assms(2) show ?thesis
    by simp
next
  case (cached now t' expiry)
  with assms show ?thesis
    unfolding cache_minted_def by fastforce
next
  case (minted now token)
  with assms(2) have "minted_by self c t (token_expiry (tc_lib c) now token)"
    by (auto simp: minted_by_def)
  then show ?thesis
    by auto
qed

lemma token_run_minted:
  assumes "cache_minted hist self" "k < length cs" "token_run self cs ! k = Inr t"
  shows "\<exists>d \<in> set (hist @ take (Suc k) cs). \<exists>expiry. tc_installation d = tc_installation (cs ! k) \<and>
    join_with '','' (tc_repos d) = join_with '','' (tc_repos (cs ! k)) \<and> minted_by self d t expiry \<and>
    (d = cs ! k \<or> (\<exists>now. tc_clock (cs ! k) = Some now \<and> token_is_fresh expiry now))"
  using assms
proof (induction cs arbitrary: hist self k)
  case (Cons c cs)
  obtain r self' where r: "installation_token (tc_lib c) (tc_clock c) (tc_installation c) (tc_repos c) self = (r, self')"
    by fastforce
  show ?case
  proof (cases k)
    case 0
    with Cons.prems r call_serves_minted [OF Cons.prems(1), of c t self'] show ?thesis
      by simp
  next
    case (Suc j)
    from call_keeps_cache_minted [OF Cons.prems(1) r] obtain m where
      c': "cache_minted (hist @ [c]) self'" and m: "self' = self\<lparr>ga_cache := m\<rparr>"
      by blast
    from Cons.IH [OF c', of j] Cons.prems Suc r show ?thesis
      by (simp add: m minted_ignores_cache)
  qed
qed simp

text \<open>
  C39: A token never leaves the scope it was minted for.  In any history of calls on a new client, with
  GitHub and the clock behaving as they like, a token returned for an installation and a list of
  repositories was issued by GitHub to a request of this very installation and list; when it comes
  from an earlier call it still has more than a minute to live.
\<close>

theorem token_stays_in_scope:
  assumes "github_app_new lib app_id pem agent = Inr self" "list_all (\<lambda>c. proper_repos (tc_repos c)) calls"
    and "k < length calls" "token_run self calls ! k = Inr t"
  shows "\<exists>d \<in> set (take (Suc k) calls). \<exists>expiry.
    tc_installation d = tc_installation (calls ! k) \<and> tc_repos d = tc_repos (calls ! k) \<and> minted_by self d t expiry \<and>
    (d = calls ! k \<or> (\<exists>now. tc_clock (calls ! k) = Some now \<and> token_is_fresh expiry now))"
proof -
  have "cache_minted [] self"
    using assms(1) by (auto simp: cache_minted_def github_app_new_def result_simps)
  from token_run_minted [OF this assms(3,4)] obtain d expiry where d: "d \<in> set (take (Suc k) calls)"
    "tc_installation d = tc_installation (calls ! k)" "join_with '','' (tc_repos d) = join_with '','' (tc_repos (calls ! k))"
    "minted_by self d t expiry" "d = calls ! k \<or> (\<exists>now. tc_clock (calls ! k) = Some now \<and> token_is_fresh expiry now)"
    by auto
  have "proper_repos (tc_repos d)" "proper_repos (tc_repos (calls ! k))"
    using assms(2,3) d(1) by (auto simp: list_all_iff dest: in_set_takeD)
  with d show ?thesis
    using scope_key_inj by blast
qed

text \<open>A service that names the token after its scope, and two calls a minute apart.\<close>

definition echo_github :: "(unit, string, unit) github_lib" where
  "echo_github =
     \<lparr>gh_rsa_pem = (\<lambda>_. Inr ()), gh_encode = (\<lambda>_ _. Inr ''jwt''),
      gh_send = (\<lambda>r. Inr (join_with ''+'' (unwrap_or [''all''] (gr_repositories r)))), gh_status = Inr,
      gh_token_json = (\<lambda>r. Inr \<lparr>it_token = ''ghs_'' @ r, it_expires_at = ''2026-01-01T01:00:00Z''\<rparr>),
      gh_json = (\<lambda>_. Inl ''no payload''), gh_rfc3339 = (\<lambda>_. Some 1767229200),
      gh_field = (\<lambda>_ _. None), gh_array = (\<lambda>_. None), gh_i64 = (\<lambda>_. None)\<rparr>"

definition echo_call :: "64 word \<Rightarrow> (unit, string, unit) token_call" where
  "echo_call now = \<lparr>tc_lib = echo_github, tc_clock = Some now, tc_installation = 42, tc_repos = [''api'', ''web'']\<rparr>"

definition echo_app :: "unit GithubAppAuth" where
  "echo_app = \<lparr>ga_app_id = 7, ga_key = (), ga_user_agent = ''kit'', ga_cache = Map.empty\<rparr>"

lemmas echo_defs = echo_github_def echo_call_def echo_app_def

lemma echo_run: "token_run echo_app [echo_call 1767225600, echo_call 1767225660] = [Inr ''ghs_api+web'', Inr ''ghs_api+web'']"
  by (simp add: echo_defs installation_token_def github_now_secs_def request_installation_token_def app_jwt_def
      token_expiry_def token_is_fresh_def REFRESH_MARGIN_SECS_def unwrap_or_def)

theorem token_stays_in_scope_witness:
  "\<exists>d \<in> {echo_call 1767225600, echo_call 1767225660}. \<exists>expiry. tc_repos d = [''api'', ''web''] \<and> minted_by echo_app d ''ghs_api+web'' expiry"
proof -
  have "github_app_new echo_github 7 ''pem'' ''kit'' = Inr echo_app"
    by (simp add: github_app_new_def echo_defs)
  moreover have "list_all (\<lambda>c. proper_repos (tc_repos c)) [echo_call 1767225600, echo_call 1767225660]"
    by (simp add: echo_call_def proper_repos_def)
  ultimately show ?thesis
    using token_stays_in_scope [of echo_github 7 "''pem''" "''kit''" echo_app "[echo_call 1767225600, echo_call 1767225660]" 1 "''ghs_api+web''"]
      echo_run by (auto simp: echo_call_def)
qed

text \<open>
  The names must be proper: the empty name has the key of the whole installation, so that a call scoped
  to it is served the unscoped token when one is cached.
\<close>

lemma empty_name_is_unscoped:
  assumes "installation_token lib (Some now) i [] self = (Inr t, self')" "ga_cache self (i, []) = Some (t, expiry)"
    and "token_is_fresh expiry now"
  shows "installation_token lib' (Some now) i [[]] self = (Inr t, self)"
  using assms by (simp add: installation_token_def github_now_secs_def)

section \<open>Claims of the App token, and ownership\<close>

lemma app_claims_window:
  assumes "unat now + 540 < 2 ^ 64"
  shows "unat (ac_exp (app_claims app_id now)) = unat now + 540 \<and>
    unat (ac_iat (app_claims app_id now)) = unat now - 60"
proof -
  have "unat (now + 540) = unat now + 540"
    using assms by (simp add: unat_word_ariths)
  moreover have "unat (if now < 60 then 0 else now - 60) = unat now - 60"
    by (auto simp: word_less_nat_alt unat_sub word_le_nat_alt)
  ultimately show ?thesis
    by (simp add: app_claims_def JWT_LIFETIME_SECS_def CLOCK_SKEW_SECS_def split: if_splits)
qed

text \<open>Only a list with this very id vouches for an installation; any other shape denies it.\<close>

lemma owns_installation_iff:
  "owns_installation lib payload i \<longleftrightarrow>
     (\<exists>list entries e v. gh_field lib ''installations'' payload = Some list \<and> gh_array lib list = Some entries
        \<and> e \<in> set entries \<and> gh_field lib ''id'' e = Some v \<and> gh_i64 lib v = Some i)"
proof (cases "Option.bind (gh_field lib ''installations'' payload) (gh_array lib)")
  case None
  then show ?thesis
    by (auto simp: owns_installation_def)
next
  case (Some entries)
  then have "owns_installation lib payload i \<longleftrightarrow>
      (\<exists>e \<in> set entries. Option.bind (gh_field lib ''id'' e) (gh_i64 lib) = Some i)"
    by (force simp: owns_installation_def list_ex_iff List.map_filter_def)
  with Some show ?thesis
    by (auto simp: bind_eq_Some_conv)
qed

lemma ownership_is_vouched:
  assumes "user_owns_installation olib lib self code i = Inr True"
  shows "\<exists>token resp resp' payload. exchange_code olib (go_oauth self) code None = Inr token \<and>
    gh_send lib \<lparr>gr_method = ''GET'', gr_url = ''https://api.github.com/user/installations'', gr_repositories = None,
      gr_headers = github_headers token (go_user_agent self)\<rparr> = Inr resp \<and>
    gh_status lib resp = Inr resp' \<and> gh_json lib resp' = Inr payload \<and> owns_installation lib payload i"
  using assms by (auto simp: user_owns_installation_def try_bind_Inr_iff)

end
