(* ===== verification/Vault_Kv.thy ===== *)
theory Vault_Kv
  imports Kit_Prelude "HOL-Library.Word"
begin

text \<open>
  The Vault KV client of \<open>crates/vault/src/lib.rs\<close>: the check of a secret path, the URL built from it,
  and the three operations.  URLs, HTTP and JSON are the fields of \<open>vault_lib\<close>; \<open>vault_url_ok\<close> is the
  documented behaviour of pushing path segments.
\<close>

section \<open>Secret paths\<close>

definition SECRET_FIELD :: string where "SECRET_FIELD = ''value''"

datatype InvalidSecretPath = EmptySegment | DotSegment

fun invalid_secret_path_display :: "InvalidSecretPath \<Rightarrow> string" where
  "invalid_secret_path_display EmptySegment = ''secret path contains an empty segment''"
| "invalid_secret_path_display DotSegment = ''secret path contains a `.` or `..` segment''"

text \<open>\<open>str::replace\<close>: occurrences from the left, not overlapping.\<close>

fun replace_str :: "'a list \<Rightarrow> 'a list \<Rightarrow> 'a list \<Rightarrow> 'a list" where
  "replace_str p r [] = []"
| "replace_str p r (x # xs) =
     (if p \<noteq> [] \<and> take (length p) (x # xs) = p then r @ replace_str p r (drop (length p - 1) xs)
      else x # replace_str p r xs)"

definition is_dot_segment :: "string \<Rightarrow> bool" where
  "is_dot_segment segment = list_all (\<lambda>c. c = CHR ''.'') (replace_str ''%2e'' ''.'' (map to_ascii_lower segment))"

fun check_segments :: "string list \<Rightarrow> (InvalidSecretPath, unit) result" where
  "check_segments [] = Inr ()"
| "check_segments (segment # segments) =
     (if segment = [] then Inl EmptySegment
      else if is_dot_segment segment then Inl DotSegment
      else check_segments segments)"

definition validated_segments :: "string \<Rightarrow> (InvalidSecretPath, string list) result" where
  "validated_segments path =
     (let segments = split_on CHR ''/'' (trim_matches_byte CHR ''/'' path)
      in try_bind (check_segments segments) (\<lambda>_. Inr segments))"

section \<open>The client\<close>

record VaultClient =
  vc_addr :: string
  vc_token :: string
  vc_mount :: string

record 'u vault_request =
  vr_method :: string
  vr_url :: 'u
  vr_headers :: "(string \<times> string) list"
  vr_data :: "(string \<times> string) option"

record ('u, 'r, 'j) vault_lib =
  vl_parse :: "string \<Rightarrow> (string, 'u) result"
  vl_base :: "'u \<Rightarrow> bool"
  vl_pop_if_empty :: "'u \<Rightarrow> 'u"
  vl_push :: "string \<Rightarrow> 'u \<Rightarrow> 'u"
  vl_send :: "'u vault_request \<Rightarrow> (string, 'r) result"
  vl_status :: "'r \<Rightarrow> 16 word"
  vl_status_display :: "16 word \<Rightarrow> string"
  vl_json :: "'r \<Rightarrow> (string, 'j) result"
  vl_field :: "string \<Rightarrow> 'j \<Rightarrow> 'j option"
  vl_str :: "'j \<Rightarrow> string option"

definition vault_new :: "string \<Rightarrow> string \<Rightarrow> string \<Rightarrow> VaultClient" where
  "vault_new addr token mount =
     \<lparr>vc_addr = trim_end_byte CHR ''/'' addr, vc_token = token, vc_mount = trim_matches_byte CHR ''/'' mount\<rparr>"

definition push_all :: "('u, 'r, 'j) vault_lib \<Rightarrow> string list \<Rightarrow> 'u \<Rightarrow> 'u" where
  "push_all lib segments url = fold (vl_push lib) segments url"

definition kv_url ::
  "('u, 'r, 'j) vault_lib \<Rightarrow> VaultClient \<Rightarrow> string \<Rightarrow> string \<Rightarrow> (string, 'u) result" where
  "kv_url lib self kind path =
     try_bind (map_err invalid_secret_path_display (validated_segments path)) (\<lambda>secret_segments.
     try_bind (map_err (\<lambda>_. ''invalid vault address'') (vl_parse lib (vc_addr self))) (\<lambda>url.
     if \<not> vl_base lib url then Inl ''vault address cannot be used as a base url''
     else Inr (push_all lib secret_segments (vl_push lib kind
                (push_all lib (split_on CHR ''/'' (vc_mount self)) (vl_push lib ''v1'' (vl_pop_if_empty lib url)))))))"

definition data_url :: "('u, 'r, 'j) vault_lib \<Rightarrow> VaultClient \<Rightarrow> string \<Rightarrow> (string, 'u) result" where
  "data_url lib self path = kv_url lib self ''data'' path"

definition metadata_url :: "('u, 'r, 'j) vault_lib \<Rightarrow> VaultClient \<Rightarrow> string \<Rightarrow> (string, 'u) result" where
  "metadata_url lib self path = kv_url lib self ''metadata'' path"

definition is_success :: "16 word \<Rightarrow> bool" where
  "is_success s \<longleftrightarrow> 200 \<le> s \<and> s < 300"

definition vault_call ::
  "('u, 'r, 'j) vault_lib \<Rightarrow> VaultClient \<Rightarrow> string \<Rightarrow> 'u \<Rightarrow> (string \<times> string) option \<Rightarrow> string \<Rightarrow> (string, 'r) result" where
  "vault_call lib self http_method url data context =
     map_err (\<lambda>_. context) (vl_send lib
       \<lparr>vr_method = http_method, vr_url = url, vr_headers = [(''X-Vault-Token'', vc_token self)], vr_data = data\<rparr>)"

definition write_secret ::
  "('u, 'r, 'j) vault_lib \<Rightarrow> VaultClient \<Rightarrow> string \<Rightarrow> string \<Rightarrow> (string, unit) result" where
  "write_secret lib self path v =
     try_bind (data_url lib self path) (\<lambda>url.
     try_bind (vault_call lib self ''POST'' url (Some (SECRET_FIELD, v)) ''vault write request failed'') (\<lambda>resp.
     if \<not> is_success (vl_status lib resp)
     then Inl (''vault write returned '' @ vl_status_display lib (vl_status lib resp))
     else Inr ()))"

definition parse_secret_value :: "('u, 'r, 'j) vault_lib \<Rightarrow> 'j \<Rightarrow> string option" where
  "parse_secret_value lib body =
     Option.bind (vl_field lib ''data'' body) (\<lambda>d.
     Option.bind (vl_field lib ''data'' d) (\<lambda>dd.
     Option.bind (vl_field lib SECRET_FIELD dd) (vl_str lib)))"

definition read_secret ::
  "('u, 'r, 'j) vault_lib \<Rightarrow> VaultClient \<Rightarrow> string \<Rightarrow> (string, string option) result" where
  "read_secret lib self path =
     try_bind (data_url lib self path) (\<lambda>url.
     try_bind (vault_call lib self ''GET'' url None ''vault read request failed'') (\<lambda>resp.
     if vl_status lib resp = 404 then Inr None
     else if \<not> is_success (vl_status lib resp)
     then Inl (''vault read returned '' @ vl_status_display lib (vl_status lib resp))
     else try_bind (map_err (\<lambda>_. ''parsing vault response'') (vl_json lib resp)) (\<lambda>body.
          Inr (parse_secret_value lib body))))"

definition delete_secret :: "('u, 'r, 'j) vault_lib \<Rightarrow> VaultClient \<Rightarrow> string \<Rightarrow> (string, unit) result" where
  "delete_secret lib self path =
     try_bind (metadata_url lib self path) (\<lambda>url.
     try_bind (vault_call lib self ''DELETE'' url None ''vault delete request failed'') (\<lambda>resp.
     if \<not> is_success (vl_status lib resp) \<and> vl_status lib resp \<noteq> 404
     then Inl (''vault delete returned '' @ vl_status_display lib (vl_status lib resp))
     else Inr ()))"

section \<open>Which paths pass\<close>

lemma check_segments_Inr_iff:
  "check_segments segs = Inr u \<longleftrightarrow> list_all (\<lambda>s. s \<noteq> [] \<and> \<not> is_dot_segment s) segs"
  by (induction segs) auto

lemma validated_segments_Inr_iff:
  "validated_segments path = Inr segs \<longleftrightarrow>
     segs = split_on CHR ''/'' (trim_matches_byte CHR ''/'' path) \<and> list_all (\<lambda>s. s \<noteq> [] \<and> \<not> is_dot_segment s) segs"
  by (auto simp: validated_segments_def try_bind_Inr_iff check_segments_Inr_iff Let_def)

text \<open>The two relative segments and their percent-encoded spellings are dot segments.\<close>

lemma dots_are_dot_segments:
  "is_dot_segment ''.''" "is_dot_segment ''..''" "is_dot_segment ''%2e''" "is_dot_segment ''%2E.''" "is_dot_segment ''%2e%2E''"
  by code_simp+

section \<open>Where a secret lives\<close>

text \<open>
  What the URL library promises of the path as a list of encoded segments: popping removes a trailing
  empty segment, pushing appends the encoded segment unless it is relative, the coding is injective,
  and neither touches the origin.
\<close>

definition vault_url_ok ::
  "('u, 'r, 'j) vault_lib \<Rightarrow> ('u \<Rightarrow> string list) \<Rightarrow> ('u \<Rightarrow> string) \<Rightarrow> (string \<Rightarrow> string) \<Rightarrow> bool" where
  "vault_url_ok lib path_of origin_of enc \<longleftrightarrow>
     inj enc \<and>
     (\<forall>u. path_of (vl_pop_if_empty lib u)
        = (if path_of u \<noteq> [] \<and> last (path_of u) = [] then butlast (path_of u) else path_of u)) \<and>
     (\<forall>u. origin_of (vl_pop_if_empty lib u) = origin_of u) \<and>
     (\<forall>s u. s \<noteq> [] \<or> path_of u \<noteq> [] \<longrightarrow>
        path_of (vl_push lib s u) = path_of u @ (if s \<in> {''.'', ''..''} then [] else [enc s])) \<and>
     (\<forall>s u. origin_of (vl_push lib s u) = origin_of u)"

lemma push_all_path:
  assumes "vault_url_ok lib path_of origin_of enc" "path_of u \<noteq> []"
  shows "path_of (push_all lib segs u) = path_of u @ map enc (filter (\<lambda>s. s \<notin> {''.'', ''..''}) segs)"
  using assms(2)
proof (induction segs arbitrary: u)
  case (Cons s segs)
  have "path_of (vl_push lib s u) = path_of u @ (if s \<in> {''.'', ''..''} then [] else [enc s])"
    using assms(1) Cons.prems by (simp add: vault_url_ok_def)
  with Cons.IH [of "vl_push lib s u"] Cons.prems show ?case
    by (simp add: push_all_def)
qed (simp add: push_all_def)

lemma push_all_origin:
  "vault_url_ok lib path_of origin_of enc \<Longrightarrow> origin_of (push_all lib segs u) = origin_of u"
  by (induction segs arbitrary: u) (auto simp: push_all_def vault_url_ok_def)

lemma split_on_inj: "split_on d s = split_on d t \<longleftrightarrow> s = t"
  by (metis join_split)

text \<open>The path under which a client keeps one kind of data of its mount.\<close>

definition mount_prefix ::
  "('u \<Rightarrow> string list) \<Rightarrow> (string \<Rightarrow> string) \<Rightarrow> 'u \<Rightarrow> VaultClient \<Rightarrow> string \<Rightarrow> string list" where
  "mount_prefix path_of enc base self kind =
     (if path_of base \<noteq> [] \<and> last (path_of base) = [] then butlast (path_of base) else path_of base) @
     map enc (''v1'' # filter (\<lambda>s. s \<notin> {''.'', ''..''}) (split_on CHR ''/'' (vc_mount self)) @ [kind])"

lemma kv_url_path:
  assumes ok: "vault_url_ok lib path_of origin_of enc" and kind: "kind \<notin> {[], ''.'', ''..''}"
    and url: "kv_url lib self kind path = Inr u"
  shows "\<exists>base segs. vl_parse lib (vc_addr self) = Inr base \<and> validated_segments path = Inr segs \<and>
    origin_of u = origin_of base \<and> path_of u = mount_prefix path_of enc base self kind @ map enc segs"
proof -
  from url obtain segs base where v: "validated_segments path = Inr segs" and b: "vl_parse lib (vc_addr self) = Inr base"
    and u: "u = push_all lib segs (vl_push lib kind
                (push_all lib (split_on CHR ''/'' (vc_mount self)) (vl_push lib ''v1'' (vl_pop_if_empty lib base))))"
    by (auto simp: kv_url_def try_bind_Inr_iff split: if_splits)
  let ?u1 = "vl_push lib ''v1'' (vl_pop_if_empty lib base)"
  let ?u2 = "push_all lib (split_on CHR ''/'' (vc_mount self)) ?u1"
  have 1: "path_of ?u1 =
      (if path_of base \<noteq> [] \<and> last (path_of base) = [] then butlast (path_of base) else path_of base) @ [enc ''v1'']"
    using ok by (simp add: vault_url_ok_def)
  have 2: "path_of ?u2 = path_of ?u1 @ map enc (filter (\<lambda>s. s \<notin> {''.'', ''..''}) (split_on CHR ''/'' (vc_mount self)))"
    using push_all_path [OF ok] 1 by simp
  have 3: "path_of (vl_push lib kind ?u2) = path_of ?u2 @ [enc kind]"
    using ok kind 2 by (simp add: vault_url_ok_def)
  have "\<forall>s \<in> set segs. s \<notin> {''.'', ''..''}"
    using v dots_are_dot_segments(1,2) by (auto simp: validated_segments_Inr_iff list_all_iff)
  then have "filter (\<lambda>s. s \<notin> {''.'', ''..''}) segs = segs"
    by (simp add: filter_id_conv)
  then have "path_of u = mount_prefix path_of enc base self kind @ map enc segs"
    using push_all_path [OF ok, of "vl_push lib kind ?u2" segs] 1 2 3 by (simp add: u mount_prefix_def)
  moreover have "origin_of u = origin_of base"
    using ok push_all_origin [OF ok] by (simp add: u vault_url_ok_def)
  ultimately show ?thesis
    using v b by blast
qed


text \<open>URLs as an origin and a path, for a concrete instance of the promise.\<close>

definition plain_vault :: "(string \<times> string list, unit, unit) vault_lib" where
  "plain_vault =
     \<lparr>vl_parse = (\<lambda>s. Inr (s, [])), vl_base = (\<lambda>_. True),
      vl_pop_if_empty = (\<lambda>(o', p). (o', if p \<noteq> [] \<and> last p = [] then butlast p else p)),
      vl_push = (\<lambda>s (o', p). (o', p @ (if s \<in> {''.'', ''..''} then [] else [s]))),
      vl_send = (\<lambda>_. Inl ''offline''), vl_status = (\<lambda>_. 200), vl_status_display = (\<lambda>_. ''200 OK''),
      vl_json = (\<lambda>_. Inl ''empty''), vl_field = (\<lambda>_ _. None), vl_str = (\<lambda>_. None)\<rparr>"

lemma plain_vault_ok: "vault_url_ok plain_vault snd fst id"
  by (auto simp: vault_url_ok_def plain_vault_def split: prod.splits)


section \<open>The operations\<close>

text \<open>Deleting destroys the metadata of the very segments a read addresses.\<close>

lemma delete_addresses_same_secret:
  assumes "vault_url_ok lib path_of origin_of enc" "data_url lib self p = Inr u" "metadata_url lib self p = Inr v"
  shows "\<exists>base below. path_of u = mount_prefix path_of enc base self ''data'' @ below
    \<and> path_of v = mount_prefix path_of enc base self ''metadata'' @ below"
proof -
  have "''data'' \<notin> {[], ''.'', ''..''}" "''metadata'' \<notin> {[], ''.'', ''..''}"
    by simp_all
  with kv_url_path [OF assms(1) _ assms(2) [unfolded data_url_def]]
    kv_url_path [OF assms(1) _ assms(3) [unfolded metadata_url_def]] show ?thesis
    by (metis Inr_inject)
qed

text \<open>A missing secret is no value on a read and no error on a deletion.\<close>

lemma missing_secret:
  assumes "vault_call lib self m u None c = Inr resp" "vl_status lib resp = 404"
  shows "data_url lib self p = Inr u \<Longrightarrow> m = ''GET'' \<Longrightarrow> c = ''vault read request failed'' \<Longrightarrow>
      read_secret lib self p = Inr None"
    and "metadata_url lib self p = Inr u \<Longrightarrow> m = ''DELETE'' \<Longrightarrow> c = ''vault delete request failed'' \<Longrightarrow>
      delete_secret lib self p = Inr ()"
  using assms by (simp_all add: read_secret_def delete_secret_def)

lemma read_secret_value:
  assumes "read_secret lib self p = Inr (Some v)"
  shows "\<exists>url resp body. data_url lib self p = Inr url \<and> is_success (vl_status lib resp) \<and>
    vl_json lib resp = Inr body \<and> parse_secret_value lib body = Some v"
  using assms by (auto simp: read_secret_def try_bind_Inr_iff split: if_splits)

end
