(* ===== verification/Http_Layers.thy ===== *)
theory Http_Layers
  imports Kit_Prelude "HOL-Library.Word"
begin

text \<open>
  The HTTP layers of \<open>crates/middleware\<close>: the CORS policy and the security headers.  The CORS layer of
  the HTTP library is the record of what it is configured with; its list of origins is built by the
  parameter \<open>origin_list\<close>, \<open>None\<close> for a panic.
\<close>

section \<open>CORS\<close>

record CorsConfig =
  co_allowed_origins :: "string list"
  co_allow_credentials :: bool

datatype CorsError = InvalidOrigin string string | WildcardWithCredentials

fun cors_error_display :: "(string \<Rightarrow> string) \<Rightarrow> CorsError \<Rightarrow> string" where
  "cors_error_display dbg (InvalidOrigin origin e) = ''invalid CORS origin '' @ dbg origin @ '': '' @ e"
| "cors_error_display dbg WildcardWithCredentials = ''wildcard origin `*` cannot be combined with allow_credentials''"

record 'o CorsLayer =
  cl_origins :: 'o
  cl_methods :: "string list"
  cl_headers :: "string list"
  cl_credentials :: bool
  cl_max_age :: nat

abbreviation PREFLIGHT_MAX_AGE :: nat where "PREFLIGHT_MAX_AGE \<equiv> 3600"

fun parse_origins :: "(string \<Rightarrow> (string, 'h) result) \<Rightarrow> string list \<Rightarrow> (CorsError, 'h list) result" where
  "parse_origins parse_header [] = Inr []"
| "parse_origins parse_header (origin # origins) =
     try_bind (map_err (InvalidOrigin origin) (parse_header origin)) (\<lambda>h.
     try_bind (parse_origins parse_header origins) (\<lambda>hs. Inr (h # hs)))"

definition cors_layer ::
  "(string \<Rightarrow> (string, 'h) result) \<Rightarrow> ('h list \<Rightarrow> 'o option) \<Rightarrow> CorsConfig \<Rightarrow> (CorsError, 'o CorsLayer) result option" where
  "cors_layer parse_header origin_list config =
     (if co_allow_credentials config \<and> list_ex (\<lambda>o'. o' = ''*'') (co_allowed_origins config)
      then Some (Inl WildcardWithCredentials)
      else
        (case parse_origins parse_header (co_allowed_origins config) of
           Inl e \<Rightarrow> Some (Inl e)
         | Inr hs \<Rightarrow>
             map_option (\<lambda>origins. Inr
               \<lparr>cl_origins = origins, cl_methods = [''GET'', ''POST'', ''PUT'', ''PATCH'', ''DELETE'', ''OPTIONS''],
                cl_headers = [''content-type'', ''authorization'', ''accept'', ''x-signature'', ''x-timestamp''],
                cl_credentials = co_allow_credentials config, cl_max_age = PREFLIGHT_MAX_AGE\<rparr>)
             (origin_list hs)))"

section \<open>Security headers\<close>

record SecurityHeadersConfig =
  sh_tls_enabled :: bool

text \<open>A header map by lower-case name; an insertion replaces what was there.\<close>

type_synonym header_map = "string \<rightharpoonup> string"

definition set_header :: "string \<Rightarrow> string \<Rightarrow> header_map \<Rightarrow> header_map" where
  "set_header name v headers = headers(map to_ascii_lower name \<mapsto> v)"

definition security_headers :: "SecurityHeadersConfig \<Rightarrow> header_map \<Rightarrow> header_map" where
  "security_headers config headers =
     (let headers = (if sh_tls_enabled config
                     then set_header ''Strict-Transport-Security'' ''max-age=31536000; includeSubDomains; preload'' headers
                     else headers);
          headers = set_header ''X-Content-Type-Options'' ''nosniff'' headers;
          headers = set_header ''Referrer-Policy'' ''strict-origin-when-cross-origin'' headers;
          headers = set_header ''X-Frame-Options'' ''DENY'' headers;
          headers = set_header ''Permissions-Policy'' ''geolocation=(), microphone=(), camera=(), payment=()'' headers;
          headers = set_header ''Cross-Origin-Opener-Policy'' ''same-origin'' headers
      in set_header ''Cross-Origin-Resource-Policy'' ''same-origin'' headers)"

section \<open>Facts\<close>

lemma parse_origins_Inr_iff:
  "parse_origins ph os = Inr hs \<longleftrightarrow> list_all2 (\<lambda>o' h. ph o' = Inr h) os hs"
  by (induction os arbitrary: hs) (auto simp: try_bind_Inr_iff list_all2_Cons1)

lemma parse_origins_Inl:
  "parse_origins ph os = Inl e \<Longrightarrow> \<exists>o' \<in> set os. \<exists>m. ph o' = Inl m \<and> e = InvalidOrigin o' m"
  by (induction os) (auto simp: try_bind_Inl_iff)

text \<open>A layer that allows credentials allows no wildcard, and exactly the configured origins.\<close>

lemma cors_layer_origins:
  assumes "cors_layer ph ol config = Some (Inr layer)"
  shows "\<exists>hs. list_all2 (\<lambda>o' h. ph o' = Inr h) (co_allowed_origins config) hs \<and> ol hs = Some (cl_origins layer)"
    and "cl_credentials layer \<Longrightarrow> ''*'' \<notin> set (co_allowed_origins config)"
  using assms by (auto simp: cors_layer_def list_ex_iff parse_origins_Inr_iff split: if_splits sum.splits)

text \<open>
  A list of origins with a wildcard is documented to panic in the HTTP library.  The configuration
  \<open>*\<close> without credentials, which passes the check of the code, therefore never gives a layer.
\<close>

lemma wildcard_panics:
  assumes "\<And>hs. w \<in> set hs \<Longrightarrow> ol hs = None" "ph ''*'' = Inr w"
    and "''*'' \<in> set (co_allowed_origins config)" "\<not> co_allow_credentials config"
  shows "cors_layer ph ol config = None \<or> (\<exists>o' m. cors_layer ph ol config = Some (Inl (InvalidOrigin o' m)))"
proof (cases "parse_origins ph (co_allowed_origins config)")
  case (Inl e)
  with parse_origins_Inl [OF Inl] assms(4) show ?thesis
    by (auto simp: cors_layer_def)
next
  case (Inr hs)
  then have "list_all2 (\<lambda>o' h. ph o' = Inr h) (co_allowed_origins config) hs"
    by (simp add: parse_origins_Inr_iff)
  moreover obtain i where i: "i < length (co_allowed_origins config)" "co_allowed_origins config ! i = ''*''"
    using assms(3) by (auto simp: in_set_conv_nth)
  ultimately have "ph ''*'' = Inr (hs ! i)" "i < length hs"
    using list_all2_nthD [of _ "co_allowed_origins config" hs i] list_all2_lengthD by fastforce+
  with assms(2) have "w \<in> set hs"
    by (auto simp: in_set_conv_nth)
  with Inr assms(1,4) show ?thesis
    by (simp add: cors_layer_def)
qed

text \<open>The fixed headers hold whatever the handler sent; the transport header depends on TLS alone.\<close>

definition fixed_headers :: "(string \<times> string) list" where
  "fixed_headers =
     [(''x-content-type-options'', ''nosniff''), (''referrer-policy'', ''strict-origin-when-cross-origin''),
      (''x-frame-options'', ''DENY''),
      (''permissions-policy'', ''geolocation=(), microphone=(), camera=(), payment=()''),
      (''cross-origin-opener-policy'', ''same-origin''), (''cross-origin-resource-policy'', ''same-origin'')]"

lemma lower_names:
  "map to_ascii_lower ''Strict-Transport-Security'' = ''strict-transport-security''"
  "map to_ascii_lower ''X-Content-Type-Options'' = ''x-content-type-options''"
  "map to_ascii_lower ''Referrer-Policy'' = ''referrer-policy''"
  "map to_ascii_lower ''X-Frame-Options'' = ''x-frame-options''"
  "map to_ascii_lower ''Permissions-Policy'' = ''permissions-policy''"
  "map to_ascii_lower ''Cross-Origin-Opener-Policy'' = ''cross-origin-opener-policy''"
  "map to_ascii_lower ''Cross-Origin-Resource-Policy'' = ''cross-origin-resource-policy''"
  by code_simp+

lemma security_headers_eq:
  "security_headers config headers =
     (if sh_tls_enabled config
      then headers(''strict-transport-security'' \<mapsto> ''max-age=31536000; includeSubDomains; preload'') else headers)
     (''x-content-type-options'' \<mapsto> ''nosniff'', ''referrer-policy'' \<mapsto> ''strict-origin-when-cross-origin'',
      ''x-frame-options'' \<mapsto> ''DENY'', ''permissions-policy'' \<mapsto> ''geolocation=(), microphone=(), camera=(), payment=()'',
      ''cross-origin-opener-policy'' \<mapsto> ''same-origin'', ''cross-origin-resource-policy'' \<mapsto> ''same-origin'')"
  by (simp only: security_headers_def set_header_def lower_names Let_def)

lemma security_headers_set:
  "list_all (\<lambda>(n, v). security_headers config headers n = Some v) fixed_headers"
  "security_headers config headers ''strict-transport-security'' =
     (if sh_tls_enabled config then Some ''max-age=31536000; includeSubDomains; preload''
      else headers ''strict-transport-security'')"
  by (simp_all add: security_headers_eq fixed_headers_def)

end
