(* ===== verification/Service_Support.thy ===== *)
theory Service_Support
  imports Kit_Prelude "HOL-Library.Word"
begin

text \<open>
  Four small crates every service uses: typed ids (\<open>crates/id\<close>), the audit log (\<open>crates/audit\<close>), the
  DKIM signer of outgoing mail (\<open>crates/mail\<close>) and the database settings (\<open>crates/db\<close>).  UUID text, the
  mail library and the connection pool are parameters.
\<close>

section \<open>Typed ids\<close>

type_synonym Uuid = "128 word"

text \<open>The types the macro \<open>typed_id!\<close> declares.\<close>

datatype OrgId = OrgId (org_uuid: Uuid)
datatype ProjectId = ProjectId (project_uuid: Uuid)
datatype VaultId = VaultId (vault_uuid: Uuid)
datatype SecretId = SecretId (secret_uuid: Uuid)
datatype UserId = UserId (user_uuid: Uuid)
datatype AgentId = AgentId (agent_uuid: Uuid)

datatype ParseIdError = ParseIdError string

fun parse_id_error_display :: "ParseIdError \<Rightarrow> string" where
  "parse_id_error_display (ParseIdError e) = ''invalid id: '' @ e"

text \<open>
  The operations the macro generates, for the constructor \<open>mk\<close> and the projection \<open>un\<close> of one of the
  types; \<open>uuid_from_str\<close> and \<open>uuid_display\<close> are the library's, \<open>v7\<close> the UUID it draws.
\<close>

definition id_from_uuid :: "(Uuid \<Rightarrow> 'i) \<Rightarrow> Uuid \<Rightarrow> 'i" where
  "id_from_uuid mk inner = mk inner"

definition id_nil :: "(Uuid \<Rightarrow> 'i) \<Rightarrow> 'i" where
  "id_nil mk = mk 0"

definition id_as_uuid :: "('i \<Rightarrow> Uuid) \<Rightarrow> 'i \<Rightarrow> Uuid" where
  "id_as_uuid un self = un self"

definition id_new_v7 :: "(Uuid \<Rightarrow> 'i) \<Rightarrow> Uuid \<Rightarrow> 'i" where
  "id_new_v7 mk v7 = mk v7"

definition id_new_ulid :: "(Uuid \<Rightarrow> 'i) \<Rightarrow> Uuid \<Rightarrow> 'i" where
  "id_new_ulid mk v7 = id_new_v7 mk v7"

definition id_display :: "('i \<Rightarrow> Uuid) \<Rightarrow> (Uuid \<Rightarrow> string) \<Rightarrow> 'i \<Rightarrow> string" where
  "id_display un uuid_display self = uuid_display (un self)"

definition id_from_str :: "(Uuid \<Rightarrow> 'i) \<Rightarrow> (string \<Rightarrow> (string, Uuid) result) \<Rightarrow> string \<Rightarrow> (ParseIdError, 'i) result" where
  "id_from_str mk uuid_from_str s = map_err ParseIdError (try_bind (uuid_from_str s) (\<lambda>u. Inr (mk u)))"

section \<open>Audit log\<close>

datatype Action =
    ActCreated | ActRead | ActUpdated | ActDeleted | ActRotated
  | ActTokenMinted | ActTokenRevoked | ActLoginSucceeded | ActLoginFailed | ActPermissionDenied

datatype Actor = UserActor UserId | ClusterActor string | SystemActor

definition actor_user :: "UserId \<Rightarrow> Actor" where
  "actor_user i = UserActor i"

record AuditEntry =
  ae_at :: int
  ae_actor :: Actor
  ae_action :: Action
  ae_resource :: string
  ae_detail :: "string option"

definition audit_entry_at :: "int \<Rightarrow> Actor \<Rightarrow> Action \<Rightarrow> string \<Rightarrow> AuditEntry" where
  "audit_entry_at t actor action resource =
     \<lparr>ae_at = t, ae_actor = actor, ae_action = action, ae_resource = resource, ae_detail = None\<rparr>"

text \<open>The entry of the current time, which is the argument \<open>utc_now\<close>.\<close>

definition audit_entry_now :: "int \<Rightarrow> Actor \<Rightarrow> Action \<Rightarrow> string \<Rightarrow> AuditEntry" where
  "audit_entry_now utc_now actor action resource =
     \<lparr>ae_at = utc_now, ae_actor = actor, ae_action = action, ae_resource = resource, ae_detail = None\<rparr>"

definition audit_with_detail :: "string \<Rightarrow> AuditEntry \<Rightarrow> AuditEntry" where
  "audit_with_detail detail self = self\<lparr>ae_detail := Some detail\<rparr>"

datatype AuditError = BackendError string

fun audit_error_display :: "AuditError \<Rightarrow> string" where
  "audit_error_display (BackendError e) = ''audit backend error: '' @ e"

record InMemoryAuditSink =
  am_entries :: "AuditEntry list"

definition audit_sink_new :: InMemoryAuditSink where
  "audit_sink_new = \<lparr>am_entries = []\<rparr>"

definition audit_append :: "AuditEntry \<Rightarrow> InMemoryAuditSink \<Rightarrow> (AuditError, unit) result \<times> InMemoryAuditSink" where
  "audit_append entry self = (Inr (), self\<lparr>am_entries := am_entries self @ [entry]\<rparr>)"

definition audit_entries :: "InMemoryAuditSink \<Rightarrow> AuditEntry list" where
  "audit_entries self = am_entries self"

definition audit_len :: "InMemoryAuditSink \<Rightarrow> nat" where
  "audit_len self = length (am_entries self)"

definition audit_is_empty :: "InMemoryAuditSink \<Rightarrow> bool" where
  "audit_is_empty self \<longleftrightarrow> audit_len self = 0"

section \<open>Mail signatures\<close>

definition SIGNED_HEADERS :: "string list" where
  "SIGNED_HEADERS = [''From'', ''To'', ''Subject'', ''Date'']"

datatype DkimError = DkimKeyFormat | DkimIncomplete string

fun dkim_error_display :: "DkimError \<Rightarrow> string" where
  "dkim_error_display DkimKeyFormat =
     ''the DKIM private key must be PKCS#1 (`BEGIN RSA PRIVATE KEY`); '' @
     ''convert a PKCS#8 key with `openssl rsa -in key.pem -traditional`''"
| "dkim_error_display (DkimIncomplete name) =
     ''incomplete DKIM configuration: '' @ name @ '' is missing while the others are set''"

datatype canonicalization = SimpleForm | RelaxedForm

record 'k DkimSigner =
  dk_selector :: string
  dk_domain :: string
  dk_key :: 'k
  dk_headers :: "string list"
  dk_header_form :: canonicalization
  dk_body_form :: canonicalization

definition dkim_new :: "(string \<Rightarrow> 'k option) \<Rightarrow> string \<Rightarrow> string \<Rightarrow> string \<Rightarrow> (DkimError, 'k DkimSigner) result" where
  "dkim_new rsa_key k selector domain =
     try_bind (ok_or DkimKeyFormat (rsa_key k)) (\<lambda>signing_key.
     Inr \<lparr>dk_selector = selector, dk_domain = domain, dk_key = signing_key, dk_headers = SIGNED_HEADERS,
          dk_header_form = RelaxedForm, dk_body_form = RelaxedForm\<rparr>)"

definition env_filled :: "(string \<rightharpoonup> string) \<Rightarrow> string \<Rightarrow> string option" where
  "env_filled env name = Option.bind (env name) (\<lambda>v. if v = [] then None else Some v)"

definition dkim_from_env :: "(string \<Rightarrow> 'k option) \<Rightarrow> (string \<rightharpoonup> string) \<Rightarrow> (DkimError, 'k DkimSigner option) result" where
  "dkim_from_env rsa_key env =
     (case (env_filled env ''MAIL_DKIM_PRIVATE_KEY'', env_filled env ''MAIL_DKIM_SELECTOR'', env_filled env ''MAIL_DKIM_DOMAIN'') of
        (None, None, None) \<Rightarrow> Inr None
      | (Some k, Some selector, Some domain) \<Rightarrow> try_bind (dkim_new rsa_key k selector domain) (\<lambda>s. Inr (Some s))
      | (k, selector, _) \<Rightarrow>
          Inl (DkimIncomplete (if k = None then ''MAIL_DKIM_PRIVATE_KEY''
                               else if selector = None then ''MAIL_DKIM_SELECTOR''
                               else ''MAIL_DKIM_DOMAIN'')))"

text \<open>\<open>sign_message\<close> is the mail library's.\<close>

definition dkim_sign :: "('k DkimSigner \<Rightarrow> 'm \<Rightarrow> 'm) \<Rightarrow> 'k DkimSigner \<Rightarrow> 'm \<Rightarrow> 'm" where
  "dkim_sign sign_message self message = sign_message self message"

section \<open>Database settings\<close>

record DbConfig =
  db_url :: string
  db_max_connections :: nat
  db_acquire_timeout :: nat

definition db_from_env :: "(string \<rightharpoonup> string) \<Rightarrow> (string, DbConfig) result" where
  "db_from_env env =
     try_bind (ok_or ''DATABASE_URL not set'' (env ''DATABASE_URL'')) (\<lambda>url.
     Inr \<lparr>db_url = url,
          db_max_connections = unwrap_or 20 (Option.bind (env ''DATABASE_MAX_CONNECTIONS'') (parse_unsigned 32)),
          db_acquire_timeout = unwrap_or 10 (Option.bind (env ''DATABASE_ACQUIRE_TIMEOUT_SECS'') (parse_unsigned 64))\<rparr>)"

text \<open>\<open>pg_connect\<close> is the pool constructor, \<open>run_migrations\<close> the shipped migrations.\<close>

definition db_connect ::
  "(nat \<Rightarrow> nat \<Rightarrow> string \<Rightarrow> (string, 'p) result) \<Rightarrow> DbConfig \<Rightarrow> (string, 'p) result" where
  "db_connect pg_connect config =
     map_err (\<lambda>_. ''failed to connect to Postgres'')
       (pg_connect (db_max_connections config) (db_acquire_timeout config) (db_url config))"

definition migrate_shared :: "('p \<Rightarrow> (string, unit) result) \<Rightarrow> 'p \<Rightarrow> (string, unit) result" where
  "migrate_shared run_migrations pool = map_err (\<lambda>_. ''shared migration failed'') (run_migrations pool)"

section \<open>Facts\<close>

text \<open>An id printed and parsed is the id, for each of the types.\<close>

lemma id_roundtrip:
  assumes "\<And>u. uuid_from_str (uuid_display u) = Inr u" "\<And>i. mk (un i) = i"
  shows "id_from_str mk uuid_from_str (id_display un uuid_display i) = Inr i"
  using assms by (simp add: id_from_str_def id_display_def)

lemmas typed_id_roundtrips =
  id_roundtrip [where mk = OrgId and un = org_uuid, OF _ OrgId.collapse]
  id_roundtrip [where mk = ProjectId and un = project_uuid, OF _ ProjectId.collapse]
  id_roundtrip [where mk = VaultId and un = vault_uuid, OF _ VaultId.collapse]
  id_roundtrip [where mk = SecretId and un = secret_uuid, OF _ SecretId.collapse]
  id_roundtrip [where mk = UserId and un = user_uuid, OF _ UserId.collapse]
  id_roundtrip [where mk = AgentId and un = agent_uuid, OF _ AgentId.collapse]

text \<open>
  The contract of an audit sink: an append that succeeds adds the entry at the end, one that fails
  changes nothing.
\<close>

locale audit_sink =
  fixes append_entry :: "'e \<Rightarrow> 's \<Rightarrow> ('x, unit) result \<times> 's"
    and entries_of :: "'s \<Rightarrow> 'e list"
  assumes append_ok: "append_entry e s = (Inr u, s') \<Longrightarrow> entries_of s' = entries_of s @ [e]"
    and append_failed: "append_entry e s = (Inl x, s') \<Longrightarrow> entries_of s' = entries_of s"
begin

lemma log_grows: "\<exists>more. entries_of (snd (append_entry e s)) = entries_of s @ more \<and> set more \<subseteq> {e}"
proof (cases "append_entry e s")
  case (Pair r s')
  then show ?thesis
    by (cases r) (auto dest: append_ok append_failed)
qed

text \<open>After any history of appends, what was there is still there, unchanged and in place.\<close>

lemma log_is_append_only:
  "\<exists>more. entries_of (fold (\<lambda>e s. snd (append_entry e s)) es s) = entries_of s @ more \<and> set more \<subseteq> set es"
proof (induction es arbitrary: s)
  case (Cons e es)
  obtain a b where "entries_of (snd (append_entry e s)) = entries_of s @ a" "set a \<subseteq> {e}"
    and "entries_of (fold (\<lambda>e s. snd (append_entry e s)) es (snd (append_entry e s)))
      = entries_of (snd (append_entry e s)) @ b" "set b \<subseteq> set es"
    using log_grows [of e s] Cons.IH [of "snd (append_entry e s)"] by blast
  then show ?case
    by (intro exI [of _ "a @ b"]) auto
qed simp

end

interpretation memory_audit: audit_sink audit_append audit_entries
  by unfold_locales (auto simp: audit_append_def audit_entries_def)

lemma memory_audit_records_all:
  "audit_entries (fold (\<lambda>e s. snd (audit_append e s)) es s) = audit_entries s @ es"
  by (induction es arbitrary: s) (simp_all add: audit_append_def audit_entries_def)

text \<open>Mail is unsigned only when nothing is configured; a half configuration is an error.\<close>

lemma dkim_from_env_cases:
  "dkim_from_env rsa env = Inr None \<longleftrightarrow>
     env_filled env ''MAIL_DKIM_PRIVATE_KEY'' = None \<and> env_filled env ''MAIL_DKIM_SELECTOR'' = None
       \<and> env_filled env ''MAIL_DKIM_DOMAIN'' = None"
  "dkim_from_env rsa env = Inl (DkimIncomplete n) \<Longrightarrow> env_filled env n = None"
  by (auto simp: dkim_from_env_def dkim_new_def try_bind_Inr_iff try_bind_Inl_iff split: option.splits if_splits)

lemma dkim_signer_covers:
  "dkim_new rsa k sel d = Inr s \<Longrightarrow> set (dk_headers s) = {''From'', ''To'', ''Subject'', ''Date''} \<and> dk_header_form s = RelaxedForm"
  by (auto simp: dkim_new_def try_bind_Inr_iff SIGNED_HEADERS_def)

lemma db_from_env_bounds:
  "db_from_env env = Inr c \<Longrightarrow> db_max_connections c < 2 ^ 32 \<and> db_acquire_timeout c < 2 ^ 64"
  by (auto simp: db_from_env_def try_bind_Inr_iff unwrap_or_def parse_unsigned_def Let_def bind_eq_Some_conv
      split: option.splits if_splits)

end
