(* ===== verification/Telemetry.thy ===== *)
theory Telemetry
  imports Platform_Types
begin

unbundle bit_operations_syntax

text \<open>
  The registry of analytics events, the pseudonymous ids they carry, and the request metrics of
  \<open>crates/telemetry\<close>.  BLAKE3, hex coding, JSON values and the text encoder of the metrics are
  parameters; the registry of counters is explicit state.
\<close>

section \<open>Events\<close>

abbreviation SCHEMA_VERSION :: "32 word" where "SCHEMA_VERSION \<equiv> 1"

datatype Surface = Ferrlabs | Ferrflow | Ferrvault | Ferrtrack | Ferrgrowth | Ferrfleet

fun surface_slug :: "Surface \<Rightarrow> string" where
  "surface_slug Ferrlabs = ''ferrlabs''"
| "surface_slug Ferrflow = ''ferrflow''"
| "surface_slug Ferrvault = ''ferrvault''"
| "surface_slug Ferrtrack = ''ferrtrack''"
| "surface_slug Ferrgrowth = ''ferrgrowth''"
| "surface_slug Ferrfleet = ''ferrfleet''"

definition surface_all :: "Surface list" where
  "surface_all = [Ferrlabs, Ferrflow, Ferrvault, Ferrtrack, Ferrgrowth, Ferrfleet]"

fun surface_from_product :: "Product \<Rightarrow> Surface" where
  "surface_from_product FerrFlow = Ferrflow"
| "surface_from_product FerrVault = Ferrvault"
| "surface_from_product FerrTrack = Ferrtrack"
| "surface_from_product FerrGrowth = Ferrgrowth"
| "surface_from_product FerrFleet = Ferrfleet"

datatype Event =
    OrgCreated
  | OrgMemberAdded
  | ProductActivated
  | ProductTierChanged
  | ProductCanceled
  | AuthLogin
  | AuthSignup
  | CliRun
  | CliError
  | VaultSecretInjected
  | TrackIssueCreated
  | GrowthSitePublished
  | FleetAgentRun

datatype FieldType = HashField | EnumField | IntField | StringField | BoolField

record Field =
  fl_name :: string
  fl_kind :: FieldType
  fl_doc :: string

definition field_new :: "string \<Rightarrow> FieldType \<Rightarrow> string \<Rightarrow> Field" where
  "field_new name kind doc = \<lparr>fl_name = name, fl_kind = kind, fl_doc = doc\<rparr>"

text \<open>The bytes of the ellipsis in one of the descriptions.\<close>

definition ellipsis :: string where
  "ellipsis = [CHR 0xE2, CHR 0x80, CHR 0xA6]"

text \<open>The constants \<open>FIELDS_ORG_CREATED\<close> to \<open>FIELDS_FLEET_AGENT_RUN\<close>, one for each event.\<close>

fun FIELDS :: "Event \<Rightarrow> Field list" where
  "FIELDS OrgCreated =
     [field_new ''org_hash'' HashField ''BLAKE3-keyed(org_id).'',
      field_new ''user_hash'' HashField ''BLAKE3-keyed(user_id) of the creator.'']"
| "FIELDS OrgMemberAdded =
     [field_new ''org_hash'' HashField ''BLAKE3-keyed(org_id).'',
      field_new ''actor_hash'' HashField ''BLAKE3-keyed(user_id) of the actor that added the member.'',
      field_new ''role'' EnumField ''owner | admin | member | billing | auditor'']"
| "FIELDS ProductActivated =
     [field_new ''org_hash'' HashField ''BLAKE3-keyed(org_id).'',
      field_new ''product'' EnumField ''ferrflow | ferrvault | ferrtrack | ferrgrowth | ferrfleet'',
      field_new ''tier'' EnumField ''free | pro | team | enterprise'']"
| "FIELDS ProductTierChanged =
     [field_new ''org_hash'' HashField ''BLAKE3-keyed(org_id).'',
      field_new ''product'' EnumField ''Product slug.'',
      field_new ''tier_from'' EnumField ''Previous tier.'',
      field_new ''tier_to'' EnumField ''New tier.'']"
| "FIELDS ProductCanceled =
     [field_new ''org_hash'' HashField ''BLAKE3-keyed(org_id).'',
      field_new ''product'' EnumField ''Product slug.'']"
| "FIELDS AuthLogin =
     [field_new ''user_hash'' HashField ''BLAKE3-keyed(user_id).'',
      field_new ''method'' EnumField ''password | oauth-google | oauth-github | sso'']"
| "FIELDS AuthSignup =
     [field_new ''user_hash'' HashField ''BLAKE3-keyed(user_id).'',
      field_new ''method'' EnumField ''Auth method used.'']"
| "FIELDS CliRun =
     [field_new ''command'' EnumField (''bump | release | changelog | '' @ ellipsis),
      field_new ''exit_code'' IntField ''Process exit code.'',
      field_new ''duration_ms'' IntField ''Wall-clock duration.'',
      field_new ''cli_version'' StringField ''semver.'',
      field_new ''os'' EnumField ''linux | macos | windows'',
      field_new ''arch'' EnumField ''x86_64 | aarch64'']"
| "FIELDS CliError =
     [field_new ''command'' EnumField ''Command that errored.'',
      field_new ''error_code'' StringField ''FFXXXX code. The error body is NOT sent.'',
      field_new ''cli_version'' StringField ''semver.'']"
| "FIELDS VaultSecretInjected =
     [field_new ''org_hash'' HashField ''BLAKE3-keyed(org_id).'',
      field_new ''kind'' EnumField ''Backend kind: native | external_helm | external_other.'']"
| "FIELDS TrackIssueCreated =
     [field_new ''org_hash'' HashField ''BLAKE3-keyed(org_id).'',
      field_new ''source'' EnumField ''ui | api | git_link | automation'']"
| "FIELDS GrowthSitePublished =
     [field_new ''org_hash'' HashField ''BLAKE3-keyed(org_id).'',
      field_new ''custom_domain'' BoolField ''True if a custom domain is bound.'']"
| "FIELDS FleetAgentRun =
     [field_new ''org_hash'' HashField ''BLAKE3-keyed(org_id).'',
      field_new ''agent_kind'' EnumField ''first_party | custom'',
      field_new ''first_party_slug'' StringField ''Set when agent_kind=first_party.'',
      field_new ''exit_code'' IntField ''0 on success.'',
      field_new ''duration_ms'' IntField ''Wall-clock duration.'']"

definition ALL_EVENTS :: "Event list" where
  "ALL_EVENTS =
     [OrgCreated, OrgMemberAdded, ProductActivated, ProductTierChanged,
      ProductCanceled, AuthLogin, AuthSignup, CliRun,
      CliError, VaultSecretInjected, TrackIssueCreated, GrowthSitePublished,
      FleetAgentRun]"

fun event_name :: "Event \<Rightarrow> string" where
  "event_name OrgCreated = ''org.created''"
| "event_name OrgMemberAdded = ''org.member.added''"
| "event_name ProductActivated = ''product.activated''"
| "event_name ProductTierChanged = ''product.tier_changed''"
| "event_name ProductCanceled = ''product.canceled''"
| "event_name AuthLogin = ''auth.login''"
| "event_name AuthSignup = ''auth.signup''"
| "event_name CliRun = ''cli.run''"
| "event_name CliError = ''cli.error''"
| "event_name VaultSecretInjected = ''vault.secret.injected''"
| "event_name TrackIssueCreated = ''track.issue.created''"
| "event_name GrowthSitePublished = ''growth.site.published''"
| "event_name FleetAgentRun = ''fleet.agent.run''"

fun event_surface :: "Event \<Rightarrow> Surface" where
  "event_surface CliRun = Ferrflow"
| "event_surface CliError = Ferrflow"
| "event_surface VaultSecretInjected = Ferrvault"
| "event_surface TrackIssueCreated = Ferrtrack"
| "event_surface GrowthSitePublished = Ferrgrowth"
| "event_surface FleetAgentRun = Ferrfleet"
| "event_surface _ = Ferrlabs"

definition event_fields :: "Event \<Rightarrow> Field list" where
  "event_fields e = FIELDS e"

fun event_when_it_fires :: "Event \<Rightarrow> string" where
  "event_when_it_fires OrgCreated = ''A new organization is created.''"
| "event_when_it_fires OrgMemberAdded = ''A user is added to an organization.''"
| "event_when_it_fires ProductActivated = ''An org activates a product subscription.''"
| "event_when_it_fires ProductTierChanged = ''An active subscription is upgraded or downgraded.''"
| "event_when_it_fires ProductCanceled = ''A subscription is canceled.''"
| "event_when_it_fires AuthLogin = ''Successful login.''"
| "event_when_it_fires AuthSignup = ''A new account is created.''"
| "event_when_it_fires CliRun = ''Once per CLI invocation, after the command finishes.''"
| "event_when_it_fires CliError = ''On unhandled error, instead of cli.run.''"
| "event_when_it_fires VaultSecretInjected = ''FerrVault operator injects a secret into a workload.''"
| "event_when_it_fires TrackIssueCreated = ''A new issue is created in FerrTrack.''"
| "event_when_it_fires GrowthSitePublished = ''A FerrGrowth site is (re)published.''"
| "event_when_it_fires FleetAgentRun = ''A FerrFleet agent run finishes (success or error).''"

record EventMeta =
  em_event :: Event
  em_when_it_fires :: string
  em_fields :: "Field list"

definition event_meta :: "Event \<Rightarrow> EventMeta" where
  "event_meta self = \<lparr>em_event = self, em_when_it_fires = event_when_it_fires self, em_fields = event_fields self\<rparr>"

definition event_all :: "Event list" where
  "event_all = ALL_EVENTS"

record 'j TelemetryEnvelope =
  te_surface :: Surface
  te_event :: Event
  te_org_hash :: "string option"
  te_user_hash :: "string option"
  te_properties :: "string \<rightharpoonup> 'j"
  te_schema_version :: "32 word"
  te_occurred_at :: int

definition envelope_new :: "int \<Rightarrow> Event \<Rightarrow> 'j TelemetryEnvelope" where
  "envelope_new utc_now event =
     \<lparr>te_surface = event_surface event, te_event = event, te_org_hash = None, te_user_hash = None,
      te_properties = Map.empty, te_schema_version = SCHEMA_VERSION, te_occurred_at = utc_now\<rparr>"

definition with_org :: "string \<Rightarrow> 'j TelemetryEnvelope \<Rightarrow> 'j TelemetryEnvelope" where
  "with_org hash self = self\<lparr>te_org_hash := Some hash\<rparr>"

definition with_user :: "string \<Rightarrow> 'j TelemetryEnvelope \<Rightarrow> 'j TelemetryEnvelope" where
  "with_user hash self = self\<lparr>te_user_hash := Some hash\<rparr>"

definition with_property :: "string \<Rightarrow> 'j \<Rightarrow> 'j TelemetryEnvelope \<Rightarrow> 'j TelemetryEnvelope" where
  "with_property k v self = self\<lparr>te_properties := (te_properties self)(k \<mapsto> v)\<rparr>"

section \<open>Pseudonymous ids\<close>

record Hasher =
  ha_key :: string

record hash_lib =
  hl_keyed_hash :: "string \<Rightarrow> string \<Rightarrow> string"
  hl_hex_encode :: "string \<Rightarrow> string"
  hl_hex_decode :: "string \<Rightarrow> (string, string) result"

definition hasher_new :: "string \<Rightarrow> Hasher" where
  "hasher_new k = \<lparr>ha_key = k\<rparr>"

definition hasher_from_hex :: "hash_lib \<Rightarrow> string \<Rightarrow> (string, Hasher) result" where
  "hasher_from_hex lib hex_key =
     try_bind (hl_hex_decode lib hex_key) (\<lambda>bytes.
     if length bytes \<noteq> 32
     then Inl (''expected 32-byte key, got '' @ show_nat (length bytes) @ '' bytes'')
     else Inr (hasher_new bytes))"

definition hash_bytes :: "hash_lib \<Rightarrow> Hasher \<Rightarrow> string \<Rightarrow> string" where
  "hash_bytes lib self bytes = hl_hex_encode lib (take 16 (hl_keyed_hash lib (ha_key self) bytes))"

text \<open>A UUID is its 16 bytes.\<close>

definition hash_uuid :: "hash_lib \<Rightarrow> Hasher \<Rightarrow> string \<Rightarrow> string" where
  "hash_uuid lib self uuid_bytes = hl_hex_encode lib (take 16 (hl_keyed_hash lib (ha_key self) uuid_bytes))"

definition hasher_debug :: "Hasher \<Rightarrow> string \<times> string" where
  "hasher_debug self = (''key'', ''<redacted>'')"

section \<open>The manifest\<close>

definition manifest :: "EventMeta list" where
  "manifest = map event_meta event_all"

text \<open>\<open>obj\<close>, \<open>arr\<close>, \<open>str\<close>, \<open>num\<close> and \<open>kind_json\<close> build JSON values.\<close>

record 'j json_out =
  jo_obj :: "(string \<times> 'j) list \<Rightarrow> 'j"
  jo_arr :: "'j list \<Rightarrow> 'j"
  jo_str :: "string \<Rightarrow> 'j"
  jo_num :: "nat \<Rightarrow> 'j"
  jo_kind :: "FieldType \<Rightarrow> 'j"

definition manifest_json :: "'j json_out \<Rightarrow> 'j" where
  "manifest_json jo =
     jo_obj jo [(''schema_version'', jo_num jo (unat SCHEMA_VERSION)),
       (''events'', jo_arr jo (map (\<lambda>m. jo_obj jo
          [(''event'', jo_str jo (event_name (em_event m))),
           (''surface'', jo_str jo (surface_slug (event_surface (em_event m)))),
           (''when_it_fires'', jo_str jo (em_when_it_fires m)),
           (''fields'', jo_arr jo (map (\<lambda>f. jo_obj jo
              [(''name'', jo_str jo (fl_name f)), (''kind'', jo_kind jo (fl_kind f)), (''doc'', jo_str jo (fl_doc f))])
            (em_fields m)))]) manifest))]"

section \<open>Request metrics\<close>

text \<open>The counters, the latencies observed and the two gauges; a duration has the type \<open>'d\<close>.\<close>

record 'd Metrics =
  mt_requests :: "string \<times> string \<times> string \<Rightarrow> nat"
  mt_durations :: "string \<times> string \<Rightarrow> 'd list"
  mt_pool_in_use :: int
  mt_pool_idle :: int

definition record_request :: "string \<Rightarrow> string \<Rightarrow> 16 word \<Rightarrow> 'd \<Rightarrow> 'd Metrics \<Rightarrow> 'd Metrics" where
  "record_request meth route status duration reg =
     (let status = show_nat (unat status) in
      reg\<lparr>mt_requests := (mt_requests reg)((meth, route, status) := mt_requests reg (meth, route, status) + 1),
          mt_durations := (mt_durations reg)((meth, route) := mt_durations reg (meth, route) @ [duration])\<rparr>)"

definition set_db_pool :: "int \<Rightarrow> int \<Rightarrow> 'd Metrics \<Rightarrow> 'd Metrics" where
  "set_db_pool in_use idle reg = reg\<lparr>mt_pool_in_use := in_use, mt_pool_idle := idle\<rparr>"

abbreviation PROMETHEUS_CONTENT_TYPE :: string where
  "PROMETHEUS_CONTENT_TYPE \<equiv> ''text/plain; version=0.0.4; charset=utf-8''"

record tracked_request =
  rq_method :: string
  rq_matched_path :: "string option"
  rq_uri_path :: string

text \<open>The rest of the stack answers with a status, after the given duration.\<close>

definition track :: "tracked_request \<Rightarrow> 16 word \<Rightarrow> 'd \<Rightarrow> 'd Metrics \<Rightarrow> 'd Metrics" where
  "track request status elapsed reg =
     (let route = (case rq_matched_path request of None \<Rightarrow> rq_uri_path request | Some mp \<Rightarrow> mp)
      in record_request (rq_method request) route status elapsed reg)"

definition metrics_ct_eq :: "string \<Rightarrow> string \<Rightarrow> bool" where
  "metrics_ct_eq a b =
     (if length a \<noteq> length b then False
      else fold (\<lambda>(x, y) diff. diff OR (of_nat (byte x) XOR of_nat (byte y))) (zip a b) (0 :: 8 word) = 0)"

datatype 't metrics_answer = MetricsUnauthorized | MetricsText string 't

text \<open>
  The handler of \<open>GET /metrics\<close>: \<open>auth\<close> is the authorization header when it is a string, \<open>gather\<close> the
  encoded registry.
\<close>

definition metrics_token :: "string option \<Rightarrow> string option" where
  "metrics_token token = Option.bind (map_option trim token) (\<lambda>t. if t = [] then None else Some t)"

definition metrics_router :: "string option \<Rightarrow> string option \<Rightarrow> 't \<Rightarrow> 't metrics_answer" where
  "metrics_router token auth gather =
     (case metrics_token token of
        Some expected \<Rightarrow>
          (if (case Option.bind auth (strip_prefix ''Bearer '') of Some got \<Rightarrow> metrics_ct_eq got expected | None \<Rightarrow> False)
           then MetricsText PROMETHEUS_CONTENT_TYPE gather else MetricsUnauthorized)
      | None \<Rightarrow> MetricsText PROMETHEUS_CONTENT_TYPE gather)"

section \<open>Facts about events\<close>

lemma all_events_complete: "e \<in> set event_all"
  by (cases e) (simp_all add: event_all_def ALL_EVENTS_def)

lemma all_events_distinct: "distinct event_all"
  by (simp add: event_all_def ALL_EVENTS_def)

lemma event_names_distinct: "distinct (map event_name event_all)"
  by (simp add: event_all_def ALL_EVENTS_def)

lemma event_name_inj: "event_name a = event_name b \<longleftrightarrow> a = b"
  using event_names_distinct all_events_complete [of a] all_events_complete [of b]
  by (auto simp: distinct_map inj_on_def)

lemma product_surface_slug: "surface_slug (surface_from_product p) = product_slug p"
  by (cases p) simp_all

text \<open>A declared field whose name says hash holds a keyed hash, and no field is named after a raw id.\<close>

lemma ids_are_hashed:
  "list_all (\<lambda>f. (drop (length (fl_name f) - 5) (fl_name f) = ''_hash'') = (fl_kind f = HashField)
      \<and> fl_name f \<notin> {''org_id'', ''user_id'', ''email''}) (event_fields e)"
  by (cases e) (simp_all add: event_fields_def field_new_def)

lemma field_names_distinct: "distinct (map fl_name (event_fields e))"
  by (cases e) (simp_all add: event_fields_def field_new_def)

text \<open>The manifest describes every event once.\<close>

lemma manifest_complete: "map em_event manifest = ALL_EVENTS" "event_meta e \<in> set manifest"
  using all_events_complete [of e] by (simp_all add: manifest_def event_meta_def event_all_def comp_def)

section \<open>Facts about metrics\<close>

lemma byte_xor: "of_nat (byte x) XOR of_nat (byte y) = (0 :: 8 word) \<longleftrightarrow> x = y"
proof -
  have "of_nat (byte x) = (of_nat (byte y) :: 8 word) \<longleftrightarrow> byte x = byte y"
    by (simp add: word_of_nat_eq_iff take_bit_nat_eq_self)
  moreover have "a XOR b = 0 \<longleftrightarrow> a = b" for a b :: "8 word"
  proof
    assume "a XOR b = 0"
    then have "(a XOR b) XOR b = b"
      by simp
    then show "a = b"
      by (simp add: xor.assoc)
  qed simp
  ultimately show ?thesis
    by simp
qed

lemma ct_fold_zero:
  "fold (\<lambda>(x, y) diff. diff OR (of_nat (byte x) XOR of_nat (byte y))) ps (d :: 8 word) = 0
     \<longleftrightarrow> d = 0 \<and> list_all (\<lambda>(x, y). x = y) ps"
proof (induction ps arbitrary: d)
  case (Cons p ps)
  obtain x y where p: "p = (x, y)"
    by fastforce
  show ?case
    unfolding p fold_simps prod.case Cons.IH or_eq_0_iff byte_xor list.pred_inject by blast
qed simp

lemma metrics_ct_eq_iff [simp]: "metrics_ct_eq a b \<longleftrightarrow> a = b"
  by (auto simp: metrics_ct_eq_def ct_fold_zero list_all_iff list_eq_iff_zip_eq)

text \<open>
  With a token the metrics are given exactly to the bearer of it, blanks around the configured token
  aside; without one they are open.
\<close>

lemma metrics_guarded:
  "metrics_router token auth body = MetricsText PROMETHEUS_CONTENT_TYPE body \<longleftrightarrow>
     (\<forall>t. metrics_token token = Some t \<longrightarrow> auth = Some (''Bearer '' @ t))"
proof (cases "metrics_token token")
  case (Some t)
  have "Option.bind auth (strip_prefix ''Bearer '') = Some t \<longleftrightarrow> auth = Some (''Bearer '' @ t)"
    by (simp only: bind_eq_Some_conv strip_prefix_Some_iff) blast
  with Some show ?thesis
    by (auto simp: metrics_router_def split: option.splits)
qed (simp add: metrics_router_def)

lemma metrics_answer_total:
  "metrics_router token auth body \<in> {MetricsUnauthorized, MetricsText PROMETHEUS_CONTENT_TYPE body}"
  by (simp add: metrics_router_def split: option.splits)

text \<open>Each request is counted once, under its own labels.\<close>

lemma track_counts_once:
  "sum_list (map (mt_requests (track r st d reg)) ks) =
     sum_list (map (mt_requests reg) ks) +
     count_list ks (rq_method r, (case rq_matched_path r of None \<Rightarrow> rq_uri_path r | Some mp \<Rightarrow> mp), show_nat (unat st))"
  by (induction ks) (auto simp: track_def record_request_def Let_def)

section \<open>lib.rs\<close>

text \<open>
  Setting up logging and traces.  The filter of the environment, the exporter and its provider are
  fields of \<open>tracing_lib\<close>, as is the installation of a subscriber over the one there may already be; the
  process-wide tracer provider and subscriber are the state.
\<close>

record ('f, 'p) subscriber =
  sb_filter :: 'f
  sb_otel :: "('p \<times> string) option"

record ('f, 'x, 'p) tracing_lib =
  tl_env_filter :: "'f option"
  tl_filter :: "string \<Rightarrow> 'f"
  tl_build_exporter :: "(string, 'x) result"
  tl_provider :: "'x \<Rightarrow> string \<Rightarrow> 'p"
  tl_try_init :: "('f, 'p) subscriber option \<Rightarrow> ('f, 'p) subscriber \<Rightarrow> (string, ('f, 'p) subscriber) result"

record ('f, 'p) tracing_globals =
  tg_provider :: "'p option"
  tg_subscriber :: "('f, 'p) subscriber option"

record 'p TelemetryGuard =
  gd_provider :: "'p option"

abbreviation OTLP_ENDPOINT_ENV :: string where
  "OTLP_ENDPOINT_ENV \<equiv> ''OTEL_EXPORTER_OTLP_ENDPOINT''"

definition telemetry_init ::
  "('f, 'x, 'p) tracing_lib \<Rightarrow> (string \<rightharpoonup> string) \<Rightarrow> string \<Rightarrow> ('f, 'p) tracing_globals
     \<Rightarrow> (string, 'p TelemetryGuard) result \<times> ('f, 'p) tracing_globals" where
  "telemetry_init lib env service_name g =
     (let filt = unwrap_or (tl_filter lib ''info'') (tl_env_filter lib) in
      case (if env OTLP_ENDPOINT_ENV \<noteq> None
            then try_bind (tl_build_exporter lib) (\<lambda>exporter. Inr (Some (tl_provider lib exporter service_name)))
            else Inr None) of
        Inl e \<Rightarrow> (Inl e, g)
      | Inr provider \<Rightarrow>
          (let g' = (case provider of None \<Rightarrow> g | Some p \<Rightarrow> g\<lparr>tg_provider := Some p\<rparr>);
               otel_layer = map_option (\<lambda>p. (p, service_name)) provider
           in case tl_try_init lib (tg_subscriber g') \<lparr>sb_filter = filt, sb_otel = otel_layer\<rparr> of
                Inl e \<Rightarrow> (Inl e, g')
              | Inr sub \<Rightarrow> (Inr \<lparr>gd_provider = provider\<rparr>, g'\<lparr>tg_subscriber := Some sub\<rparr>)))"

text \<open>The providers a dropped guard shuts down.\<close>

definition telemetry_guard_drop :: "'p TelemetryGuard \<Rightarrow> 'p list" where
  "telemetry_guard_drop guard = (case gd_provider guard of None \<Rightarrow> [] | Some p \<Rightarrow> [p])"

text \<open>A subscriber can be installed once.\<close>

definition try_init_ok :: "('f, 'x, 'p) tracing_lib \<Rightarrow> bool" where
  "try_init_ok lib \<longleftrightarrow>
     (\<forall>s. tl_try_init lib None s = Inr s) \<and> (\<forall>s s' r. tl_try_init lib (Some s) s' \<noteq> Inr r)"

text \<open>
  The first call that succeeds installs the subscriber and holds a provider exactly when the endpoint is
  set; dropping the guard shuts that provider down.  A later call fails.
\<close>

lemma init_holds_its_provider:
  assumes "try_init_ok lib" and "telemetry_init lib env service_name g = (Inr guard, g')"
  shows "tg_subscriber g = None \<and> (\<exists>s. tg_subscriber g' = Some s \<and> map_option fst (sb_otel s) = gd_provider guard) \<and>
    (gd_provider guard \<noteq> None \<longleftrightarrow> env OTLP_ENDPOINT_ENV \<noteq> None) \<and>
    (\<forall>p. gd_provider guard = Some p \<longrightarrow> tg_provider g' = Some p \<and> telemetry_guard_drop guard = [p])"
  using assms
  by (cases "tg_subscriber g"; cases "tl_build_exporter lib"; cases "env OTLP_ENDPOINT_ENV")
    (auto simp: telemetry_init_def try_init_ok_def telemetry_guard_drop_def Let_def result_simps split: sum.splits)

lemma second_init_fails:
  assumes "try_init_ok lib" and "tg_subscriber g \<noteq> None"
  shows "\<exists>e g'. telemetry_init lib env service_name g = (Inl e, g') \<and> tg_subscriber g' = tg_subscriber g"
  using assms
  by (cases "tl_build_exporter lib"; cases "env OTLP_ENDPOINT_ENV")
    (auto simp: telemetry_init_def try_init_ok_def Let_def result_simps split: sum.splits)

text \<open>
  The failed call has by then replaced the global tracer provider by one that no guard holds, so that
  nothing shuts it down.
\<close>

lemma failed_init_replaces_the_provider:
  assumes "try_init_ok lib" and "tg_subscriber g \<noteq> None" and "env OTLP_ENDPOINT_ENV \<noteq> None"
    and "tl_build_exporter lib = Inr exporter"
  shows "tg_provider (snd (telemetry_init lib env service_name g)) = Some (tl_provider lib exporter service_name)"
  using assms by (auto simp: telemetry_init_def Let_def result_simps split: sum.splits)

end
