(* ===== verification/Test_Database.thy ===== *)
theory Test_Database
  imports Kit_Prelude
begin

text \<open>
  The throw-away databases of \<open>crates/testkit/src/lib.rs\<close>.  The databases of the server are a set of names,
  \<open>seq\<close> is the process-wide counter, and connecting, statements and containers are the fields of
  \<open>test_lib\<close>.  An error is the context it is given and its cause.
\<close>

section \<open>TestDb\<close>

type_synonym test_error = "string \<times> string"

datatype admin_sql = CreateDatabase string | DropDatabase string

record ('o, 'p, 'c) test_lib =
  tk_parse :: "string \<Rightarrow> (string, 'o) result"
  tk_database :: "'o \<Rightarrow> string \<Rightarrow> 'o"
  tk_connect_with :: "nat \<Rightarrow> 'o \<Rightarrow> string set \<Rightarrow> (string, 'p) result"
  tk_connect :: "nat \<Rightarrow> string \<Rightarrow> (string, 'p) result"
  tk_execute :: "'p \<Rightarrow> admin_sql \<Rightarrow> string set \<Rightarrow> (string, string set) result"
  tk_start :: "(string, 'c) result"
  tk_host :: "'c \<Rightarrow> (string, string) result"
  tk_port :: "'c \<Rightarrow> (string, 16 word) result"

record ('o, 'p, 'c) TestDb =
  td_pool :: 'p
  td_container :: "'c option"
  td_cleanup :: "('o \<times> string) option"

record test_server =
  ts_databases :: "string set"
  ts_seq :: "64 word"

definition context_err :: "string \<Rightarrow> (string, 'a) result \<Rightarrow> (test_error, 'a) result" where
  "context_err ctx r = map_err (Pair ctx) r"

definition fresh_container :: "('o, 'p, 'c) test_lib \<Rightarrow> (test_error, ('o, 'p, 'c) TestDb) result" where
  "fresh_container lib =
     try_bind (context_err ''starting postgres testcontainer'' (tk_start lib)) (\<lambda>container.
     try_bind (context_err ''reading container host'' (tk_host lib container)) (\<lambda>host.
     try_bind (context_err ''reading container port'' (tk_port lib container)) (\<lambda>port.
     try_bind (context_err ''connecting to test postgres''
         (tk_connect lib 5 (''postgres://postgres:postgres@'' @ host @ '':'' @ show_nat (unat port) @ ''/postgres''))) (\<lambda>pool.
     Inr \<lparr>td_pool = pool, td_container = Some container, td_cleanup = None\<rparr>))))"

text \<open>\<open>uuid\<close> is the random id of the call in its simple form.\<close>

definition test_db_name :: "string \<Rightarrow> 64 word \<Rightarrow> string" where
  "test_db_name uuid seq = ''testkit_'' @ take 12 uuid @ ''_'' @ show_nat (unat seq)"

definition fresh_external ::
  "('o, 'p, 'c) test_lib \<Rightarrow> string \<Rightarrow> string \<Rightarrow> test_server
     \<Rightarrow> (test_error, ('o, 'p, 'c) TestDb) result \<times> test_server" where
  "fresh_external lib uuid base srv =
     (case context_err ''parsing TEST_DATABASE_URL'' (tk_parse lib base) of
        Inl e \<Rightarrow> (Inl e, srv)
      | Inr admin \<Rightarrow>
          (let db_name = test_db_name uuid (ts_seq srv);
               srv' = srv\<lparr>ts_seq := ts_seq srv + 1\<rparr>
           in case context_err ''connecting to TEST_DATABASE_URL'' (tk_connect_with lib 1 admin (ts_databases srv)) of
                Inl e \<Rightarrow> (Inl e, srv')
              | Inr admin_pool \<Rightarrow>
                  (case context_err ''creating ephemeral test database''
                          (tk_execute lib admin_pool (CreateDatabase db_name) (ts_databases srv)) of
                     Inl e \<Rightarrow> (Inl e, srv')
                   | Inr dbs \<Rightarrow>
                       (try_bind (context_err ''connecting to ephemeral test database''
                            (tk_connect_with lib 5 (tk_database lib admin db_name) dbs)) (\<lambda>pool.
                          Inr \<lparr>td_pool = pool, td_container = None, td_cleanup = Some (admin, db_name)\<rparr>),
                        srv'\<lparr>ts_databases := dbs\<rparr>))))"

definition fresh ::
  "('o, 'p, 'c) test_lib \<Rightarrow> (string \<rightharpoonup> string) \<Rightarrow> string \<Rightarrow> test_server
     \<Rightarrow> (test_error, ('o, 'p, 'c) TestDb) result \<times> test_server" where
  "fresh lib env uuid srv =
     (case env ''TEST_DATABASE_URL'' of
        Some base \<Rightarrow> if base \<noteq> [] then fresh_external lib uuid base srv else (fresh_container lib, srv)
      | None \<Rightarrow> (fresh_container lib, srv))"

definition run_migrations ::
  "('d \<Rightarrow> (string, 'm) result) \<Rightarrow> ('m \<Rightarrow> 'p \<Rightarrow> (string, unit) result) \<Rightarrow> ('o, 'p, 'c) TestDb \<Rightarrow> 'd \<Rightarrow> (test_error, unit) result" where
  "run_migrations load run self dir =
     try_bind (context_err ''loading migrations'' (load dir)) (\<lambda>migrator.
     context_err ''running migrations'' (run migrator (td_pool self)))"

text \<open>
  Dropping a \<open>TestDb\<close>: best effort, so every failure leaves the server as it is.  \<open>rt\<close> tells whether the
  runtime could be built, \<open>in_time\<close> whether the statement was reached before the timeout.
\<close>

definition test_db_drop ::
  "('o, 'p, 'c) test_lib \<Rightarrow> bool \<Rightarrow> bool \<Rightarrow> ('o, 'p, 'c) TestDb \<Rightarrow> test_server \<Rightarrow> test_server" where
  "test_db_drop lib rt in_time self srv =
     (case td_cleanup self of
        None \<Rightarrow> srv
      | Some (admin, db_name) \<Rightarrow>
          if \<not> rt then srv
          else (case tk_connect_with lib 1 admin (ts_databases srv) of
                  Inl _ \<Rightarrow> srv
                | Inr pool \<Rightarrow>
                    if \<not> in_time then srv
                    else (case tk_execute lib pool (DropDatabase db_name) (ts_databases srv) of
                            Inl _ \<Rightarrow> srv
                          | Inr dbs \<Rightarrow> srv\<lparr>ts_databases := dbs\<rparr>)))"

section \<open>A test gets a database of its own\<close>

text \<open>Postgres: a database is created only under a free name, and dropping removes that name alone.\<close>

definition postgres_ok :: "('o, 'p, 'c) test_lib \<Rightarrow> bool" where
  "postgres_ok lib \<longleftrightarrow>
     (\<forall>p n dbs dbs'. tk_execute lib p (CreateDatabase n) dbs = Inr dbs' \<longrightarrow> n \<notin> dbs \<and> dbs' = insert n dbs) \<and>
     (\<forall>p n dbs dbs'. tk_execute lib p (DropDatabase n) dbs = Inr dbs' \<longrightarrow> dbs' = dbs - {n})"

lemma context_err_Inr_iff [simp]: "context_err ctx r = Inr x \<longleftrightarrow> r = Inr x"
  by (cases r) (simp_all add: context_err_def map_err_simps)

lemma context_err_Inl_iff: "context_err ctx r = Inl e \<longleftrightarrow> (\<exists>cause. r = Inl cause \<and> e = (ctx, cause))"
  by (cases r) (auto simp: context_err_def map_err_simps)

lemma fresh_external_Inr:
  assumes "postgres_ok lib" and "fresh_external lib uuid base srv = (Inr db, srv')"
  shows "\<exists>admin. td_cleanup db = Some (admin, test_db_name uuid (ts_seq srv)) \<and> td_container db = None \<and>
    test_db_name uuid (ts_seq srv) \<notin> ts_databases srv \<and>
    ts_databases srv' = insert (test_db_name uuid (ts_seq srv)) (ts_databases srv) \<and> ts_seq srv' = ts_seq srv + 1"
  using assms
  by (auto simp: fresh_external_def postgres_ok_def Let_def result_simps split: sum.splits)

text \<open>
  The database of a test is a new one, and a drop that gets through leaves the server with the databases
  it had.
\<close>

theorem test_database_is_isolated:
  assumes ok: "postgres_ok lib" and run: "fresh_external lib uuid base srv = (Inr db, srv')"
  shows "\<exists>name. name \<notin> ts_databases srv \<and> ts_databases srv' = insert name (ts_databases srv) \<and>
    ts_databases (test_db_drop lib rt in_time db srv') \<in> {ts_databases srv, ts_databases srv'}"
proof -
  from fresh_external_Inr [OF assms] obtain admin where
    db: "td_cleanup db = Some (admin, test_db_name uuid (ts_seq srv))"
    "test_db_name uuid (ts_seq srv) \<notin> ts_databases srv"
    "ts_databases srv' = insert (test_db_name uuid (ts_seq srv)) (ts_databases srv)"
    by blast
  have drops: "tk_execute lib p (DropDatabase n) dbs = Inr dbs' \<Longrightarrow> dbs' = dbs - {n}" for p n dbs dbs'
    using ok by (simp add: postgres_ok_def)
  have "ts_databases (test_db_drop lib rt in_time db srv') \<in> {ts_databases srv' - {test_db_name uuid (ts_seq srv)}, ts_databases srv'}"
    using db(1) by (auto simp: test_db_drop_def dest: drops split: sum.split)
  with db show ?thesis
    by auto
qed

text \<open>
  Calls of one process never share a name, even on equal random ids: the counter differs, and its digits
  end the name.
\<close>

lemma test_db_names_differ:
  assumes "length uuid \<ge> 12" and "length uuid' \<ge> 12" and "seq \<noteq> seq'"
  shows "test_db_name uuid seq \<noteq> test_db_name uuid' seq'"
proof
  assume "test_db_name uuid seq = test_db_name uuid' seq'"
  then have "take 12 uuid @ ''_'' @ show_nat (unat seq) = take 12 uuid' @ ''_'' @ show_nat (unat seq')"
    by (simp add: test_db_name_def)
  with assms(1,2) have "show_nat (unat seq) = show_nat (unat seq')"
    by simp
  with assms(3) show False
    by (simp add: show_nat_inj word_unat_eq_iff)
qed

text \<open>
  A database is left behind when the connection to it fails: no \<open>TestDb\<close> is made, so none is dropped.
\<close>

lemma failed_connect_leaks_the_database:
  assumes "tk_parse lib base = Inr admin" and "tk_connect_with lib 1 admin (ts_databases srv) = Inr p"
    and "tk_execute lib p (CreateDatabase (test_db_name uuid (ts_seq srv))) (ts_databases srv) = Inr dbs"
    and "tk_connect_with lib 5 (tk_database lib admin (test_db_name uuid (ts_seq srv))) dbs = Inl e"
  shows "fresh_external lib uuid base srv =
    (Inl (''connecting to ephemeral test database'', e), srv\<lparr>ts_seq := ts_seq srv + 1, ts_databases := dbs\<rparr>)"
  using assms by (simp add: fresh_external_def context_err_def map_err_simps result_simps)

end
