(* ===== verification/Spec2Isabelle.thy ===== *)
theory Spec2Isabelle
  imports
    Permissions
    Api_Negotiate
    Golden_Fixtures
    Worker_Loop
    Session_Refine
    Session_Race
    Api_Errors
    Auth_Token
    Totp
    Public_Ipv6
    Rate_Limit
    Billing
    License_Key
    Oidc_Login
    Cache_Url
    Swr_Cache
    Github_App
    Vault_Kv
    Http_Layers
    Service_Support
    Telemetry
    Test_Database
begin

text \<open>
  A verification library of the Rust workspace \<open>src/crates\<close>: the crates that the services of the
  platform share for identity, permissions, API contracts, background jobs, secrets, outbound and
  inbound HTTP, billing and telemetry.

  \<^bold>\<open>The program and how its parts interact.\<close>  A request reaches a service through the layers of
  \<open>middleware\<close> and \<open>ratelimit\<close> (whose key is the client address of \<open>ip.rs\<close>), is authenticated by the
  extractor of \<open>auth\<close>, authorised with \<open>permissions\<close>, and answered under the contract that
  \<open>api-version\<close> negotiates; failures become \<open>errors\<close>.  A login comes from \<open>oauth\<close> or a password with
  \<open>totp\<close>, and leaves a refresh session in \<open>session.rs\<close>.  Secrets are sealed by \<open>crypto\<close> or kept in
  \<open>vault\<close>; work is deferred to \<open>queue\<close>; \<open>webhooks\<close> and \<open>billing\<close> receive signed events; \<open>http\<close> fetches
  URLs that users supply; \<open>license\<close> checks offline licences; \<open>github\<close> authenticates an App; \<open>cache\<close>
  keeps values in Valkey.

  \<^bold>\<open>Conventions.\<close>  A Rust string is its list of bytes, hence a HOL string.  \<open>Result\<close> is a sum with the
  error left, \<open>?\<close> is \<open>try_bind\<close>.  Machine integers are words where the code can wrap, saturate or
  narrow, and otherwise \<open>int\<close> or \<open>nat\<close>.  The clock, random bytes, the environment and the failures of
  the database are arguments.  A crate outside the workspace is a record of functions, or a function
  argument, and what is relied on of it is a named predicate over that record (\<open>aead_ok\<close>, \<open>kms_ok\<close>,
  \<open>decode_checks\<close>, \<open>id_decode_checks\<close>, \<open>licence_jwt_ok\<close>, \<open>sig_lib_ok\<close>, \<open>chrono_ok\<close>, \<open>pct_ok\<close>,
  \<open>vault_url_ok\<close>, \<open>chunks_nonempty\<close>, \<open>joins_apart\<close>, \<open>notify_ok\<close>, \<open>try_init_ok\<close>, \<open>postgres_ok\<close>); each property with such a premise comes with a
  witness on a concrete instance.

  \<^bold>\<open>Shared theories.\<close>
  \<^item> \<open>Kit_Prelude\<close>: results, the string and integer operations of the Rust library in use, the
    collections of simplification rules, and the locale \<open>wire_enum\<close> of enums with a textual form
    (interpreted for scopes, job states, products and providers).
  \<^item> \<open>Sql_Table\<close>: tables as lists of rows and the statements on them; the locale \<open>invariant_system\<close>
    lifts a preserved invariant to all histories (interpreted for the queue and for the sessions), and
    \<open>refined_system\<close> extends it by a simulation of an abstract machine (interpreted for the sessions and
    for the worker tasks).
  \<^item> \<open>Ip_Addr\<close>: the addresses of \<open>std::net\<close>, their predicates, parser and printer.

  \<^bold>\<open>Identity.\<close>
  \<^item> \<open>Permissions\<close> (\<open>permissions/src/lib.rs\<close>): scopes, implication, scope sets, access checks.  The
    intersection of two sets grants exactly what both grant.
  \<^item> \<open>Sessions\<close> (\<open>auth/src/session.rs\<close>): create, rotate, find and revoke as statements on a table, with
    the transaction and the row lock of a rotation.  Reuse of a rotated token ends its family for ever,
    and a family has at most one live session.
  \<^item> \<open>Session_Refine\<close>: the abstract token machine, and that the table implements it in every history.
  \<^item> \<open>Session_Race\<close>: histories above are serial; here a revocation overlaps a rotation under
    \<open>READ COMMITTED\<close> (\<open>update_overlapped\<close> of \<open>Sql_Table\<close>) and misses the session it adds.
  \<^item> \<open>Auth_Token\<close> (\<open>jwt.rs\<close>, \<open>middleware.rs\<close>, \<open>password.rs\<close>): what an accepted token proves, which
    requests the extractor admits, and that a token one service issues is admitted by another.
  \<^item> \<open>Totp\<close> (\<open>totp.rs\<close>): time steps are accepted at most once, recovery codes are spent.
  \<^item> \<open>Oauth_Login\<close>, \<open>Oidc_Login\<close> (\<open>oauth/src/lib.rs\<close>, \<open>oidc.rs\<close>): what a completed login proves, how
    often keys are fetched, and the issuers that can never log in.
  \<^item> \<open>License_Key\<close> (\<open>license\<close>): signer, verifier, the minting tool and their round trip.

  \<^bold>\<open>Contracts and errors.\<close>
  \<^item> \<open>Api_Version\<close>, \<open>Api_Negotiate\<close> (\<open>version.rs\<close>, \<open>transform.rs\<close>, \<open>policy.rs\<close>, \<open>layer.rs\<close>): dated
    versions and their text, the registry of transforms, the choice of a version and both paths of the
    middleware.
  \<^item> \<open>Golden_Fixtures\<close> (\<open>testkit/src/api_version_golden.rs\<close>): the harness that records and compares the
    downgraded documents; a recorded suite passes.
  \<^item> \<open>Api_Errors\<close> (\<open>errors\<close>): codes, statuses and what is told to the client.

  \<^bold>\<open>Jobs.\<close>
  \<^item> \<open>Job_Queue\<close>, \<open>Job_Queue_Props\<close> (\<open>queue\<close>): every statement on the job table; then the system in
    which producers, workers, crashes and sweeps interleave, its invariant, what a claim takes,
    idempotent enqueueing, and the job that a crash in the last attempt strands.
  \<^item> \<open>Worker_Loop\<close> (\<open>worker.rs\<close>): the run loop, the sweeper, the listener and the \<open>WorkerHandle\<close> of every
    worker as tasks that interleave between their awaits, over \<open>tokio::sync::Notify\<close> as a parameter.
    They implement the system above (an interpretation of \<open>refined_system\<close>); an idle worker stops when it
    is asked to, a busy one never hears the request, and a missed wake-up costs one poll interval.

  \<^bold>\<open>Secrets.\<close>
  \<^item> \<open>Envelope_Crypto\<close> (\<open>crypto\<close>): sealing, the local and the Cloud KMS provider behind the locale
    \<open>key_provider\<close>; the cache of unwrapped keys changes no answer.
  \<^item> \<open>Vault_Kv\<close> (\<open>vault\<close>): no secret path leaves the mount.
  \<^item> \<open>Github_App\<close> (\<open>github\<close>): App and installation tokens, and the ownership check.

  \<^bold>\<open>HTTP.\<close>
  \<^item> \<open>Http_Safe\<close>, \<open>Public_Ipv6\<close> (\<open>http\<close>): only pinned public addresses are contacted, over every chain
    of redirects; the test for public addresses against the registries; the cap on the body.
  \<^item> \<open>Rate_Limit\<close> (\<open>ratelimit\<close>): token buckets in double precision with the rounding of every
    operation written out, pruning, and the client address behind proxies.
  \<^item> \<open>Webhook_Sig\<close> (\<open>webhooks\<close>), \<open>Billing\<close> (\<open>billing\<close>): which signatures are accepted, deliveries acted on
    once, and the events and metadata of subscriptions.
  \<^item> \<open>Http_Layers\<close> (\<open>middleware\<close>): the CORS policy and the security headers.

  \<^bold>\<open>Support.\<close>
  \<^item> \<open>Cache_Url\<close>, \<open>Swr_Cache\<close> (\<open>cache\<close>): the URL with its credentials, what is logged of it, the
    connection, and the cache that serves stale values while one caller reloads.
  \<^item> \<open>Platform_Types\<close> (\<open>types\<close>): the shared data types and the contact form.
  \<^item> \<open>Service_Support\<close> (\<open>id\<close>, \<open>audit\<close>, \<open>mail\<close>, \<open>db\<close>): typed ids, the audit log, mail signing, the pool.
  \<^item> \<open>Telemetry\<close> (\<open>telemetry\<close>): the event registry, hashed ids, request metrics, and the set-up of logging
    and traces.
  \<^item> \<open>Test_Database\<close> (\<open>testkit/src/lib.rs\<close>): the throw-away databases of the tests.

  The section below composes the client address with the limiter.

  \<^bold>\<open>Termination and bounds.\<close>  No recursion takes artificial fuel.  The redirect loop counts down
  \<open>max_redirects\<close> and the poll loop of the cache counts up to \<open>max_polls\<close>, as in the code.  Reading a
  body, a stream of chunks that need not end, is a partial function into \<open>option\<close>; that it returns is
  proved from \<open>chunks_nonempty\<close>, since each chunk brings it closer to the cap, and \<open>endless_net\<close> is a
  stream without an end on which it does.  All other recursions are total.

  \<^bold>\<open>Not modelled.\<close>
  \<^item> Which task the runtime runs next, and when Postgres delivers a notification: every order is
    possible in the model.  That a task is scheduled at all is not assumed, so liveness is stated as
    the steps that are open, or as the state that is never left.
  \<^item> The listener of the metrics in \<open>telemetry/src/metrics.rs\<close>: it binds a port and serves the modelled
    router.
  \<^item> Derived code (\<open>serde\<close>, \<open>sqlx\<close>, \<open>utoipa\<close>) and the database codecs of the ids.
  \<^item> The unit tests inside the crates, and the SQL migrations beyond the constraints the statements
    rely on.
\<close>

section \<open>Rate limiting behind proxies\<close>

text \<open>
  A request as the limiter sees it: the peer, and the header a client has started with \<open>forged\<close> and to
  which each trusted proxy has appended one entry.
\<close>

definition limited_key :: "IpAddr \<Rightarrow> string list \<Rightarrow> string \<Rightarrow> string" where
  "limited_key peer entries forged = ip_key (client_ip peer (Some (forged @ '','' @ join_with '','' entries)) (length entries))"

lemma counted_one_key: "counted cap (replicate m key) (replicate n key) = map (\<lambda>i. i < cap) [m..<m + n]"
proof (induction n arbitrary: m)
  case (Suc n)
  have "counted cap (key # replicate m key) (replicate n key) = map (\<lambda>i. i < cap) [Suc m..<Suc m + n]"
    using Suc.IH [of "Suc m"] by simp
  moreover have "count_list (replicate m key) key = m"
    by (induction m) simp_all
  moreover have "[m..<m + Suc n] = m # [Suc m..<Suc m + n]"
    by (simp add: upt_conv_Cons)
  ultimately show ?case
    by simp
qed simp

text \<open>
  C12: A client cannot get more than its share by forging its address.  Of any number of requests it sends
  at one instant through \<open>n\<close> trusted proxies, each with a forwarding header it made up, exactly the first
  \<open>capacity\<close> are admitted: all of them draw on the one bucket of the address the outermost proxy saw.
\<close>

theorem forging_clients_share_one_bucket:
  assumes "entries \<noteq> []" and "\<forall>e\<in>set entries. CHR '','' \<notin> set e \<and> parse_ip (trim e) = Some (addr e)"
  shows "decisions (map (\<lambda>forged. (now, limited_key peer entries forged)) forgeries) (limiter_with_clock quota)
    = map (\<lambda>i. i < unat (q_capacity quota)) [0..<length forgeries]"
proof -
  have "limited_key peer entries forged = ip_key (addr (hd entries))" for forged
    using forged_header_ignored [OF assms, of peer forged] by (simp add: limited_key_def)
  then have "map (\<lambda>forged. (now, limited_key peer entries forged)) forgeries
      = map (Pair now) (replicate (length forgeries) (ip_key (addr (hd entries))))"
    by (simp add: map_replicate_const)
  then show ?thesis
    using counted_one_key [of "unat (q_capacity quota)" 0] by (simp only: burst_is_counted_per_key) simp
qed

theorem forging_clients_share_one_bucket_witness:
  "decisions (map (\<lambda>forged. (0, limited_key (V4 (Ipv4 9 9 9 9)) [''1.2.3.4''] forged)) [''6.6.6.6'', ''7.7.7.7'', ''lies''])
     (limiter_with_clock (quota_new 2 1)) = [True, True, False]"
proof -
  have "parse_ip ''1.2.3.4'' = Some (V4 (Ipv4 1 2 3 4))"
    by code_simp
  moreover have "trim ''1.2.3.4'' = ''1.2.3.4''"
    by (simp add: trim_all_printable printable_def)
  ultimately have "\<forall>e\<in>set [''1.2.3.4'']. CHR '','' \<notin> set e \<and> parse_ip (trim e) = Some (V4 (Ipv4 1 2 3 4))"
    by simp
  from forging_clients_share_one_bucket [OF _ this, of 0 "V4 (Ipv4 9 9 9 9)" "[''6.6.6.6'', ''7.7.7.7'', ''lies'']" "quota_new 2 1"]
  show ?thesis
    by (simp add: quota_new_def upt_conv_Cons)
qed

end
